theory Spec2Isabelle
  imports Main "HOL-Library.AList" "HOL-Library.Sublist"
begin

section \<open>JavaScript values and objects\<close>

text \<open>
  The scripts keep all their data in plain JavaScript objects parsed from JSON. A value
  is one of the JSON kinds; an object is the list of its own properties in insertion
  order. \<open>None\<close> stands for \<open>undefined\<close> (a property that is absent). Property names
  are ordinary names (step names, field names); numbers are the integers the scripts
  store (ids), so \<open>NaN\<close> and fractions are outside the model.
\<close>

datatype jval = JNull | JBool bool | JNum int | JStr string | JObj "(string \<times> jval) list"

text \<open>Truthiness, as \<open>!x\<close>, \<open>!!x\<close>, \<open>x && y\<close>, \<open>x || y\<close> and \<open>if (x)\<close> test it.\<close>

fun truthy :: "jval option \<Rightarrow> bool" where
  "truthy None = False"
| "truthy (Some JNull) = False"
| "truthy (Some (JBool b)) = b"
| "truthy (Some (JNum n)) = (n \<noteq> 0)"
| "truthy (Some (JStr s)) = (s \<noteq> [])"
| "truthy (Some (JObj kvs)) = True"

text \<open>\<open>x.k\<close> for a truthy \<open>x\<close> and a field name \<open>k\<close>: only objects have own fields.\<close>

fun getp :: "jval option \<Rightarrow> string \<Rightarrow> jval option" where
  "getp (Some (JObj kvs)) k = map_of kvs k"
| "getp v k = None"

text \<open>
  \<open>Object.assign(target, updates)\<close> and \<open>{...target, ...updates}\<close>: the properties of
  \<open>updates\<close> are written one after the other; an existing key keeps its place, a new
  key goes to the end.
\<close>

definition assign :: "(string \<times> 'v) list \<Rightarrow> (string \<times> 'v) list \<Rightarrow> (string \<times> 'v) list" where
  "assign target updates = fold (\<lambda>(k, v). AList.update k v) updates target"

section \<open>The deployment state manager (scripts/state-manager.js)\<close>

text \<open>
  \<open>deployment.json\<close> holds the data fields of the deployment at top level, the
  completion flags under \<open>state\<close> and the recorded errors under \<open>errors\<close>. On disk
  \<open>state\<close> and \<open>errors\<close> may be absent; once loaded both are present.
\<close>

record js_error =
  err_message :: string
  err_stack :: "string option"

record error_entry =
  message :: string
  timestamp :: string
  stack :: "string option"

record deployment =
  dfields :: "(string \<times> jval) list"
  flags :: "(string \<times> bool) list"
  errors :: "(string \<times> error_entry) list"

record json_file =
  f_fields :: "(string \<times> jval) list"
  f_state :: "(string \<times> bool) list option"
  f_errors :: "(string \<times> error_entry) list option"

text \<open>\<open>JSON.stringify(this.state, null, 2)\<close>, read back by \<open>JSON.parse\<close>.\<close>

definition stringify :: "deployment \<Rightarrow> json_file" where
  "stringify d = \<lparr>f_fields = dfields d, f_state = Some (flags d), f_errors = Some (errors d)\<rparr>"

text \<open>
  The manager object with the two files it reads and writes: \<open>this.state\<close>,
  \<open>deployment.json\<close> and \<open>deployment.json.backup\<close> (\<open>None\<close>: the file does not exist).
\<close>

record manager =
  this_state :: deployment
  dfile :: "json_file option"
  backup :: "json_file option"

definition fld :: "deployment \<Rightarrow> string \<Rightarrow> jval option" where
  "fld d k = map_of (dfields d) k"

definition flag :: "deployment \<Rightarrow> string \<Rightarrow> bool" where
  "flag d k = (case map_of (flags d) k of Some b \<Rightarrow> b | None \<Rightarrow> False)"

text \<open>
  Lines 55-61 of \<open>saveState\<close>: copy an existing \<open>deployment.json\<close> to the backup, then
  write the new contents.
\<close>

definition fs_save :: "json_file \<Rightarrow> json_file option \<times> json_file option \<Rightarrow> json_file option \<times> json_file option" where
  "fs_save new fb =
     (let b = (case fst fb of Some old \<Rightarrow> Some old | None \<Rightarrow> snd fb)
      in (Some new, b))"

definition saveState :: "json_file option \<Rightarrow> manager \<Rightarrow> manager" where
  "saveState newState m =
     (let stateToSave = (case newState of Some n \<Rightarrow> n | None \<Rightarrow> stringify (this_state m));
          fb = fs_save stateToSave (dfile m, backup m)
      in m\<lparr>dfile := fst fb, backup := snd fb\<rparr>)"

definition initial_flags :: "(string \<times> jval) list \<Rightarrow> (string \<times> bool) list" where
  "initial_flags fs =
     [(''contractsDeployed'', truthy (map_of fs ''tokenAddress'') \<and> truthy (map_of fs ''proxyAddress'')),
      (''dataDAORegistered'', truthy (map_of fs ''dlpId'')),
      (''proofConfigured'', False),
      (''proofGitSetup'', False),
      (''proofPublished'', False),
      (''refinerConfigured'', False),
      (''refinerGitSetup'', False),
      (''refinerPublished'', False),
      (''uiConfigured'', False)]"

text \<open>The constructor: \<open>this.state = this.loadState()\<close>.\<close>

definition loadState :: "json_file option \<Rightarrow> json_file option \<Rightarrow> js_error + manager" where
  "loadState f b =
     (case f of
        None \<Rightarrow> Inl \<lparr>err_message = ''deployment.json not found. Run deployment steps in order.'',
                     err_stack = None\<rparr>
      | Some j \<Rightarrow>
          (let (st, fb) =
                 (case f_state j of
                    Some st \<Rightarrow> (st, (f, b))
                  | None \<Rightarrow>
                      (let st = initial_flags (f_fields j)
                       in (st, fs_save (j\<lparr>f_state := Some st\<rparr>) (f, b))));
               es = (case f_errors j of Some es \<Rightarrow> es | None \<Rightarrow> [])
           in Inr \<lparr>this_state = \<lparr>dfields = f_fields j, flags = st, errors = es\<rparr>,
                   dfile = fst fb, backup = snd fb\<rparr>))"

text \<open>\<open>recordError\<close>; \<open>now\<close> is \<open>new Date().toISOString()\<close> at the time of the call.\<close>

definition recordError :: "string \<Rightarrow> js_error \<Rightarrow> string \<Rightarrow> manager \<Rightarrow> manager" where
  "recordError step error now m =
     saveState None
       (m\<lparr>this_state := (this_state m)\<lparr>errors :=
            AList.update step \<lparr>message = err_message error, timestamp = now, stack = err_stack error\<rparr>
              (errors (this_state m))\<rparr>\<rparr>)"

text \<open>\<open>clearError\<close>: an entry is an object, hence truthy whenever it is present.\<close>

definition clearError :: "string \<Rightarrow> manager \<Rightarrow> manager" where
  "clearError step m =
     (case map_of (errors (this_state m)) step of
        Some e \<Rightarrow>
          saveState None
            (m\<lparr>this_state := (this_state m)\<lparr>errors := AList.delete step (errors (this_state m))\<rparr>\<rparr>)
      | None \<Rightarrow> m)"

definition updateState :: "(string \<times> bool) list \<Rightarrow> manager \<Rightarrow> manager" where
  "updateState updates m =
     saveState None (m\<lparr>this_state := (this_state m)\<lparr>flags := assign (flags (this_state m)) updates\<rparr>\<rparr>)"

definition updateDeployment :: "(string \<times> jval) list \<Rightarrow> manager \<Rightarrow> manager" where
  "updateDeployment updates m =
     saveState None (m\<lparr>this_state := (this_state m)\<lparr>dfields := assign (dfields (this_state m)) updates\<rparr>\<rparr>)"

definition markCompleted :: "string \<Rightarrow> (string \<times> jval) list \<Rightarrow> manager \<Rightarrow> manager" where
  "markCompleted step data m =
     (let m1 = updateState [(step, True)] m
      in if length data > 0 then updateDeployment data m1 else m1)"

text \<open>
  \<open>x && y\<close> and \<open>x || y\<close> return one of their operands, not a boolean.
\<close>

definition js_and :: "jval option \<Rightarrow> jval option \<Rightarrow> jval option" where
  "js_and x y = (if truthy x then y else x)"

definition js_or :: "jval option \<Rightarrow> jval option \<Rightarrow> jval option" where
  "js_or x y = (if truthy x then x else y)"

text \<open>
  The two constants of \<open>isCompleted\<close> and \<open>validateConfiguration\<close>:
  \<open>this.state.tokenAddress && this.state.proxyAddress\<close> and
  \<open>this.state.contracts && this.state.contracts.tokenAddress && this.state.contracts.proxyAddress\<close>.
\<close>

definition hasOldFormat :: "deployment \<Rightarrow> jval option" where
  "hasOldFormat d = js_and (fld d ''tokenAddress'') (fld d ''proxyAddress'')"

definition hasNewFormat :: "deployment \<Rightarrow> jval option" where
  "hasNewFormat d =
     js_and (js_and (fld d ''contracts'') (getp (fld d ''contracts'') ''tokenAddress''))
       (getp (fld d ''contracts'') ''proxyAddress'')"

text \<open>
  \<open>validateConfiguration\<close> returns the list of issues. It assigns nothing and calls no
  file operation, so the manager it returns is the one it was given.
\<close>

definition requiredFields :: "string list" where
  "requiredFields = [''dlpName'', ''tokenName'', ''tokenSymbol'', ''privateKey'', ''address'']"

definition validateConfiguration :: "manager \<Rightarrow> string list \<times> manager" where
  "validateConfiguration m =
     (let d = this_state m;
          issues = map (\<lambda>f. ''Missing '' @ f) (filter (\<lambda>f. \<not> truthy (fld d f)) requiredFields);
          issues = (if \<not> truthy (fld d ''pinataApiKey'') \<or> \<not> truthy (fld d ''pinataApiSecret'')
                    then issues @ [''Missing Pinata credentials''] else issues);
          issues = (if \<not> truthy (fld d ''googleClientId'') \<or> \<not> truthy (fld d ''googleClientSecret'')
                    then issues @ [''Missing Google OAuth credentials''] else issues);
          issues = (if flag d ''dataDAORegistered'' \<and> \<not> truthy (fld d ''dlpId'')
                    then issues @ [''Marked as registered but missing dlpId''] else issues);
          issues = (if flag d ''contractsDeployed'' \<and> \<not> truthy (hasOldFormat d) \<and> \<not> truthy (hasNewFormat d)
                    then issues @ [''Marked as deployed but missing contract addresses''] else issues)
      in (issues, m))"

text \<open>
  \<open>isCompleted\<close>: the flag first, then the data that proves completion. The result is
  the value the method returns: \<open>true\<close> or \<open>false\<close> for every step but
  \<open>contractsDeployed\<close>, for which \<open>hasOldFormat || hasNewFormat\<close> is returned as it is
  (an address, or whatever falsy value ended the chain).
\<close>

definition isCompleted :: "manager \<Rightarrow> string \<Rightarrow> jval option" where
  "isCompleted m step =
     (let d = this_state m in
      if flag d step then Some (JBool True)
      else if step = ''contractsDeployed'' then js_or (hasOldFormat d) (hasNewFormat d)
      else if step = ''dataDAORegistered'' then Some (JBool (truthy (fld d ''dlpId'')))
      else if step = ''proofGitSetup'' then Some (JBool (truthy (fld d ''proofRepo'')))
      else if step = ''refinerGitSetup'' then Some (JBool (truthy (fld d ''refinerRepo'')))
      else if step = ''proofConfigured''
        then Some (JBool (truthy (js_or (fld d ''proofUrl'') (fld d ''proofContractAddress''))))
      else if step = ''refinerConfigured''
        then Some (JBool (truthy (js_or (fld d ''refinerId'') (fld d ''refinerContractAddress''))))
      else if step = ''uiConfigured'' then Some (JBool (flag d step))
      else Some (JBool (flag d step)))"

text \<open>
  \<open>syncStateFromData\<close>: six checks in the source's order, each adding its flag to
  \<open>updates\<close>; \<open>hasUpdates\<close> is true exactly when one of them did.
\<close>

definition sync_check :: "manager \<Rightarrow> string \<Rightarrow> (string \<times> bool) list \<Rightarrow> (string \<times> bool) list" where
  "sync_check m step updates =
     (if \<not> flag (this_state m) step \<and> truthy (isCompleted m step)
      then AList.update step True updates else updates)"

definition sync_steps :: "string list" where
  "sync_steps = [''contractsDeployed'', ''dataDAORegistered'', ''proofGitSetup'',
                 ''refinerGitSetup'', ''proofConfigured'', ''refinerConfigured'']"

definition syncStateFromData :: "manager \<Rightarrow> (string \<times> bool) list option \<times> manager" where
  "syncStateFromData m =
     (let updates = fold (sync_check m) sync_steps [];
          hasUpdates = (updates \<noteq> [])
      in if hasUpdates then (Some updates, updateState updates m) else (None, m))"

section \<open>Console output (lib/output.js)\<close>

text \<open>
  What a script prints is the list of the lines it writes, each line as the UTF-8
  bytes of its text; the colours that \<open>chalk\<close> adds are left out. The symbols used
  in the lines: U+274C, U+2705, U+1F504, U+1F4CB, U+23F8 U+FE0F, U+26A0 U+FE0F,
  U+2139 U+FE0F, U+1F680, U+1F389 and the bullet U+2022.
\<close>

definition cross_mark :: string where
  "cross_mark = [CHR 0xE2, CHR 0x9D, CHR 0x8C]"

definition check_mark :: string where
  "check_mark = [CHR 0xE2, CHR 0x9C, CHR 0x85]"

definition cycle_mark :: string where
  "cycle_mark = [CHR 0xF0, CHR 0x9F, CHR 0x94, CHR 0x84]"

definition clipboard_mark :: string where
  "clipboard_mark = [CHR 0xF0, CHR 0x9F, CHR 0x93, CHR 0x8B]"

definition pause_mark :: string where
  "pause_mark = [CHR 0xE2, CHR 0x8F, CHR 0xB8, CHR 0xEF, CHR 0xB8, CHR 0x8F]"

definition warning_mark :: string where
  "warning_mark = [CHR 0xE2, CHR 0x9A, CHR 0xA0, CHR 0xEF, CHR 0xB8, CHR 0x8F]"

definition info_mark :: string where
  "info_mark = [CHR 0xE2, CHR 0x84, CHR 0xB9, CHR 0xEF, CHR 0xB8, CHR 0x8F]"

definition rocket_mark :: string where
  "rocket_mark = [CHR 0xF0, CHR 0x9F, CHR 0x9A, CHR 0x80]"

definition party_mark :: string where
  "party_mark = [CHR 0xF0, CHR 0x9F, CHR 0x8E, CHR 0x89]"

definition bullet :: string where
  "bullet = [CHR 0xE2, CHR 0x80, CHR 0xA2]"

text \<open>
  The methods of the output manager that the status command calls. Quiet mode is
  never switched on, so \<open>info\<close> always prints.
\<close>

definition output_step :: "string \<Rightarrow> string \<Rightarrow> string list" where
  "output_step title description =
     [[], cycle_mark @ '' '' @ title]
       @ (if description \<noteq> [] then [''   '' @ description] else [])
       @ [[]]"

definition output_success :: "string \<Rightarrow> string list" where
  "output_success msg = [check_mark @ '' '' @ msg]"

definition output_warning :: "string \<Rightarrow> string list" where
  "output_warning msg = [warning_mark @ ''  '' @ msg]"

definition output_error :: "string \<Rightarrow> string list" where
  "output_error msg = [cross_mark @ '' '' @ msg]"

definition output_info :: "string \<Rightarrow> string list" where
  "output_info msg = [info_mark @ ''  '' @ msg]"

text \<open>\<open>summary\<close>, for items that are objects with a label and a value already printed.\<close>

definition output_summary :: "string \<Rightarrow> (string \<times> string) list \<Rightarrow> string list" where
  "output_summary title items =
     [[], clipboard_mark @ '' '' @ title]
       @ map (\<lambda>(label, v). ''  '' @ bullet @ '' '' @ label @ '': '' @ v) items
       @ [[]]"

section \<open>The detailed errors of the status command\<close>

text \<open>
  \<open>showDetailedErrors\<close> of the status command: the lines it prints. \<open>toLocale\<close> is
  \<open>new Date(t).toLocaleString()\<close>, which depends on the machine's locale.
\<close>

definition error_lines :: "(string \<Rightarrow> string) \<Rightarrow> string \<times> error_entry \<Rightarrow> string list" where
  "error_lines toLocale se =
     [cross_mark @ '' '' @ fst se,
      ''   Time: '' @ toLocale (timestamp (snd se)),
      ''   Error: '' @ message (snd se),
      []]"

definition showDetailedErrors :: "(string \<Rightarrow> string) \<Rightarrow> (string \<times> error_entry) list \<Rightarrow> string list" where
  "showDetailedErrors toLocale errs =
     (if length errs = 0
      then output_info ''No errors recorded - all pending steps are waiting to be executed''
             @ [''Use the commands shown above to continue setup'']
      else output_step ''Detailed Error Information'' [] @ concat (map (error_lines toLocale) errs))"

text \<open>
  The invariant the specification talks about, negated: the registration flag is set
  while the \<open>dlpId\<close> field is absent.
\<close>

definition violates_registered :: "deployment \<Rightarrow> bool" where
  "violates_registered d = (flag d ''dataDAORegistered'' \<and> fld d ''dlpId'' = None)"

text \<open>A deployment used as the concrete input of the evaluated examples.\<close>

definition example_deployment :: deployment where
  "example_deployment =
     \<lparr>dfields = [(''dlpName'', JStr ''QuickstartDAO''), (''address'', JStr ''0xabc'')],
      flags = [(''contractsDeployed'', False), (''dataDAORegistered'', True)],
      errors = [(''contractsDeployed'',
                 \<lparr>message = ''Command failed'', timestamp = ''2025-01-01T00:00:00.000Z'', stack = None\<rparr>)]\<rparr>"

definition example_manager :: manager where
  "example_manager =
     \<lparr>this_state = example_deployment, dfile = Some (stringify example_deployment), backup = None\<rparr>"



section \<open>Strings\<close>

text \<open>
  Strings are lists of 8-bit characters; the error messages the scripts inspect are
  ASCII. \<open>toLowerCase\<close> folds the letters A to Z, \<open>str_includes\<close> (\<open>includes\<close>) is the
  substring test, \<open>startsWith\<close> the prefix test.
\<close>

definition lower_char :: "char \<Rightarrow> char" where
  "lower_char c =
     (let n = (of_char c :: nat) in if 65 \<le> n \<and> n \<le> 90 then char_of (n + 32) else c)"

definition toLowerCase :: "string \<Rightarrow> string" where
  "toLowerCase s = map lower_char s"

definition startsWith :: "string \<Rightarrow> string \<Rightarrow> bool" where
  "startsWith s p = (take (length p) s = p)"

fun str_includes :: "string \<Rightarrow> string \<Rightarrow> bool" where
  "str_includes [] sub = (sub = [])"
| "str_includes (c # cs) sub = (startsWith (c # cs) sub \<or> str_includes cs sub)"

section \<open>Registration failures (catch block of \<open>performAutomatedRegistration\<close>)\<close>

text \<open>
  What leaves the catch block: the caught error thrown again, or the
  \<open>ReferenceError\<close> that JavaScript raises when an identifier is read that is not
  bound in the scope of the reading code.
\<close>

datatype thrown = Rethrown js_error | ReferenceError string

text \<open>
  The identifiers the catch block can read: the parameters of the function, the
  constants declared before the \<open>try\<close>, the catch parameter, the block's own
  declarations, and the module's top-level names. The constants declared inside the
  \<open>try\<close> block (\<open>account\<close>, \<open>publicClient\<close>, \<open>walletClient\<close>, \<open>hasBalance\<close>,
  \<open>dlpProxyAddress\<close>, \<open>registrationParams\<close>, \<open>hash\<close>, \<open>receipt\<close>, \<open>dlpId\<close>) are
  block-scoped and end with that block.
\<close>

definition catch_scope :: "string list" where
  "catch_scope =
     [''deployment'', ''quickMode'', ''contractsEnvPath'', ''envContent'', ''privateKeyMatch'',
      ''privateKey'', ''error'', ''signatureMatch'', ''errorLower'', ''recoverySteps'', ''canRetry'',
      ''fs'', ''path'', ''chalk'', ''inquirer'', ''createPublicClient'', ''createWalletClient'',
      ''http'', ''parseEther'', ''privateKeyToAccount'', ''moksha'', ''DLP_REGISTRY_ADDRESS'',
      ''DLP_REGISTRY_ABI'', ''decodeErrorSignature'', ''checkDlpNameAvailability'', ''getDlpId'',
      ''checkWalletBalance'', ''performAutomatedRegistration'', ''performManualRegistration'',
      ''registerDataDAO'']"

definition read_identifier :: "string list \<Rightarrow> (string \<Rightarrow> string) \<Rightarrow> string \<Rightarrow> thrown + string" where
  "read_identifier scope val name =
     (if name \<in> set scope then Inr (val name) else Inl (ReferenceError name))"

datatype category =
  InsufficientFunds | UserCancelled | NameConflict | Reverted | NonceConflict | NetworkIssue | Unexpected

text \<open>The chain of \<open>if\<close>/\<open>else if\<close> tests on \<open>error.message.toLowerCase()\<close>, in the source's order.\<close>

definition classify :: "string \<Rightarrow> category" where
  "classify msg =
     (let errorLower = toLowerCase msg in
      if str_includes errorLower ''insufficient funds'' \<or> str_includes errorLower ''insufficient_funds''
        then InsufficientFunds
      else if str_includes errorLower ''user rejected'' \<or> str_includes errorLower ''user denied''
        then UserCancelled
      else if str_includes errorLower ''already registered'' \<or> str_includes errorLower ''dlp exists''
              \<or> str_includes errorLower ''invalidname''
              \<or> (str_includes errorLower ''name'' \<and> str_includes errorLower ''taken'')
        then NameConflict
      else if str_includes errorLower ''reverted'' \<or> str_includes errorLower ''execution failed''
        then Reverted
      else if str_includes errorLower ''nonce'' \<or> str_includes errorLower ''already known''
        then NonceConflict
      else if str_includes errorLower ''timeout'' \<or> str_includes errorLower ''network''
        then NetworkIssue
      else Unexpected)"

record analysis =
  hint :: string
  recoverySteps :: "string list"
  canRetry :: bool

text \<open>
  The body of each branch: the hint it prints, then \<open>canRetry\<close> and \<open>recoverySteps\<close>.
  \<open>address\<close> is \<open>deployment.address\<close>. The name-conflict branch builds its first
  recovery step from the identifier \<open>dlpProxyAddress\<close>. (Quotation marks and emoji
  inside the printed texts are left out.)
\<close>

definition branch :: "string \<Rightarrow> category \<Rightarrow> string \<times> (thrown + analysis)" where
  "branch address c =
     (case c of
        InsufficientFunds \<Rightarrow>
          (''Insufficient funds detected'',
           Inr \<lparr>hint = ''Insufficient funds detected'',
                recoverySteps =
                  [''Check balance: https://moksha.vanascan.io/address/'' @ address,
                   ''Get testnet VANA: https://faucet.vana.org'',
                   ''Wait 1-2 minutes for funds to arrive'',
                   ''Retry registration: npm run register:datadao''],
                canRetry = False\<rparr>)
      | UserCancelled \<Rightarrow>
          (''Transaction cancelled by user'',
           Inr \<lparr>hint = ''Transaction cancelled by user'',
                recoverySteps =
                  [''No action needed - you cancelled the transaction'',
                   ''Retry when ready: npm run register:datadao''],
                canRetry = True\<rparr>)
      | NameConflict \<Rightarrow>
          (''DataDAO name conflict detected'',
           case read_identifier catch_scope (\<lambda>n. []) ''dlpProxyAddress'' of
             Inl e \<Rightarrow> Inl e
           | Inr dlpProxyAddress \<Rightarrow>
               Inr \<lparr>hint = ''DataDAO name conflict detected'',
                    recoverySteps =
                      [''Check registration on Vanascan: https://moksha.vanascan.io/address/''
                         @ dlpProxyAddress,
                       ''If registered, run: npm run status to update local state'',
                       ''Otherwise, check existing DataDAO names: https://moksha.vanascan.io/address/0x4D59880a924526d1dD33260552Ff4328b1E18a43'',
                       ''Edit deployment.json and change dlpName to something unique'',
                       ''Retry registration after changing the name''],
                    canRetry = False\<rparr>)
      | Reverted \<Rightarrow>
          (''Transaction was reverted by the network'',
           Inr \<lparr>hint = ''Transaction was reverted by the network'',
                recoverySteps =
                  [''Verify contract deployment succeeded: npm run status'',
                   ''Check DLP proxy address is correct in deployment.json'',
                   ''Ensure you are using the proxy address, not implementation'',
                   ''Try manual registration via Vanascan''],
                canRetry = False\<rparr>)
      | NonceConflict \<Rightarrow>
          (''Transaction nonce conflict detected'',
           Inr \<lparr>hint = ''Transaction nonce conflict detected'',
                recoverySteps =
                  [''Wait 30 seconds for pending transactions'',
                   ''Check recent transactions: https://moksha.vanascan.io/address/'' @ address,
                   ''Retry registration: npm run register:datadao''],
                canRetry = True\<rparr>)
      | NetworkIssue \<Rightarrow>
          (''Network connectivity issue'',
           Inr \<lparr>hint = ''Network connectivity issue'',
                recoverySteps =
                  [''Check your internet connection'',
                   ''Wait 2-3 minutes for network congestion'',
                   ''Retry registration: npm run register:datadao''],
                canRetry = True\<rparr>)
      | Unexpected \<Rightarrow>
          (''Unexpected error occurred'',
           Inr \<lparr>hint = ''Unexpected error occurred'',
                recoverySteps =
                  [''Check the full error message above'',
                   ''Verify deployment.json has correct addresses'',
                   ''Try manual registration via Vanascan'',
                   ''Contact support if issue persists''],
                canRetry = False\<rparr>))"

text \<open>
  The catch block from the error analysis on: the lines printed and what is thrown.
  When building \<open>recoverySteps\<close> raises, nothing after the hint is printed and the
  raised error leaves the block; otherwise the steps are printed, then the retry note
  when \<open>canRetry\<close>, then the pointer to manual registration, and the caught error is
  thrown again. (The attempt to decode a 4-byte error signature before the analysis
  only prints, and swallows its own failures.)
\<close>

definition handleRegistrationError :: "string \<Rightarrow> js_error \<Rightarrow> string list \<times> thrown" where
  "handleRegistrationError address error =
     (case branch address (classify (err_message error)) of
        (h, Inl e) \<Rightarrow> ([h], e)
      | (h, Inr a) \<Rightarrow>
          ([h, ''Recovery Steps:''] @ recoverySteps a
             @ (if canRetry a then [''This error is likely temporary and can be retried.''] else [])
             @ [''Alternative: Manual Registration'',
                ''You can also register manually via Vanascan:'',
                ''https://moksha.vanascan.io/address/0x4D59880a924526d1dD33260552Ff4328b1E18a43?tab=write_proxy''],
           Rethrown error))"

section \<open>Polling loops\<close>

text \<open>
  What a script does to the outside world, in order: a contract read (function and
  arguments), a transaction (function, arguments, value attached in wei), waiting for
  the receipt of a transaction hash, a sleep in milliseconds, a write of
  \<open>deployment.json\<close>.
\<close>

datatype event =
  RpcRead string "jval list"
  | SendTx string "jval list" nat
  | WaitReceipt string
  | Sleep nat
  | WriteFile json_file

text \<open>
  \<open>pollEncryptionKey\<close> (scripts/deploy-refiner.js), for an integer \<open>dlpId\<close>. \<open>reads i\<close> is the outcome of the
  \<open>readContract\<close> call of iteration \<open>i\<close>: an exception or the string the contract
  returns. The function has one \<open>return\<close> inside the loop and one after it, and the
  only call that can fail sits inside the \<open>try\<close>; the result type keeps a branch for an
  exception leaving the function, which no equation produces.
\<close>

function poll_loop ::
  "int \<Rightarrow> (nat \<Rightarrow> js_error + string) \<Rightarrow> int \<Rightarrow> int \<Rightarrow> string option \<times> event list" where
  "poll_loop dlpId reads maxAttempts i =
     (if i < maxAttempts then
        (case reads (nat i) of
           Inr encryptionKey \<Rightarrow>
             if encryptionKey \<noteq> [] then (Some encryptionKey, [RpcRead ''dlpPubKeys'' [JNum dlpId]])
             else (let (r, tr) = poll_loop dlpId reads maxAttempts (i + 1)
                   in (r, RpcRead ''dlpPubKeys'' [JNum dlpId]
                          # (if i < maxAttempts - 1 then [Sleep 30000] else []) @ tr))
         | Inl error \<Rightarrow>
             (let (r, tr) = poll_loop dlpId reads maxAttempts (i + 1)
              in (r, RpcRead ''dlpPubKeys'' [JNum dlpId]
                     # (if i < maxAttempts - 1 then [Sleep 30000] else []) @ tr)))
      else (None, []))"
  by pat_completeness auto
termination
  by (relation "measure (\<lambda>(dlpId, reads, maxAttempts, i). nat (maxAttempts - i))") auto

declare poll_loop.simps [simp del]

text \<open>The default parameter \<open>maxAttempts = 60\<close>.\<close>

definition attempt_limit :: "int option \<Rightarrow> int" where
  "attempt_limit maxAttempts = (case maxAttempts of None \<Rightarrow> 60 | Some n \<Rightarrow> n)"

definition pollEncryptionKey ::
  "int \<Rightarrow> (nat \<Rightarrow> js_error + string) \<Rightarrow> int option \<Rightarrow> (js_error + string option) \<times> event list" where
  "pollEncryptionKey dlpId reads maxAttempts =
     (let (r, tr) = poll_loop dlpId reads (attempt_limit maxAttempts) 0
      in (Inr r, tr))"

text \<open>
  \<open>getDlpId\<close> (register script): the registry's answer as a number, 0 when the call
  fails.
\<close>

definition getDlpId :: "js_error + nat \<Rightarrow> nat" where
  "getDlpId r = (case r of Inl error \<Rightarrow> 0 | Inr dlpId \<Rightarrow> dlpId)"

text \<open>
  The detection loop of \<open>performManualRegistration\<close>,
  \<open>for (let i = 0; i < bound; i++)\<close> with \<open>bound\<close> 10 (5 in the retry menu):
  \<open>ids k\<close> is the outcome of the \<open>k\<close>-th \<open>dlpIds\<close> read of the run (counting from 0), \<open>n\<close> the number of
  reads made before the loop. It returns the value of \<open>dlpId\<close> after the loop.
\<close>

function detect_loop ::
  "jval \<Rightarrow> (nat \<Rightarrow> js_error + nat) \<Rightarrow> nat \<Rightarrow> int \<Rightarrow> int \<Rightarrow> nat \<Rightarrow> nat \<times> event list" where
  "detect_loop dlpProxyAddress ids n bound i dlpId0 =
     (if i < bound then
        (let dlpId = getDlpId (ids (n + nat i)) in
         if dlpId > 0 then (dlpId, [RpcRead ''dlpIds'' [dlpProxyAddress]])
         else (let (r, tr) = detect_loop dlpProxyAddress ids n bound (i + 1) dlpId
               in (r, RpcRead ''dlpIds'' [dlpProxyAddress] # Sleep 3000 # tr)))
      else (dlpId0, []))"
  by pat_completeness auto
termination
  by (relation "measure (\<lambda>(a, ids, n, bound, i, d). nat (bound - i))") auto

declare detect_loop.simps [simp del]

text \<open>
  The shape the specification gives to a polling run: \<open>k\<close> times the read \<open>rd\<close> with
  one sleep of \<open>ms\<close> milliseconds between consecutive reads.
\<close>

definition reads_separated_by_sleeps :: "event \<Rightarrow> nat \<Rightarrow> nat \<Rightarrow> event list" where
  "reads_separated_by_sleeps rd ms k =
     (if k = 0 then [] else concat (replicate (k - 1) [rd, Sleep ms]) @ [rd])"

definition good_key :: "js_error + string \<Rightarrow> bool" where
  "good_key r = (case r of Inl e \<Rightarrow> False | Inr k \<Rightarrow> k \<noteq> [])"

definition example_reads :: "nat \<Rightarrow> js_error + string" where
  "example_reads i = (if i = 2 then Inr ''04ab'' else Inr [])"

definition failing_reads :: "nat \<Rightarrow> js_error + string" where
  "failing_reads i = Inl \<lparr>err_message = ''HTTP request failed'', err_stack = None\<rparr>"

section \<open>Contract deployment (\<open>deployContracts\<close>)\<close>

text \<open>
  The output of the deployment tool is a JavaScript string, a sequence of UTF-16 code
  units, and it may hold any text. The regular expressions the script applies to it
  have no flag, so they work on code units. The texts written in the script itself
  (the literals of the patterns) are ASCII.
\<close>

type_synonym code_unit = nat

definition units :: "string \<Rightarrow> code_unit list" where
  "units s = map of_char s"

definition text_of :: "code_unit list \<Rightarrow> string" where
  "text_of us = map char_of us"

text \<open>
  The regular expressions are sequences of literals, \<open>\s*\<close> and \<open>\s+\<close>, ending in
  the capture group \<open>(0x[a-fA-F0-9]{40})\<close>. The class \<open>[a-fA-F0-9]\<close> is the union of
  three ranges of code units. \<open>\s\<close> is the white space and the line terminators of
  ECMAScript: U+0009 to U+000D, U+0020, U+00A0, U+1680, U+2000 to U+200A, U+2028,
  U+2029, U+202F, U+205F, U+3000 and U+FEFF. After a run of white space every pattern
  goes on with a character that is not white space, so the greedy match of the run is
  the only one that can succeed.
\<close>

definition is_hex :: "code_unit \<Rightarrow> bool" where
  "is_hex n = ((97 \<le> n \<and> n \<le> 102) \<or> (65 \<le> n \<and> n \<le> 70) \<or> (48 \<le> n \<and> n \<le> 57))"

definition is_space :: "code_unit \<Rightarrow> bool" where
  "is_space n =
     ((9 \<le> n \<and> n \<le> 13) \<or> n = 32 \<or> n = 160 \<or> n = 5760 \<or> (8192 \<le> n \<and> n \<le> 8202)
      \<or> n = 8232 \<or> n = 8233 \<or> n = 8239 \<or> n = 8287 \<or> n = 12288 \<or> n = 65279)"

datatype tok = Lit string | Space0 | Space1

text \<open>The capture group at the head of \<open>s\<close>.\<close>

definition match_address :: "code_unit list \<Rightarrow> code_unit list option" where
  "match_address s =
     (let h = take 40 (drop 2 s)
      in if take 2 s = units ''0x'' \<and> length h = 40 \<and> list_all is_hex h
         then Some (units ''0x'' @ h) else None)"

text \<open>The pattern anchored at the head of \<open>s\<close>; the result is capture group 1.\<close>

fun match_at :: "tok list \<Rightarrow> code_unit list \<Rightarrow> code_unit list option" where
  "match_at [] s = match_address s"
| "match_at (Lit l # ts) s =
     (if take (length l) s = units l then match_at ts (drop (length l) s) else None)"
| "match_at (Space0 # ts) s = match_at ts (dropWhile is_space s)"
| "match_at (Space1 # ts) s =
     (case s of
        [] \<Rightarrow> None
      | c # cs \<Rightarrow> if is_space c then match_at ts (dropWhile is_space cs) else None)"

text \<open>The leftmost position at which a matcher succeeds.\<close>

fun search :: "(code_unit list \<Rightarrow> 'a option) \<Rightarrow> code_unit list \<Rightarrow> 'a option" where
  "search p [] = p []"
| "search p (c # cs) = (case p (c # cs) of Some r \<Rightarrow> Some r | None \<Rightarrow> search p cs)"

text \<open>\<open>output.match(/.../)\<close> followed by \<open>[1]\<close>; \<open>None\<close> when \<open>match\<close> returns null.\<close>

definition js_match :: "tok list \<Rightarrow> code_unit list \<Rightarrow> code_unit list option" where
  "js_match pattern output = search (match_at pattern) output"

definition token_pattern :: "tok list" where
  "token_pattern = [Lit ''Token Address:'', Space0]"

definition proxy_pattern :: "tok list" where
  "proxy_pattern = [Lit ''DataLiquidityPoolProxy'', Space1, Lit ''deployed'', Space1, Lit ''to:'', Space0]"

definition vesting_pattern :: "tok list" where
  "vesting_pattern = [Lit ''Vesting Wallet Address:'', Space0]"

definition alt_proxy_pattern :: "tok list" where
  "alt_proxy_pattern = [Lit ''Proxy deployed to:'', Space0]"

text \<open>
  What the run depends on: the parsed \<open>deployment.json\<close> (\<open>None\<close> when reading or
  parsing it throws), the wallet balance in wei as \<open>getBalance\<close> returns it or the
  error it throws, and the output of the deployment tool or the error \<open>execSync\<close>
  throws.
\<close>

record deploy_env =
  deployment_json :: "json_file option"
  balance :: "js_error + nat"
  hardhat :: "js_error + code_unit list"

datatype exit = Exited nat | Completed

text \<open>\<open>balanceInVana < 0.1\<close> in \<open>checkWalletBalance\<close>, on the balance in wei.\<close>

definition balance_too_low :: "js_error + nat \<Rightarrow> bool" where
  "balance_too_low b = (case b of Inl error \<Rightarrow> False | Inr wei \<Rightarrow> wei < 100000000000000000)"

text \<open>
  The assignments to \<open>deployment\<close> once both addresses are known, in the source's
  order. A matched address consists of ASCII code units only and is stored as the
  text with these codes.
\<close>

definition record_addresses :: "string \<Rightarrow> string \<Rightarrow> string option \<Rightarrow> json_file \<Rightarrow> json_file" where
  "record_addresses tokenAddress proxyAddress vestingMatch d =
     (let fs = AList.update ''contracts''
                 (JObj [(''tokenAddress'', JStr tokenAddress),
                        (''proxyAddress'', JStr proxyAddress),
                        (''vestingAddress'', (case vestingMatch of Some v \<Rightarrow> JStr v | None \<Rightarrow> JNull))])
                 (f_fields d);
          fs = AList.update ''tokenAddress'' (JStr tokenAddress) fs;
          fs = AList.update ''proxyAddress'' (JStr proxyAddress) fs;
          st = AList.update ''contractsDeployed'' True (case f_state d of Some st \<Rightarrow> st | None \<Rightarrow> []);
          fs = (case vestingMatch of Some v \<Rightarrow> AList.update ''vestingAddress'' (JStr v) fs | None \<Rightarrow> fs)
      in d\<lparr>f_fields := fs, f_state := Some st\<rparr>)"

text \<open>
  \<open>deployContracts\<close>: how the process ends and what \<open>deployment.json\<close> holds then.
  Every path through the \<open>catch\<close> block ends in \<open>process.exit(1)\<close>; the errors caught
  here are thrown before any of the three matches is assigned, so the block's save of
  partial progress does not apply. File writes are taken to succeed.
\<close>

definition deployContracts :: "deploy_env \<Rightarrow> exit \<times> json_file option" where
  "deployContracts env =
     (case deployment_json env of
        None \<Rightarrow> (Exited 1, None)
      | Some deployment \<Rightarrow>
          if balance_too_low (balance env) then (Exited 1, Some deployment)
          else
            (case hardhat env of
               Inl deployError \<Rightarrow> (Exited 1, Some deployment)
             | Inr output \<Rightarrow>
                 (let tokenMatch = js_match token_pattern output;
                      proxyMatch = js_match proxy_pattern output;
                      vestingMatch = js_match vesting_pattern output;
                      altProxyMatch = js_match alt_proxy_pattern output
                  in case tokenMatch of
                       None \<Rightarrow> (Exited 1, Some deployment)
                     | Some tokenAddress \<Rightarrow>
                         (case (case proxyMatch of Some p \<Rightarrow> Some p | None \<Rightarrow> altProxyMatch) of
                            None \<Rightarrow> (Exited 1, Some deployment)
                          | Some proxyAddress \<Rightarrow>
                              (Completed,
                               Some (record_addresses (text_of tokenAddress) (text_of proxyAddress)
                                       (map_option text_of vestingMatch) deployment))))))"

text \<open>
  The specification's words, to compare the patterns with: the hexadecimal digits, an
  address (\<open>0x\<close> and 40 hexadecimal digits), and white space.
\<close>

definition hex_digits :: "code_unit set" where
  "hex_digits = set (units ''0123456789abcdefABCDEF'')"

definition is_address :: "code_unit list \<Rightarrow> bool" where
  "is_address a = (take 2 a = units ''0x'' \<and> length a = 42 \<and> set (drop 2 a) \<subseteq> hex_digits)"

definition white_space :: "code_unit set" where
  "white_space =
     {0x9, 0xA, 0xB, 0xC, 0xD, 0x20, 0xA0, 0x1680, 0x2028, 0x2029, 0x202F, 0x205F, 0x3000, 0xFEFF}
       \<union> {0x2000..0x200A}"

text \<open>
  An output in which a no-break space follows 'Token Address:' and which holds a
  check mark (U+2705) and a line feed.
\<close>

definition example_output :: "code_unit list" where
  "example_output =
     units ''Token Address:'' @ [0xA0] @ units ''0x00112233445566778899aAbBcCdDeEfF00112233''
       @ [0xA, 0x2705, 0x20]
       @ units ''Proxy deployed to: 0xffffffffffffffffffffffffffffffffffffffff done''"

definition example_deploy_env :: deploy_env where
  "example_deploy_env =
     \<lparr>deployment_json = Some \<lparr>f_fields = [(''dlpName'', JStr ''QuickstartDAO'')], f_state = None, f_errors = None\<rparr>,
      balance = Inr 2000000000000000000,
      hardhat = Inr example_output\<rparr>"

section \<open>The contribution flow of the web application (\<open>useContributionFlow\<close>)\<close>

text \<open>
  The state the hook keeps with \<open>useState\<close>. The contribution data shown on the
  success screen takes no part in the control flow and is left out. \<open>calls\<close> is not
  part of the source: it lists the external operations in the order they are invoked.
\<close>

record flow_state =
  isSuccess :: bool
  flow_error :: "string option"
  currentStep :: nat
  completedSteps :: "nat list"
  shareUrl :: string
  calls :: "string list"

definition UPLOAD_DATA :: nat where "UPLOAD_DATA = 1"
definition BLOCKCHAIN_REGISTRATION :: nat where "BLOCKCHAIN_REGISTRATION = 2"
definition REQUEST_TEE_PROOF :: nat where "REQUEST_TEE_PROOF = 3"
definition PROCESS_PROOF :: nat where "PROCESS_PROOF = 4"
definition CLAIM_REWARD :: nat where "CLAIM_REWARD = 5"

text \<open>
  What the outside world answers. A \<open>js_error\<close> is a rejected promise. \<open>uploadData\<close>
  resolves to the download URL or to null; \<open>addFile\<close> and \<open>requestReward\<close> catch their
  own errors and resolve to a receipt or to null, so they never reject;
  \<open>extractFileId\<close> is \<open>extractFileIdFromReceipt\<close> on the receipt of \<open>addFile\<close>.
\<close>

record flow_env =
  userInfo :: bool
  isConnected :: bool
  signMessage :: "js_error + string"
  uploadData :: "js_error + string option"
  dlpPublicKey :: "js_error + string"
  encryptedKey :: "js_error + string"
  addFile :: bool
  contractError :: "string option"
  extractFileId :: "js_error + nat"
  contributionProof :: "js_error + unit"
  refine :: "js_error + unit"
  requestReward :: bool

definition setError :: "string option \<Rightarrow> flow_state \<Rightarrow> flow_state" where
  "setError e st = st\<lparr>flow_error := e\<rparr>"

definition setCurrentStep :: "nat \<Rightarrow> flow_state \<Rightarrow> flow_state" where
  "setCurrentStep k st = st\<lparr>currentStep := k\<rparr>"

definition markStepComplete :: "nat \<Rightarrow> flow_state \<Rightarrow> flow_state" where
  "markStepComplete step st = st\<lparr>completedSteps := completedSteps st @ [step]\<rparr>"

definition call :: "string \<Rightarrow> flow_state \<Rightarrow> flow_state" where
  "call f st = st\<lparr>calls := calls st @ [f]\<rparr>"

text \<open>Step 0: the signature, or undefined after setting the error.\<close>

definition executeSignMessageStep :: "flow_env \<Rightarrow> flow_state \<Rightarrow> string option \<times> flow_state" where
  "executeSignMessageStep env st =
     (case signMessage env of
        Inr signature \<Rightarrow> (Some signature, call ''signMessageAsync'' st)
      | Inl signError \<Rightarrow>
          (None, setError (Some ''Failed to sign the message. Please try again.'')
                   (call ''signMessageAsync'' st)))"

text \<open>Step 1: the upload result, null after setting the error, or the error thrown.\<close>

definition executeUploadDataStep :: "flow_env \<Rightarrow> flow_state \<Rightarrow> (js_error + string option) \<times> flow_state" where
  "executeUploadDataStep env st =
     (let st = call ''uploadData'' (setCurrentStep UPLOAD_DATA st) in
      case uploadData env of
        Inl e \<Rightarrow> (Inl e, st)
      | Inr None \<Rightarrow> (Inr None, setError (Some ''Failed to upload data to Google Drive'') st)
      | Inr (Some downloadUrl) \<Rightarrow>
          (Inr (Some downloadUrl), markStepComplete UPLOAD_DATA (st\<lparr>shareUrl := downloadUrl\<rparr>)))"

text \<open>Step 2: the file id (null when \<open>addFile\<close> gave no receipt), or the error thrown.\<close>

definition executeBlockchainRegistrationStep ::
  "flow_env \<Rightarrow> flow_state \<Rightarrow> (js_error + nat option) \<times> flow_state" where
  "executeBlockchainRegistrationStep env st =
     (let st = call ''getDlpPublicKey'' (setCurrentStep BLOCKCHAIN_REGISTRATION st) in
      case dlpPublicKey env of
        Inl e \<Rightarrow> (Inl e, st)
      | Inr publicKey \<Rightarrow>
          (let st = call ''encryptWithWalletPublicKey'' st in
           case encryptedKey env of
             Inl e \<Rightarrow> (Inl e, st)
           | Inr key \<Rightarrow>
               (let st = call ''addFile'' st in
                if \<not> addFile env then
                  (Inr None,
                   setError (case contractError env of
                               Some ce \<Rightarrow> Some (''Contract error: '' @ ce)
                             | None \<Rightarrow> Some ''Failed to add file to blockchain'') st)
                else
                  (case extractFileId env of
                     Inl e \<Rightarrow> (Inl e, st)
                   | Inr fileId \<Rightarrow> (Inr (Some fileId), markStepComplete BLOCKCHAIN_REGISTRATION st)))))"

text \<open>Steps 3, 4 and 5; each returns the error it throws, if any.\<close>

definition executeTeeProofStep :: "flow_env \<Rightarrow> flow_state \<Rightarrow> js_error option \<times> flow_state" where
  "executeTeeProofStep env st =
     (let st = call ''requestContributionProof'' (setCurrentStep REQUEST_TEE_PROOF st) in
      case contributionProof env of
        Inl e \<Rightarrow> (Some e, st)
      | Inr proofResult \<Rightarrow> (None, markStepComplete REQUEST_TEE_PROOF st))"

definition executeProcessProofStep :: "flow_env \<Rightarrow> flow_state \<Rightarrow> js_error option \<times> flow_state" where
  "executeProcessProofStep env st =
     (let st = call ''refine'' (setCurrentStep PROCESS_PROOF st) in
      case refine env of
        Inl refineError \<Rightarrow> (Some refineError, st)
      | Inr refinementResult \<Rightarrow> (None, markStepComplete PROCESS_PROOF st))"

text \<open>
  Step 5 reads the transaction hash with \<open>rewardResult?.transactionHash\<close> and marks
  the step complete whatever \<open>requestReward\<close> resolved to.
\<close>

definition executeClaimRewardStep :: "flow_env \<Rightarrow> flow_state \<Rightarrow> js_error option \<times> flow_state" where
  "executeClaimRewardStep env st =
     (let st = call ''requestReward'' (setCurrentStep CLAIM_REWARD st)
      in (None, markStepComplete CLAIM_REWARD st))"

text \<open>The \<open>try\<close>/\<open>catch\<close> around steps 3 to 5: the error is stored, nothing is thrown.\<close>

definition executeProofAndRewardSteps :: "flow_env \<Rightarrow> flow_state \<Rightarrow> flow_state" where
  "executeProofAndRewardSteps env st =
     (case executeTeeProofStep env st of
        (Some proofErr, st) \<Rightarrow> setError (Some (err_message proofErr)) st
      | (None, st) \<Rightarrow>
          (case executeProcessProofStep env st of
             (Some proofErr, st) \<Rightarrow> setError (Some (err_message proofErr)) st
           | (None, st) \<Rightarrow>
               (case executeClaimRewardStep env st of
                  (Some proofErr, st) \<Rightarrow> setError (Some (err_message proofErr)) st
                | (None, st) \<Rightarrow> st)))"

definition handleContributeData :: "flow_env \<Rightarrow> flow_state \<Rightarrow> flow_state" where
  "handleContributeData env st =
     (if \<not> userInfo env
      then setError (Some ''Unable to access user information. Please try again.'') st
      else
        (let st = setError None st in
         case executeSignMessageStep env st of
           (None, st) \<Rightarrow> st
         | (Some signature, st) \<Rightarrow>
             if signature = [] then st
             else
               (case executeUploadDataStep env st of
                  (Inl error, st) \<Rightarrow> setError (Some (err_message error)) st
                | (Inr None, st) \<Rightarrow> st
                | (Inr (Some uploadResult), st) \<Rightarrow>
                    if \<not> isConnected env
                    then setError (Some ''Wallet connection required to register on blockchain'') st
                    else
                      (case executeBlockchainRegistrationStep env st of
                         (Inl error, st) \<Rightarrow> setError (Some (err_message error)) st
                       | (Inr None, st) \<Rightarrow> st
                       | (Inr (Some fileId), st) \<Rightarrow>
                           if fileId = 0 then st
                           else (executeProofAndRewardSteps env st)\<lparr>isSuccess := True\<rparr>))))"

text \<open>The state of a fresh hook, and after \<open>resetFlow\<close>.\<close>

definition initial_flow :: flow_state where
  "initial_flow =
     \<lparr>isSuccess = False, flow_error = None, currentStep = 0, completedSteps = [],
      shareUrl = [], calls = []\<rparr>"

text \<open>
  A run in which every operation succeeds except the last: \<open>requestReward\<close> resolves
  to null (the user rejects the reward transaction in the wallet, say).
\<close>

definition reward_fails :: flow_env where
  "reward_fails =
     \<lparr>userInfo = True, isConnected = True,
      signMessage = Inr ''0xsignature'',
      uploadData = Inr (Some ''https://drive.google.com/uc?id=1''),
      dlpPublicKey = Inr ''0x04aa'',
      encryptedKey = Inr ''0102'',
      addFile = True, contractError = None,
      extractFileId = Inr 7,
      contributionProof = Inr (),
      refine = Inr (),
      requestReward = False\<rparr>"

section \<open>The encryption helper of the web application (ui/lib/crypto/utils.ts)\<close>

text \<open>Byte arrays are lists of numbers below 256.\<close>

type_synonym bytes = "nat list"

text \<open>The two module-level variables, null until the first call.\<close>

record crypto_module =
  generatedIV :: "bytes option"
  generatedEphemeralKey :: "bytes option"

definition fresh_module :: crypto_module where
  "fresh_module = \<lparr>generatedIV = None, generatedEphemeralKey = None\<rparr>"

text \<open>The literals of the source: 0x01 to 0x10, and 0x11, 0x22, ... as written there.\<close>

definition fixed_iv :: bytes where
  "fixed_iv = [1, 2, 3, 4, 5, 6, 7, 8, 9, 10, 11, 12, 13, 14, 15, 16]"

definition fixed_ephemeral_key :: bytes where
  "fixed_ephemeral_key =
     [17, 34, 51, 68, 85, 102, 119, 136, 153, 170, 187, 204, 221, 238, 255, 0,
      16, 32, 48, 64, 80, 96, 112, 128, 144, 160, 176, 192, 208, 224, 240, 0]"

text \<open>\<open>Buffer.from(bytes).toString("hex")\<close>.\<close>

definition hex_digit :: "nat \<Rightarrow> char" where
  "hex_digit n = ''0123456789abcdef'' ! (n mod 16)"

definition to_hex :: "bytes \<Rightarrow> string" where
  "to_hex bs = concat (map (\<lambda>b. [hex_digit (b div 16), hex_digit b]) bs)"

text \<open>
  \<open>Buffer.from(text, "hex")\<close>: pairs of hexadecimal digits, up to the first pair that
  is not one.
\<close>

definition hex_val :: "char \<Rightarrow> nat option" where
  "hex_val c =
     (let n = (of_char c :: nat) in
      if 48 \<le> n \<and> n \<le> 57 then Some (n - 48)
      else if 97 \<le> n \<and> n \<le> 102 then Some (n - 87)
      else if 65 \<le> n \<and> n \<le> 70 then Some (n - 55)
      else None)"

fun from_hex :: "string \<Rightarrow> bytes" where
  "from_hex (a # b # rest) =
     (case (hex_val a, hex_val b) of
        (Some x, Some y) \<Rightarrow> (16 * x + y) # from_hex rest
      | _ \<Rightarrow> [])"
| "from_hex s = []"

text \<open>\<open>Buffer.from(data)\<close>: the bytes of the text (the model's characters are bytes).\<close>

definition utf8 :: "string \<Rightarrow> bytes" where
  "utf8 s = map of_char s"

record enc_params =
  iv :: bytes
  ephemeralKey :: bytes
  ivHex :: string
  ephemeralKeyHex :: string

text \<open>\<open>getEncryptionParameters\<close>: the parameters returned and the module afterwards.\<close>

definition getEncryptionParameters :: "crypto_module \<Rightarrow> enc_params \<times> crypto_module" where
  "getEncryptionParameters md =
     (let md = (if generatedIV md = None \<or> generatedEphemeralKey md = None
                then \<lparr>generatedIV = Some fixed_iv, generatedEphemeralKey = Some fixed_ephemeral_key\<rparr>
                else md)
      in case (generatedIV md, generatedEphemeralKey md) of
           (Some i, Some k) \<Rightarrow>
             (\<lparr>iv = i, ephemeralKey = k, ivHex = to_hex i, ephemeralKeyHex = to_hex k\<rparr>, md)
         | _ \<Rightarrow>
             (\<lparr>iv = fixed_iv, ephemeralKey = fixed_ephemeral_key, ivHex = to_hex fixed_iv,
               ephemeralKeyHex = to_hex fixed_ephemeral_key\<rparr>, md))"

text \<open>
  The module's variables are not exported; they change only in
  \<open>getEncryptionParameters\<close>. \<open>module_after n\<close> is the module after \<open>n\<close> calls.
\<close>

primrec module_after :: "nat \<Rightarrow> crypto_module" where
  "module_after 0 = fresh_module"
| "module_after (Suc n) = snd (getEncryptionParameters (module_after n))"

text \<open>What \<open>eccrypto.encrypt\<close> resolves to.\<close>

record ecies =
  e_iv :: bytes
  ephemPublicKey :: bytes
  ciphertext :: bytes
  mac :: bytes

text \<open>
  \<open>encryptWithWalletPublicKey\<close>. The library function \<open>eccrypto.encrypt\<close> is a
  parameter: \<open>encrypt rnd key msg iv ephemPrivateKey\<close>, where \<open>rnd\<close> is the state of the
  system's source of randomness at the call and the two options are the fields of
  \<open>opts\<close>. The result is the hexadecimal text, or the rejection of the library.
\<close>

definition encryptWithWalletPublicKey ::
  "('r \<Rightarrow> bytes \<Rightarrow> bytes \<Rightarrow> bytes option \<Rightarrow> bytes option \<Rightarrow> js_error + ecies)
     \<Rightarrow> 'r \<Rightarrow> crypto_module \<Rightarrow> string \<Rightarrow> string \<Rightarrow> (js_error + string) \<times> crypto_module" where
  "encryptWithWalletPublicKey encrypt rnd md data publicKey =
     (let (params, md) = getEncryptionParameters md;
          publicKeyBytes = from_hex (if startsWith publicKey ''0x'' then drop 2 publicKey else publicKey);
          uncompressedKey = (if length publicKeyBytes = 64 then 4 # publicKeyBytes else publicKeyBytes)
      in case encrypt rnd uncompressedKey (utf8 data) (Some (iv params)) (Some (ephemeralKey params)) of
           Inl e \<Rightarrow> (Inl e, md)
         | Inr encryptedBuffer \<Rightarrow>
             (Inr (to_hex (e_iv encryptedBuffer @ ephemPublicKey encryptedBuffer
                           @ ciphertext encryptedBuffer @ mac encryptedBuffer)), md))"

text \<open>
  A stand-in for the library in the evaluated example: it draws on the source of
  randomness only for a parameter that \<open>opts\<close> does not supply.
\<close>

definition toy_encrypt :: "bytes \<Rightarrow> bytes \<Rightarrow> bytes \<Rightarrow> bytes option \<Rightarrow> bytes option \<Rightarrow> js_error + ecies" where
  "toy_encrypt rnd key msg i k =
     Inr \<lparr>e_iv = (case i of Some i \<Rightarrow> i | None \<Rightarrow> take 16 rnd),
          ephemPublicKey = (case k of Some k \<Rightarrow> k | None \<Rightarrow> drop 16 rnd),
          ciphertext = msg, mac = take 2 key\<rparr>"

section \<open>DataDAO registration (\<open>register:datadao\<close>)\<close>

text \<open>
  What a run of the script depends on: \<open>deployment.json\<close> (\<open>None\<close>: no such file),
  the environment variable \<open>QUICK_MODE\<close>, the answers of the registry to the successive
  \<open>dlpIds\<close> reads and to the \<open>dlpNameToId\<close> read (an error when the call fails),
  \<open>contracts/.env\<close> (\<open>None\<close>: no file; \<open>Some None\<close>: no \<open>DEPLOYER_PRIVATE_KEY\<close> line; else
  the key), the account address derived from the key, the wallet balance in wei, the
  outcome of \<open>writeContract\<close> (the transaction hash), the outcome of waiting for the
  receipt (whether its status is 'success'), and whether writing \<open>deployment.json\<close>
  succeeds.
\<close>

record reg_env =
  deployment_file :: "json_file option"
  QUICK_MODE :: bool
  dlpIds :: "nat \<Rightarrow> js_error + nat"
  dlpNameToId :: "js_error + nat"
  contracts_env :: "string option option"
  account :: "js_error + string"
  wallet_balance :: "js_error + nat"
  writeContract :: "js_error + string"
  receipt :: "js_error + bool"
  write_ok :: bool

text \<open>
  The user's answers to the prompts, in order: to a confirmation, to a list, to the
  input of a number. A run that reaches a prompt with no fitting answer left waits
  there (\<open>Wait\<close>).
\<close>

datatype answer = Yes | No | Pick string | Typed nat

datatype 'a res = Ok 'a | Throw js_error | Wait

record reg_run =
  events :: "event list"
  reads_done :: nat
  disk :: "json_file option"

definition Error :: "string \<Rightarrow> js_error" where
  "Error msg = \<lparr>err_message = msg, err_stack = None\<rparr>"

fun ask_confirm :: "answer list \<Rightarrow> (bool \<times> answer list) option" where
  "ask_confirm (Yes # as) = Some (True, as)"
| "ask_confirm (No # as) = Some (False, as)"
| "ask_confirm as = None"

fun ask_list :: "string list \<Rightarrow> answer list \<Rightarrow> (string \<times> answer list) option" where
  "ask_list choices (Pick v # as) = (if v \<in> set choices then Some (v, as) else None)"
| "ask_list choices as = None"

text \<open>The input of the dlpId is validated: the prompt stays until a positive number is typed.\<close>

fun ask_number :: "answer list \<Rightarrow> (nat \<times> answer list) option" where
  "ask_number (Typed n # as) = (if n > 0 then Some (n, as) else ask_number as)"
| "ask_number as = None"

definition emit :: "event list \<Rightarrow> reg_run \<Rightarrow> reg_run" where
  "emit es run = run\<lparr>events := events run @ es\<rparr>"

text \<open>
  \<open>deployment.proxyAddress || (deployment.contracts && deployment.contracts.proxyAddress)
  || deployment.dlpAddress\<close>: the first truthy value, \<open>None\<close> when the result is falsy.
\<close>

definition proxy_of :: "json_file \<Rightarrow> jval option" where
  "proxy_of d =
     (let fs = map_of (f_fields d) in
      if truthy (fs ''proxyAddress'') then fs ''proxyAddress''
      else if truthy (fs ''contracts'') \<and> truthy (getp (fs ''contracts'') ''proxyAddress'')
        then getp (fs ''contracts'') ''proxyAddress''
      else if truthy (fs ''dlpAddress'') then fs ''dlpAddress''
      else None)"

definition jv :: "jval option \<Rightarrow> jval" where
  "jv v = (case v of Some x \<Rightarrow> x | None \<Rightarrow> JNull)"

text \<open>A field inside a printed text; the fields printed here are strings or absent.\<close>

definition js_text :: "jval option \<Rightarrow> string" where
  "js_text v = (case v of Some (JStr s) \<Rightarrow> s | Some x \<Rightarrow> [] | None \<Rightarrow> ''undefined'')"

text \<open>A number inside a template string: its decimal digits.\<close>

fun decimal :: "nat \<Rightarrow> string" where
  "decimal n = (if n < 10 then [''0123456789'' ! n]
                else decimal (n div 10) @ [''0123456789'' ! (n mod 10)])"

declare decimal.simps [simp del]

text \<open>One \<open>getDlpId(dlpProxyAddress)\<close>: the next answer of the registry.\<close>

definition read_dlpId :: "reg_env \<Rightarrow> jval \<Rightarrow> reg_run \<Rightarrow> nat \<times> reg_run" where
  "read_dlpId env dlpProxyAddress run =
     (getDlpId (dlpIds env (reads_done run)),
      run\<lparr>events := events run @ [RpcRead ''dlpIds'' [dlpProxyAddress]],
          reads_done := Suc (reads_done run)\<rparr>)"

text \<open>
  \<open>deployment.dlpId = dlpId\<close>, \<open>deployment.state.dataDAORegistered = true\<close>, and the
  write inside its own \<open>try\<close>/\<open>catch\<close>: a failed write is reported and changes nothing.
\<close>

definition with_dlpId :: "nat \<Rightarrow> json_file \<Rightarrow> json_file" where
  "with_dlpId dlpId d =
     d\<lparr>f_fields := AList.update ''dlpId'' (JNum (int dlpId)) (f_fields d),
       f_state := Some (AList.update ''dataDAORegistered'' True
                          (case f_state d of Some st \<Rightarrow> st | None \<Rightarrow> []))\<rparr>"

definition save_dlpId :: "reg_env \<Rightarrow> nat \<Rightarrow> json_file \<Rightarrow> reg_run \<Rightarrow> reg_run" where
  "save_dlpId env dlpId deployment run =
     (if write_ok env
      then (emit [WriteFile (with_dlpId dlpId deployment)] run)\<lparr>disk := Some (with_dlpId dlpId deployment)\<rparr>
      else run)"

definition registrationParams :: "json_file \<Rightarrow> jval \<Rightarrow> jval" where
  "registrationParams deployment dlpProxyAddress =
     JObj [(''dlpAddress'', dlpProxyAddress),
           (''ownerAddress'', jv (map_of (f_fields deployment) ''address'')),
           (''treasuryAddress'', jv (map_of (f_fields deployment) ''address'')),
           (''name'', jv (map_of (f_fields deployment) ''dlpName'')),
           (''iconUrl'', JStr []), (''website'', JStr []), (''metadata'', JStr [])]"

text \<open>\<open>parseEther('1')\<close>: 1 VANA in wei.\<close>

definition one_VANA :: nat where
  "one_VANA = 1000000000000000000"

text \<open>The \<open>try\<close> block of \<open>performAutomatedRegistration\<close>.\<close>

definition registration_attempt ::
  "reg_env \<Rightarrow> json_file \<Rightarrow> bool \<Rightarrow> answer list \<Rightarrow> reg_run \<Rightarrow> bool res \<times> answer list \<times> reg_run" where
  "registration_attempt env deployment quickMode answers run =
     (case account env of
        Inl e \<Rightarrow> (Throw e, answers, run)
      | Inr address \<Rightarrow>
          (let run = emit [RpcRead ''getBalance'' [JStr address]] run;
               hasBalance = (case wallet_balance env of
                               Inl e \<Rightarrow> True
                             | Inr wei \<Rightarrow> \<not> wei < 1100000000000000000)
           in if \<not> hasBalance
              then (Throw (Error ''Insufficient wallet balance for registration''), answers, run)
              else
                (case proxy_of deployment of
                   None \<Rightarrow> (Throw (Error ''DLP proxy address not found in deployment.json''), answers, run)
                 | Some dlpProxyAddress \<Rightarrow>
                     (case (if quickMode then Some (True, answers) else ask_confirm answers) of
                        None \<Rightarrow> (Wait, answers, run)
                      | Some (confirm, answers) \<Rightarrow>
                          if \<not> confirm
                          then (Throw (Error ''Registration cancelled by user''), answers, run)
                          else
                            (let run = emit [SendTx ''registerDlp''
                                               [registrationParams deployment dlpProxyAddress] one_VANA] run
                             in case writeContract env of
                                  Inl e \<Rightarrow> (Throw e, answers, run)
                                | Inr hash \<Rightarrow>
                                    (let run = emit [WaitReceipt hash] run
                                     in case receipt env of
                                          Inl e \<Rightarrow> (Throw e, answers, run)
                                        | Inr success \<Rightarrow>
                                            if success then
                                              (let (dlpId, run) = read_dlpId env dlpProxyAddress run
                                               in if dlpId > 0
                                                  then (Ok True, answers, save_dlpId env dlpId deployment run)
                                                  else (Throw (Error ''Registration transaction succeeded but could not retrieve dlpId''),
                                                        answers, run))
                                            else (Throw (Error (''Registration transaction failed. Hash: '' @ hash)),
                                                  answers, run)))))))"

text \<open>
  \<open>performAutomatedRegistration\<close>: the two checks before the \<open>try\<close>, the \<open>try\<close> block,
  and the \<open>catch\<close> block, out of which comes what \<open>handleRegistrationError\<close> throws.
\<close>

definition performAutomatedRegistration ::
  "reg_env \<Rightarrow> json_file \<Rightarrow> bool \<Rightarrow> answer list \<Rightarrow> reg_run \<Rightarrow> bool res \<times> answer list \<times> reg_run" where
  "performAutomatedRegistration env deployment quickMode answers run =
     (case contracts_env env of
        None \<Rightarrow> (Throw (Error ''No contracts/.env file found. Cannot access private key.''), answers, run)
      | Some None \<Rightarrow> (Throw (Error ''No DEPLOYER_PRIVATE_KEY found in contracts/.env''), answers, run)
      | Some (Some privateKey) \<Rightarrow>
          (case registration_attempt env deployment quickMode answers run of
             (Throw error, answers, run) \<Rightarrow>
               (case snd (handleRegistrationError (js_text (map_of (f_fields deployment) ''address'')) error) of
                  Rethrown e \<Rightarrow> (Throw e, answers, run)
                | ReferenceError name \<Rightarrow> (Throw (Error (name @ '' is not defined'')), answers, run))
           | (r, answers, run) \<Rightarrow> (r, answers, run)))"

text \<open>
  The first menu of \<open>performManualRegistration\<close> (\<open>while (true)\<close>): it ends with
  'completed', 'auto' or 'skip'; 'instructions' and 'help' print and ask again.
\<close>

fun manual_menu :: "answer list \<Rightarrow> (string \<times> answer list) option" where
  "manual_menu [] = None"
| "manual_menu (a # as) =
     (case ask_list [''completed'', ''instructions'', ''help'', ''auto'', ''skip''] [a] of
        None \<Rightarrow> None
      | Some (manualAction, x) \<Rightarrow>
          if manualAction = ''instructions'' \<or> manualAction = ''help'' then manual_menu as
          else Some (manualAction, as))"

text \<open>Running a detection loop inside a run: its reads are counted and its trace appended.\<close>

definition detect :: "reg_env \<Rightarrow> jval \<Rightarrow> int \<Rightarrow> reg_run \<Rightarrow> nat \<times> reg_run" where
  "detect env dlpProxyAddress bound run =
     (let (dlpId, tr) = detect_loop dlpProxyAddress (dlpIds env) (reads_done run) bound 0 0
      in (dlpId, run\<lparr>events := events run @ tr,
                   reads_done := reads_done run
                     + length (filter (\<lambda>e. e = RpcRead ''dlpIds'' [dlpProxyAddress]) tr)\<rparr>))"

text \<open>
  The second menu (\<open>while (true)\<close>, entered when no dlpId was detected): the dlpId
  found or typed, or \<open>None\<close> for the switch to the automated registration.
\<close>

fun retry_menu :: "reg_env \<Rightarrow> jval \<Rightarrow> answer list \<Rightarrow> reg_run \<Rightarrow> nat option res \<times> answer list \<times> reg_run" where
  "retry_menu env addr [] run = (Wait, [], run)"
| "retry_menu env addr (a # as) run =
     (case ask_list [''retry'', ''check'', ''manual'', ''auto'', ''skip''] [a] of
        None \<Rightarrow> (Wait, a # as, run)
      | Some (retryAction, x) \<Rightarrow>
          if retryAction = ''retry'' then
            (let (dlpId, run) = detect env addr 5 run
             in if dlpId > 0 then (Ok (Some dlpId), as, run) else retry_menu env addr as run)
          else if retryAction = ''check'' then retry_menu env addr as run
          else if retryAction = ''manual'' then
            (case ask_number as of
               None \<Rightarrow> (Wait, as, run)
             | Some (manualDlpId, as) \<Rightarrow> (Ok (Some manualDlpId), as, run))
          else if retryAction = ''auto'' then (Ok None, as, run)
          else (Throw (Error ''Registration incomplete - skipped by user''), as, run))"

text \<open>
  \<open>performManualRegistration\<close>. It does not write \<open>deployment.json\<close>: the user is told
  to add the dlpId by hand.
\<close>

definition performManualRegistration ::
  "reg_env \<Rightarrow> json_file \<Rightarrow> answer list \<Rightarrow> reg_run \<Rightarrow> bool res \<times> answer list \<times> reg_run" where
  "performManualRegistration env deployment answers run =
     (let dlpProxyAddress = jv (proxy_of deployment) in
      case ask_confirm answers of
        None \<Rightarrow> (Wait, answers, run)
      | Some (completed, answers) \<Rightarrow>
          (case (if completed then Some (''completed'', answers) else manual_menu answers) of
             None \<Rightarrow> (Wait, answers, run)
           | Some (manualAction, answers) \<Rightarrow>
               if manualAction = ''auto''
                 then performAutomatedRegistration env deployment False answers run
               else if manualAction = ''skip''
                 then (Throw (Error ''Registration skipped by user''), answers, run)
               else
                 (let (dlpId, run) = detect env dlpProxyAddress 10 run
                  in if dlpId = 0 then
                       (case retry_menu env dlpProxyAddress answers run of
                          (Ok None, answers, run) \<Rightarrow>
                            performAutomatedRegistration env deployment False answers run
                        | (Ok (Some dlpId), answers, run) \<Rightarrow> (Ok True, answers, run)
                        | (Throw e, answers, run) \<Rightarrow> (Throw e, answers, run)
                        | (Wait, answers, run) \<Rightarrow> (Wait, answers, run))
                     else (Ok True, answers, run))))"

text \<open>
  The menu after 'skip' in \<open>registerDataDAO\<close> (\<open>while (true)\<close>): the method chosen
  after all, or the error thrown when the user continues without registering.
\<close>

fun skip_menu :: "answer list \<Rightarrow> string res \<times> answer list" where
  "skip_menu [] = (Wait, [])"
| "skip_menu (a # as) =
     (case ask_list [''register'', ''explain'', ''continue''] [a] of
        None \<Rightarrow> (Wait, a # as)
      | Some (skipAction, x) \<Rightarrow>
          if skipAction = ''register'' then
            (case ask_list [''auto'', ''manual''] as of
               None \<Rightarrow> (Wait, as)
             | Some (newMethod, as) \<Rightarrow> (Ok newMethod, as))
          else if skipAction = ''explain'' then skip_menu as
          else (Throw (Error ''Registration skipped by user''), as))"

definition choose_method :: "bool \<Rightarrow> answer list \<Rightarrow> string res \<times> answer list" where
  "choose_method quickMode answers =
     (if quickMode then (Ok ''auto'', answers)
      else
        (case ask_list [''auto'', ''manual'', ''skip''] answers of
           None \<Rightarrow> (Wait, answers)
         | Some (method, answers) \<Rightarrow>
             if method = ''skip'' then skip_menu answers else (Ok method, answers)))"

definition start_run :: "reg_env \<Rightarrow> reg_run" where
  "start_run env = \<lparr>events = [], reads_done = 0, disk = deployment_file env\<rparr>"

text \<open>
  \<open>registerDataDAO\<close>: how the run ends (\<open>Ok\<close>: the promise resolves; \<open>Throw\<close>: the
  script prints the message and exits with status 1), the answers left, and the run.
\<close>

definition registerDataDAO :: "reg_env \<Rightarrow> answer list \<Rightarrow> unit res \<times> answer list \<times> reg_run" where
  "registerDataDAO env answers =
     (let run = start_run env in
      case deployment_file env of
        None \<Rightarrow> (Throw (Error ''No deployment.json found. Please deploy contracts first.''), answers, run)
      | Some deployment \<Rightarrow>
          (let quickMode = (QUICK_MODE env \<or> map_of (f_fields deployment) ''quickMode'' = Some (JBool True))
           in case proxy_of deployment of
                None \<Rightarrow> (Throw (Error ''No DLP proxy address found. Please deploy contracts first.''),
                          answers, run)
              | Some dlpProxyAddress \<Rightarrow>
                  (let (existingDlpId, run) = read_dlpId env dlpProxyAddress run
                   in if existingDlpId > 0
                      then (Ok (), answers, save_dlpId env existingDlpId deployment run)
                      else
                        (let run = emit [RpcRead ''dlpNameToId'' [jv (map_of (f_fields deployment) ''dlpName'')]] run;
                             available = (case dlpNameToId env of Inl e \<Rightarrow> True | Inr dlpId \<Rightarrow> \<not> dlpId > 0);
                             existingId = (case dlpNameToId env of Inl e \<Rightarrow> ''null''
                                           | Inr dlpId \<Rightarrow> if dlpId > 0 then decimal dlpId else ''null'')
                         in if \<not> available
                            then (Throw (Error (''DLP name '' @ [CHR 0x22]
                                                 @ js_text (map_of (f_fields deployment) ''dlpName'')
                                                 @ [CHR 0x22] @ '' is already taken (dlpId: '' @ existingId @ '')'')),
                                  answers, run)
                            else
                              (case choose_method quickMode answers of
                                 (Wait, answers) \<Rightarrow> (Wait, answers, run)
                               | (Throw e, answers) \<Rightarrow> (Throw e, answers, run)
                               | (Ok registrationMethod, answers) \<Rightarrow>
                                   (case (if registrationMethod = ''auto''
                                          then performAutomatedRegistration env deployment quickMode answers run
                                          else performManualRegistration env deployment answers run) of
                                      (Ok registrationSuccessful, answers, run) \<Rightarrow>
                                        if registrationSuccessful then (Ok (), answers, run)
                                        else (Throw (Error ((if registrationMethod = ''auto'' then ''Automated'' else ''Manual'')
                                                             @ '' registration failed'')), answers, run)
                                    | (Throw e, answers, run) \<Rightarrow> (Throw e, answers, run)
                                    | (Wait, answers, run) \<Rightarrow> (Wait, answers, run)))))))"

definition is_tx :: "event \<Rightarrow> bool" where
  "is_tx e = (case e of SendTx f args v \<Rightarrow> True | x \<Rightarrow> False)"

definition is_write :: "event \<Rightarrow> bool" where
  "is_write e = (case e of WriteFile j \<Rightarrow> True | x \<Rightarrow> False)"

text \<open>Evaluated examples: a deployment with a proxy address, not registered yet.\<close>

definition unregistered :: json_file where
  "unregistered =
     \<lparr>f_fields = [(''dlpName'', JStr ''QuickstartDAO''), (''address'', JStr ''0xaaaa''),
                  (''proxyAddress'', JStr ''0xbbbb'')],
      f_state = Some [(''contractsDeployed'', True)], f_errors = None\<rparr>"

text \<open>The name is already taken (by dlpId 5): the script stops before any transaction.\<close>

definition name_taken_env :: reg_env where
  "name_taken_env =
     \<lparr>deployment_file = Some unregistered, QUICK_MODE = True,
      dlpIds = (\<lambda>k. Inr 0), dlpNameToId = Inr 5,
      contracts_env = Some (Some ''0x01''), account = Inr ''0xaaaa'',
      wallet_balance = Inr 2000000000000000000,
      writeContract = Inr ''0xhash'', receipt = Inr True, write_ok = True\<rparr>"

text \<open>Everything goes well: the second \<open>dlpIds\<close> read, after the receipt, returns 7.\<close>

definition happy_env :: reg_env where
  "happy_env =
     \<lparr>deployment_file = Some unregistered, QUICK_MODE = False,
      dlpIds = (\<lambda>k. if k = 0 then Inr 0 else Inr 7), dlpNameToId = Inr 0,
      contracts_env = Some (Some ''0x01''), account = Inr ''0xaaaa'',
      wallet_balance = Inr 2000000000000000000,
      writeContract = Inr ''0xhash'', receipt = Inr True, write_ok = True\<rparr>"

text \<open>The registry already knows the proxy address, as dlpId 9.\<close>

definition registered_env :: reg_env where
  "registered_env =
     \<lparr>deployment_file = Some unregistered, QUICK_MODE = False,
      dlpIds = (\<lambda>k. Inr 9), dlpNameToId = Inr 9,
      contracts_env = None, account = Inr ''0xaaaa'',
      wallet_balance = Inr 0,
      writeContract = Inr ''0xhash'', receipt = Inr True, write_ok = True\<rparr>"

text \<open>
  Two relations between a run and a later state of it, used to say what the script
  may do once the registry has answered that the proxy address is not registered.
  \<open>quiet\<close>: only reads and sleeps were added, and \<open>deployment.json\<close> is as before.
  \<open>registers_properly\<close>: at most one transaction was sent, \<open>registerDlp\<close> with 1 VANA
  attached; and either nothing was written, or the run ends with that transaction,
  the wait for its receipt, the read of the dlpId and the write of the deployment
  with that dlpId, in this order.
\<close>

definition quiet :: "reg_run \<Rightarrow> reg_run \<Rightarrow> bool" where
  "quiet run run' =
     (\<exists>ex. events run' = events run @ ex \<and> filter is_tx ex = [] \<and> filter is_write ex = []
           \<and> disk run' = disk run)"

definition registers_properly :: "json_file \<Rightarrow> jval \<Rightarrow> reg_run \<Rightarrow> reg_run \<Rightarrow> bool" where
  "registers_properly d a run run' =
     (\<exists>ex. events run' = events run @ ex
        \<and> (filter is_tx ex = []
            \<or> filter is_tx ex = [SendTx ''registerDlp'' [registrationParams d a] one_VANA])
        \<and> ((filter is_write ex = [] \<and> disk run' = disk run)
            \<or> (\<exists>pre hash n. 0 < n
                  \<and> ex = pre @ [SendTx ''registerDlp'' [registrationParams d a] one_VANA,
                                WaitReceipt hash, RpcRead ''dlpIds'' [a], WriteFile (with_dlpId n d)]
                  \<and> filter is_write pre = []
                  \<and> disk run' = Some (with_dlpId n d))))"

section \<open>The status command (\<open>showStatus\<close>)\<close>

text \<open>
  A value inside a template string, \<open>`${x}`\<close>.
\<close>

definition template :: "jval option \<Rightarrow> string" where
  "template v =
     (case v of
        None \<Rightarrow> ''undefined''
      | Some JNull \<Rightarrow> ''null''
      | Some (JBool b) \<Rightarrow> (if b then ''true'' else ''false'')
      | Some (JNum n) \<Rightarrow> (if n < 0 then ''-'' @ decimal (nat (- n)) else decimal (nat n))
      | Some (JStr s) \<Rightarrow> s
      | Some (JObj kvs) \<Rightarrow> ''[object Object]'')"

text \<open>
  The five functions that describe a step. \<open>slice\<close> and \<open>includes\<close> are methods of
  strings: called on a truthy value of another kind they raise a \<open>TypeError\<close>, which
  \<open>showStatus\<close> catches.
\<close>

definition slice10 :: "string \<Rightarrow> jval option \<Rightarrow> js_error + string" where
  "slice10 name v =
     (case v of
        Some (JStr s) \<Rightarrow> Inr (take 10 s)
      | x \<Rightarrow> Inl (Error (name @ ''.slice is not a function'')))"

definition getContractDetails :: "deployment \<Rightarrow> js_error + string option" where
  "getContractDetails d =
     (if truthy (fld d ''tokenAddress'') \<and> truthy (fld d ''proxyAddress'')
      then (case slice10 ''deployment.tokenAddress'' (fld d ''tokenAddress'') of
              Inl e \<Rightarrow> Inl e
            | Inr t \<Rightarrow>
                (case slice10 ''deployment.proxyAddress'' (fld d ''proxyAddress'') of
                   Inl e \<Rightarrow> Inl e
                 | Inr p \<Rightarrow> Inr (Some (''Token: '' @ t @ ''... | Proxy: '' @ p @ ''...''))))
      else Inr None)"

definition getRegistrationDetails :: "deployment \<Rightarrow> string option" where
  "getRegistrationDetails d =
     (if truthy (fld d ''dlpId'') then Some (''DLP ID: '' @ template (fld d ''dlpId'')) else None)"

definition getProofDetails :: "deployment \<Rightarrow> js_error + string option" where
  "getProofDetails d =
     (if truthy (fld d ''proofUrl'')
      then (case fld d ''proofUrl'' of
              Some (JStr s) \<Rightarrow>
                Inr (Some (''Published: '' @ (if str_includes s ''github.com'' then ''GitHub'' else ''Custom'')))
            | x \<Rightarrow> Inl (Error ''deployment.proofUrl.includes is not a function''))
      else Inr None)"

definition getRefinerDetails :: "deployment \<Rightarrow> string option" where
  "getRefinerDetails d =
     (if truthy (fld d ''refinerId'') then Some (''Refiner ID: '' @ template (fld d ''refinerId'')) else None)"

definition getUIDetails :: "deployment \<Rightarrow> string option" where
  "getUIDetails d = (if flag d ''uiConfigured'' then Some ''Ready for development'' else None)"

text \<open>
  The array \<open>steps\<close>: key, displayed name and details of the five steps. Building it
  calls the five functions in order, so it may raise.
\<close>

definition status_steps :: "deployment \<Rightarrow> js_error + (string \<times> string \<times> string option) list" where
  "status_steps d =
     (case getContractDetails d of
        Inl e \<Rightarrow> Inl e
      | Inr contractDetails \<Rightarrow>
          (case getProofDetails d of
             Inl e \<Rightarrow> Inl e
           | Inr proofDetails \<Rightarrow>
               Inr [(''contractsDeployed'', ''Smart Contracts'', contractDetails),
                    (''dataDAORegistered'', ''DataDAO Registration'', getRegistrationDetails d),
                    (''proofConfigured'', ''Proof of Contribution'', proofDetails),
                    (''refinerConfigured'', ''Data Refiner'', getRefinerDetails d),
                    (''uiConfigured'', ''User Interface'', getUIDetails d)]))"

text \<open>The body of \<open>steps.forEach\<close>: one line for the step, and its details below.\<close>

definition progress_lines :: "manager \<Rightarrow> string \<times> string \<times> string option \<Rightarrow> string list" where
  "progress_lines m step =
     (let key = fst step; name = fst (snd step); details = snd (snd step);
          isCompleted = truthy (isCompleted m key);
          hasError = (map_of (errors (this_state m)) key \<noteq> None);
          status = (if hasError then cross_mark else if isCompleted then check_mark else pause_mark);
          statusText = (if hasError then ''Failed'' else if isCompleted then ''Completed'' else ''Pending'')
      in [''  '' @ status @ '' '' @ name @ '' - '' @ statusText]
           @ (case details of
                Some shown \<Rightarrow> if shown \<noteq> [] \<and> (isCompleted \<or> hasError) then [''     '' @ shown] else []
              | None \<Rightarrow> []))"

definition getNextSteps :: "deployment \<Rightarrow> string list" where
  "getNextSteps d =
     (if \<not> flag d ''contractsDeployed'' then [''Deploy smart contracts: npm run deploy:contracts'']
      else if \<not> flag d ''dataDAORegistered'' then [''Register DataDAO: npm run register:datadao'']
      else if \<not> flag d ''proofConfigured'' then [''Configure proof system: npm run deploy:proof'']
      else if \<not> flag d ''refinerConfigured'' then [''Configure data refiner: npm run deploy:refiner'']
      else if \<not> flag d ''uiConfigured'' then [''Configure UI: npm run deploy:ui'']
      else [])"

definition output_nextSteps :: "string list \<Rightarrow> string list" where
  "output_nextSteps steps =
     [[], rocket_mark @ '' Next Steps:'']
       @ map (\<lambda>(index, step). ''  '' @ decimal (index + 1) @ ''. '' @ step) (enumerate 0 steps)
       @ [[]]"

text \<open>
  How a run of the status command ends: it returns, it exits with a status, it waits
  at a prompt for which no answer is left, or it goes on in another procedure of the
  scripts that is not followed here (\<open>fixConfiguration\<close>, \<open>showRecoveryMenu\<close>,
  \<open>updateCredentials\<close>, \<open>resumeGuidedSetup\<close>).
\<close>

datatype status_end = Returned | Exit nat | Waiting | Continues string

text \<open>The lines about the flags that \<open>syncStateFromData\<close> has just set.\<close>

definition sync_lines :: "(string \<times> bool) list option \<Rightarrow> string list" where
  "sync_lines syncedUpdates =
     (case syncedUpdates of
        Some updates \<Rightarrow>
          [cycle_mark @ '' Syncing deployment state...'']
            @ map (\<lambda>key. ''   '' @ check_mark @ '' Detected completed: '' @ key) (map fst updates)
            @ [[]]
      | None \<Rightarrow> [])"

text \<open>The title and, when the project has a name, the project information.\<close>

definition project_lines :: "deployment \<Rightarrow> string list" where
  "project_lines deployment =
     output_step ''DataDAO Project Status''
       (''Project: '' @ template (js_or (fld deployment ''dlpName'') (Some (JStr ''Unknown''))))
     @ (if truthy (fld deployment ''dlpName'')
        then output_summary ''Project Information''
               [(''DataDAO Name'', template (fld deployment ''dlpName'')),
                (''Token'', template (fld deployment ''tokenName'') @ '' (''
                            @ template (fld deployment ''tokenSymbol'') @ '')''),
                (''Wallet Address'', template (fld deployment ''address''))]
        else [])"

text \<open>
  \<open>showStatus\<close>, given the two files and the answers of the user: how it ends, the
  lines it prints (what the prompt itself draws is not among them), and the two files
  afterwards. An exception raised inside the \<open>try\<close> block (by the constructor, or while
  the array \<open>steps\<close> is built) is reported by the \<open>catch\<close> block, which exits with
  status 1. \<open>validateConfiguration\<close> is called and its result is not used.
\<close>

definition showStatus :: "(string \<Rightarrow> string) \<Rightarrow> json_file option \<Rightarrow> json_file option \<Rightarrow> answer list
    \<Rightarrow> status_end \<times> string list \<times> json_file option \<times> json_file option" where
  "showStatus toLocale f b answers =
     (case loadState f b of
        Inl error \<Rightarrow> (Exit 1, output_error (''Status check failed: '' @ err_message error), f, b)
      | Inr stateManager \<Rightarrow>
          (let (syncedUpdates, stateManager) = syncStateFromData stateManager;
               deployment = this_state stateManager;
               files = (dfile stateManager, backup stateManager);
               top_lines = sync_lines syncedUpdates @ project_lines deployment
           in case status_steps deployment of
                Inl error \<Rightarrow>
                  (Exit 1, top_lines @ output_error (''Status check failed: '' @ err_message error), files)
              | Inr steps \<Rightarrow>
                  (let out = top_lines
                             @ [clipboard_mark @ '' Deployment Progress:'']
                             @ concat (map (progress_lines stateManager) steps)
                             @ [[]];
                       hasErrors = (length (errors deployment) > 0);
                       hasIncompleteSteps =
                         (\<not> truthy (isCompleted stateManager ''contractsDeployed'')
                          \<or> \<not> truthy (isCompleted stateManager ''dataDAORegistered'')
                          \<or> \<not> truthy (isCompleted stateManager ''proofConfigured'')
                          \<or> \<not> truthy (isCompleted stateManager ''refinerConfigured'')
                          \<or> \<not> truthy (isCompleted stateManager ''uiConfigured''))
                   in if hasErrors
                      then (let out = out @ output_warning ''Issues detected in your setup''
                            in case ask_list [''fix'', ''recover'', ''credentials'', ''errors'', ''continue''] answers of
                                 None \<Rightarrow> (Waiting, out, files)
                               | Some (action, answers) \<Rightarrow>
                                   if action = ''fix'' then (Continues ''fixConfiguration'', out, files)
                                   else if action = ''recover'' then (Continues ''showRecoveryMenu'', out, files)
                                   else if action = ''credentials'' then (Continues ''updateCredentials'', out, files)
                                   else if action = ''errors''
                                     then (Returned, out @ showDetailedErrors toLocale (errors deployment), files)
                                   else (Returned, out, files))
                      else if hasIncompleteSteps
                        then (Continues ''resumeGuidedSetup'',
                              out @ [[]] @ output_info ''Resuming guided setup from where you left off...'',
                              files)
                      else (let nextSteps = getNextSteps deployment
                            in if length nextSteps > 0
                               then (Returned, out @ output_nextSteps nextSteps, files)
                               else (Returned,
                                     out @ output_success (party_mark @ '' Your DataDAO is fully configured and ready to use!'')
                                         @ output_nextSteps
                                             [''Start the UI: cd ui && npm run dev'',
                                              ''Visit: http://localhost:3000'',
                                              ''Test the contributor flow'',
                                              ''Note: If you run into any errors, please check the UI logs for more details''],
                                     files)))))"

text \<open>
  The manager of the examples after a failed registration: the error is recorded for
  the step \<open>dataDAORegistered\<close>.
\<close>

definition example_failed :: manager where
  "example_failed =
     recordError ''dataDAORegistered'' (Error ''insufficient funds'') ''2025-01-02T00:00:00.000Z''
       example_manager"

section \<open>Properties of the deployment state manager\<close>

subsection \<open>Auxiliary facts\<close>

lemma map_of_assign:
  "map_of (assign t us) k = (case map_of (rev us) k of Some v \<Rightarrow> Some v | None \<Rightarrow> map_of t k)"
  unfolding assign_def
  by (induction us arbitrary: t) (auto simp: AList.update_conv' split: option.splits)

lemma map_of_rev_None: "k \<notin> fst ` set us \<Longrightarrow> map_of (rev us) k = None"
  by (simp add: map_of_eq_None_iff)

lemma map_of_rev_all_True:
  assumes "\<forall>(k, v) \<in> set us. v = True"
  shows "map_of (rev us) k = (if k \<in> fst ` set us then Some True else None)"
proof (cases "map_of (rev us) k")
  case None
  then show ?thesis by (simp add: map_of_eq_None_iff)
next
  case (Some v)
  then have "(k, v) \<in> set us" by (auto dest: map_of_SomeD)
  with assms Some show ?thesis by (force simp: image_iff)
qed

lemma saveState_None_simps:
  "this_state (saveState None m) = this_state m"
  "dfile (saveState None m) = Some (stringify (this_state m))"
  "backup (saveState None m) = (case dfile m of Some old \<Rightarrow> Some old | None \<Rightarrow> backup m)"
  by (simp_all add: saveState_def fs_save_def Let_def split: option.splits)

lemma updateState_simps:
  "dfields (this_state (updateState us m)) = dfields (this_state m)"
  "errors (this_state (updateState us m)) = errors (this_state m)"
  "flags (this_state (updateState us m)) = assign (flags (this_state m)) us"
  by (simp_all add: updateState_def saveState_None_simps)

lemma updateDeployment_simps:
  "dfields (this_state (updateDeployment us m)) = assign (dfields (this_state m)) us"
  "errors (this_state (updateDeployment us m)) = errors (this_state m)"
  "flags (this_state (updateDeployment us m)) = flags (this_state m)"
  by (simp_all add: updateDeployment_def saveState_None_simps)

lemma clearError_simps:
  "dfields (this_state (clearError step m)) = dfields (this_state m)"
  "flags (this_state (clearError step m)) = flags (this_state m)"
  by (simp_all add: clearError_def saveState_None_simps split: option.splits)

lemma recordError_simps:
  "dfields (this_state (recordError step error now m)) = dfields (this_state m)"
  "flags (this_state (recordError step error now m)) = flags (this_state m)"
  by (simp_all add: recordError_def saveState_None_simps)

lemma flag_updateState:
  "flag (this_state (updateState us m)) k =
     (case map_of (rev us) k of Some v \<Rightarrow> v | None \<Rightarrow> flag (this_state m) k)"
  by (simp add: flag_def updateState_simps map_of_assign split: option.splits)



subsection \<open>The updates collected by \<open>syncStateFromData\<close>\<close>

lemma sync_fold_values:
  "(k, v) \<in> set (fold (sync_check m) ks acc) \<Longrightarrow> v = True \<or> (k, v) \<in> set acc"
proof (induction ks arbitrary: acc)
  case Nil
  then show ?case by simp
next
  case (Cons a ks)
  have upd: "\<And>al. (k, v) \<in> set (AList.update a True al) \<Longrightarrow> v = True \<or> (k, v) \<in> set al"
    subgoal for al by (induction al) (auto split: if_splits)
    done
  from Cons.IH[OF Cons.prems[simplified]] show ?case
    by (auto simp: sync_check_def dest: upd split: if_splits)
qed

lemma sync_fold_map_of:
  "map_of (fold (sync_check m) ks acc) k =
     (if k \<in> set ks \<and> \<not> flag (this_state m) k \<and> truthy (isCompleted m k) then Some True else map_of acc k)"
  by (induction ks arbitrary: acc) (auto simp: sync_check_def AList.update_conv')


lemma sync_updates_all_True:
  "\<forall>(k, v) \<in> set (fold (sync_check m) ks []). v = True"
  using sync_fold_values[of _ _ m ks "[]"] by auto

lemma sync_updates_dom:
  "k \<in> fst ` set (fold (sync_check m) ks []) \<longleftrightarrow>
     k \<in> set ks \<and> \<not> flag (this_state m) k \<and> truthy (isCompleted m k)"
proof -
  have "k \<in> fst ` set (fold (sync_check m) ks []) \<longleftrightarrow> map_of (fold (sync_check m) ks []) k \<noteq> None"
    by (simp add: map_of_eq_None_iff)
  also have "\<dots> \<longleftrightarrow> k \<in> set ks \<and> \<not> flag (this_state m) k \<and> truthy (isCompleted m k)"
    unfolding sync_fold_map_of by auto
  finally show ?thesis .
qed

lemma flag_after_sync:
  "flag (this_state (snd (syncStateFromData m))) k =
     (flag (this_state m) k \<or> (k \<in> set sync_steps \<and> truthy (isCompleted m k)))"
proof (cases "fold (sync_check m) sync_steps [] = []")
  case True
  then have "k \<notin> fst ` set (fold (sync_check m) sync_steps [])" by simp
  then have "\<not> (k \<in> set sync_steps \<and> \<not> flag (this_state m) k \<and> truthy (isCompleted m k))"
    by (simp only: sync_updates_dom not_False_eq_True)
  with True show ?thesis by (auto simp: syncStateFromData_def Let_def)
next
  case False
  then show ?thesis
    by (auto simp: syncStateFromData_def Let_def flag_updateState
        map_of_rev_all_True[OF sync_updates_all_True] sync_updates_dom)
qed

lemma dfields_after_sync:
  "dfields (this_state (snd (syncStateFromData m))) = dfields (this_state m)"
  by (simp add: syncStateFromData_def Let_def updateState_simps)


subsection \<open>The registration invariant\<close>

lemma violates_cong:
  "dfields d' = dfields d \<Longrightarrow> flags d' = flags d \<Longrightarrow> violates_registered d' = violates_registered d"
  by (simp add: violates_registered_def flag_def fld_def)

lemma violates_updateState:
  assumes "violates_registered (this_state m)" and "(''dataDAORegistered'', False) \<notin> set us"
  shows "violates_registered (this_state (updateState us m))"
proof -
  have "map_of (rev us) ''dataDAORegistered'' \<noteq> Some False"
    using assms(2) by (auto dest: map_of_SomeD)
  with assms(1) show ?thesis
    by (auto simp: violates_registered_def flag_updateState fld_def updateState_simps split: option.splits)
qed

lemma violates_updateDeployment:
  assumes "violates_registered (this_state m)" and "''dlpId'' \<notin> fst ` set us"
  shows "violates_registered (this_state (updateDeployment us m))"
  using assms
  by (simp add: violates_registered_def flag_def fld_def updateDeployment_simps map_of_assign map_of_rev_None)

text \<open>
  Claim C2. The invariant "dataDAORegistered implies dlpId present" is only reported,
  never enforced. For every manager whose state has the flag \<open>dataDAORegistered\<close> set
  and no \<open>dlpId\<close> field, \<open>validateConfiguration\<close> returns a list of issues that contains
  'Marked as registered but missing dlpId' and leaves the manager (state and files) as
  it was. No operation rejects or repairs such a state: \<open>saveState\<close>, \<open>recordError\<close>,
  \<open>clearError\<close> and \<open>syncStateFromData\<close> complete and the state still violates the
  invariant afterwards; so do \<open>updateState\<close>, \<open>updateDeployment\<close> and \<open>markCompleted\<close>
  unless the caller's own argument clears the flag or supplies a \<open>dlpId\<close>; and
  the constructor loads the violating state back from disk without complaint.
\<close>

theorem invariant_checked_only_informationally:
  assumes "flag (this_state m) ''dataDAORegistered''" and "fld (this_state m) ''dlpId'' = None"
  shows "''Marked as registered but missing dlpId'' \<in> set (fst (validateConfiguration m))
       \<and> snd (validateConfiguration m) = m
       \<and> violates_registered (this_state (saveState None m))
       \<and> violates_registered (this_state (recordError step error now m))
       \<and> violates_registered (this_state (clearError step m))
       \<and> violates_registered (this_state (snd (syncStateFromData m)))
       \<and> ((''dataDAORegistered'', False) \<notin> set flag_updates
            \<longrightarrow> violates_registered (this_state (updateState flag_updates m)))
       \<and> (''dlpId'' \<notin> fst ` set data
            \<longrightarrow> violates_registered (this_state (updateDeployment data m))
              \<and> violates_registered (this_state (markCompleted step data m)))
       \<and> (\<exists>m2. loadState (dfile (saveState None m)) (backup (saveState None m)) = Inr m2
             \<and> violates_registered (this_state m2))"
proof -
  have v: "violates_registered (this_state m)"
    using assms by (simp add: violates_registered_def)
  have c1: "''Marked as registered but missing dlpId'' \<in> set (fst (validateConfiguration m))"
    using assms by (simp add: validateConfiguration_def Let_def)
  have c2: "snd (validateConfiguration m) = m"
    by (simp add: validateConfiguration_def Let_def)
  have c3: "violates_registered (this_state (saveState None m))"
    using v by (simp add: saveState_None_simps)
  have c4: "violates_registered (this_state (recordError step error now m))"
    using v by (simp add: violates_cong[OF recordError_simps])
  have c5: "violates_registered (this_state (clearError step m))"
    using v by (simp add: violates_cong[OF clearError_simps])
  have c6: "violates_registered (this_state (snd (syncStateFromData m)))"
    using v by (simp add: violates_registered_def flag_after_sync fld_def dfields_after_sync)
  have c7: "(''dataDAORegistered'', False) \<notin> set flag_updates
            \<Longrightarrow> violates_registered (this_state (updateState flag_updates m))"
    using v by (rule violates_updateState)
  have c8: "''dlpId'' \<notin> fst ` set data \<Longrightarrow> violates_registered (this_state (updateDeployment data m))"
    using v by (rule violates_updateDeployment)
  have c9: "''dlpId'' \<notin> fst ` set data \<Longrightarrow> violates_registered (this_state (markCompleted step data m))"
  proof -
    assume d: "''dlpId'' \<notin> fst ` set data"
    have v1: "violates_registered (this_state (updateState [(step, True)] m))"
      using v by (rule violates_updateState) simp
    show ?thesis
      using v1 violates_updateDeployment[OF v1 d] by (simp add: markCompleted_def Let_def)
  qed
  have c10: "\<exists>m2. loadState (dfile (saveState None m)) (backup (saveState None m)) = Inr m2
             \<and> violates_registered (this_state m2)"
    using v by (simp add: saveState_None_simps loadState_def stringify_def violates_registered_def
        flag_def fld_def)
  from c1 c2 c3 c4 c5 c6 c7 c8 c9 c10 show ?thesis by blast
qed

theorem invariant_checked_only_informationally_witness:
  "flag (this_state example_manager) ''dataDAORegistered''
   \<and> fld (this_state example_manager) ''dlpId'' = None
   \<and> ''Marked as registered but missing dlpId'' \<in> set (fst (validateConfiguration example_manager))
   \<and> (''dataDAORegistered'', False) \<notin> set [(''uiConfigured'', True)]
   \<and> violates_registered (this_state (updateState [(''uiConfigured'', True)] example_manager))
   \<and> ''dlpId'' \<notin> fst ` set [(''proofUrl'', JStr ''https://github.com/x/y/releases/z.tar.gz'')]
   \<and> violates_registered (this_state (markCompleted ''proofConfigured''
         [(''proofUrl'', JStr ''https://github.com/x/y/releases/z.tar.gz'')] example_manager))"
proof -
  have h1: "flag (this_state example_manager) ''dataDAORegistered''"
    by (simp add: example_manager_def example_deployment_def flag_def)
  have h2: "fld (this_state example_manager) ''dlpId'' = None"
    by (simp add: example_manager_def example_deployment_def fld_def)
  have h3: "(''dataDAORegistered'', False) \<notin> set [(''uiConfigured'', True)]" by simp
  have h4: "''dlpId'' \<notin> fst ` set [(''proofUrl'', JStr ''https://github.com/x/y/releases/z.tar.gz'')]"
    by simp
  from invariant_checked_only_informationally[OF h1 h2,
      where flag_updates = "[(''uiConfigured'', True)]"
        and data = "[(''proofUrl'', JStr ''https://github.com/x/y/releases/z.tar.gz'')]"
        and step = "''proofConfigured''"] h1 h2 h3 h4
  show ?thesis by blast
qed


section \<open>Properties of the polling loops\<close>

lemma rsbs_Suc:
  "k > 0 \<Longrightarrow> reads_separated_by_sleeps rd ms (Suc k) = rd # Sleep ms # reads_separated_by_sleeps rd ms k"
  by (cases k) (simp_all add: reads_separated_by_sleeps_def)

lemma rsbs_1: "reads_separated_by_sleeps rd ms (Suc 0) = [rd]"
  by (simp add: reads_separated_by_sleeps_def)

lemma poll_loop_run:
  assumes "0 \<le> i" and "i < mx"
  shows "case fst (poll_loop dlpId reads mx i) of
           Some key \<Rightarrow>
             (\<exists>j. i \<le> j \<and> j < mx \<and> reads (nat j) = Inr key \<and> key \<noteq> []
                \<and> (\<forall>j'. i \<le> j' \<and> j' < j \<longrightarrow> \<not> good_key (reads (nat j')))
                \<and> snd (poll_loop dlpId reads mx i) = reads_separated_by_sleeps (RpcRead ''dlpPubKeys'' [JNum dlpId]) 30000 (nat (j - i + 1)))
         | None \<Rightarrow>
             (\<forall>j. i \<le> j \<and> j < mx \<longrightarrow> \<not> good_key (reads (nat j)))
             \<and> snd (poll_loop dlpId reads mx i) = reads_separated_by_sleeps (RpcRead ''dlpPubKeys'' [JNum dlpId]) 30000 (nat (mx - i))"
  using assms
proof (induction dlpId reads mx i rule: poll_loop.induct)
  case (1 dlpId reads mx i)
  show ?case
  proof (cases "good_key (reads (nat i))")
    case True
    then obtain key where k: "reads (nat i) = Inr key" "key \<noteq> []"
      by (auto simp: good_key_def split: sum.splits)
    with 1 show ?thesis
      by (subst (1 2) poll_loop.simps) (auto simp: rsbs_1 intro!: exI[of _ i])
  next
    case False
    show ?thesis
    proof (cases "i + 1 < mx")
      case last: False
      with "1.prems" have e: "mx = i + 1" by simp
      have nx: "poll_loop dlpId reads mx (i + 1) = (None, [])"
        using e by (subst poll_loop.simps) simp
      have "poll_loop dlpId reads mx i = (None, [RpcRead ''dlpPubKeys'' [JNum dlpId]])"
        using False "1.prems" e nx
        by (subst poll_loop.simps) (auto simp: good_key_def split: sum.splits)
      moreover have "\<forall>j. i \<le> j \<and> j < mx \<longrightarrow> j = i" using e by auto
      ultimately show ?thesis using False e by (auto simp: rsbs_1)
    next
      case more: True
      have step: "poll_loop dlpId reads mx i =
          (fst (poll_loop dlpId reads mx (i + 1)),
           RpcRead ''dlpPubKeys'' [JNum dlpId] # Sleep 30000 # snd (poll_loop dlpId reads mx (i + 1)))"
        using False "1.prems" more
        by (subst poll_loop.simps) (auto simp: good_key_def split: sum.splits prod.splits)
      have ih: "case fst (poll_loop dlpId reads mx (i + 1)) of
           Some key \<Rightarrow>
             (\<exists>j. i + 1 \<le> j \<and> j < mx \<and> reads (nat j) = Inr key \<and> key \<noteq> []
                \<and> (\<forall>j'. i + 1 \<le> j' \<and> j' < j \<longrightarrow> \<not> good_key (reads (nat j')))
                \<and> snd (poll_loop dlpId reads mx (i + 1)) = reads_separated_by_sleeps (RpcRead ''dlpPubKeys'' [JNum dlpId]) 30000 (nat (j - (i + 1) + 1)))
         | None \<Rightarrow>
             (\<forall>j. i + 1 \<le> j \<and> j < mx \<longrightarrow> \<not> good_key (reads (nat j)))
             \<and> snd (poll_loop dlpId reads mx (i + 1)) = reads_separated_by_sleeps (RpcRead ''dlpPubKeys'' [JNum dlpId]) 30000 (nat (mx - (i + 1)))"
      proof (cases "reads (nat i)")
        case (Inl e)
        show ?thesis using "1.IH"(1)[OF "1.prems"(2) Inl] "1.prems" more by simp
      next
        case (Inr key)
        with False have "key = []" by (simp add: good_key_def)
        then have "\<not> key \<noteq> []" by simp
        from "1.IH"(2)[OF "1.prems"(2) Inr this] "1.prems" more show ?thesis by simp
      qed
      have low: "\<And>j. i \<le> j \<Longrightarrow> j = i \<or> i + 1 \<le> j" by auto
      show ?thesis
      proof (cases "fst (poll_loop dlpId reads mx (i + 1))")
        case None
        with ih have a: "\<forall>j. i + 1 \<le> j \<and> j < mx \<longrightarrow> \<not> good_key (reads (nat j))"
          and b: "snd (poll_loop dlpId reads mx (i + 1)) = reads_separated_by_sleeps (RpcRead ''dlpPubKeys'' [JNum dlpId]) 30000 (nat (mx - (i + 1)))"
          by auto
        have "nat (mx - i) = Suc (nat (mx - (i + 1)))" using more "1.prems" by simp
        moreover have "nat (mx - (i + 1)) > 0" using more by simp
        ultimately have "reads_separated_by_sleeps (RpcRead ''dlpPubKeys'' [JNum dlpId]) 30000 (nat (mx - i))
            = RpcRead ''dlpPubKeys'' [JNum dlpId] # Sleep 30000 # reads_separated_by_sleeps (RpcRead ''dlpPubKeys'' [JNum dlpId]) 30000 (nat (mx - (i + 1)))"
          by (simp add: rsbs_Suc)
        moreover have "\<forall>j. i \<le> j \<and> j < mx \<longrightarrow> \<not> good_key (reads (nat j))"
          using a False low by blast
        ultimately show ?thesis using None b by (simp add: step)
      next
        case (Some key)
        with ih obtain j where j: "i + 1 \<le> j" "j < mx" "reads (nat j) = Inr key" "key \<noteq> []"
          "\<forall>j'. i + 1 \<le> j' \<and> j' < j \<longrightarrow> \<not> good_key (reads (nat j'))"
          "snd (poll_loop dlpId reads mx (i + 1)) = reads_separated_by_sleeps (RpcRead ''dlpPubKeys'' [JNum dlpId]) 30000 (nat (j - (i + 1) + 1))"
          by auto
        have "nat (j - i + 1) = Suc (nat (j - (i + 1) + 1))" using j(1) by simp
        moreover have "nat (j - (i + 1) + 1) > 0" using j(1) by simp
        ultimately have "reads_separated_by_sleeps (RpcRead ''dlpPubKeys'' [JNum dlpId]) 30000 (nat (j - i + 1))
            = RpcRead ''dlpPubKeys'' [JNum dlpId] # Sleep 30000 # reads_separated_by_sleeps (RpcRead ''dlpPubKeys'' [JNum dlpId]) 30000 (nat (j - (i + 1) + 1))"
          by (simp add: rsbs_Suc)
        moreover have "\<forall>j'. i \<le> j' \<and> j' < j \<longrightarrow> \<not> good_key (reads (nat j'))"
          using j(5) False low by blast
        moreover have "i \<le> j" using j(1) by simp
        ultimately have "i \<le> j \<and> j < mx \<and> reads (nat j) = Inr key \<and> key \<noteq> []
                \<and> (\<forall>j'. i \<le> j' \<and> j' < j \<longrightarrow> \<not> good_key (reads (nat j')))
                \<and> snd (poll_loop dlpId reads mx i) = reads_separated_by_sleeps (RpcRead ''dlpPubKeys'' [JNum dlpId]) 30000 (nat (j - i + 1))"
          using j by (simp add: step)
        then show ?thesis using Some by (simp add: step) blast
      qed
    qed
  qed
qed

lemma poll_loop_none: "\<not> i < mx \<Longrightarrow> poll_loop dlpId reads mx i = (None, [])"
  by (subst poll_loop.simps) simp

lemma detect_loop_run:
  "\<exists>k. int k \<le> max 0 (bound - i)
     \<and> ((0 < fst (detect_loop addr ids n bound i d0) \<and> i < bound
          \<and> snd (detect_loop addr ids n bound i d0) = reads_separated_by_sleeps (RpcRead ''dlpIds'' [addr]) 3000 k)
        \<or> (snd (detect_loop addr ids n bound i d0) = concat (replicate k [RpcRead ''dlpIds'' [addr], Sleep 3000])
            \<and> int k = max 0 (bound - i)
            \<and> fst (detect_loop addr ids n bound i d0) = (if i < bound then 0 else d0)))"
proof (induction addr ids n bound i d0 rule: detect_loop.induct)
  case (1 addr ids n bound i d0)
  show ?case
  proof (cases "i < bound")
    case False
    then have "detect_loop addr ids n bound i d0 = (d0, [])"
      by (subst detect_loop.simps) simp
    with False show ?thesis by (intro exI[of _ 0]) simp
  next
    case True
    show ?thesis
    proof (cases "getDlpId (ids (n + nat i)) > 0")
      case found: True
      then have "detect_loop addr ids n bound i d0 = (getDlpId (ids (n + nat i)), [RpcRead ''dlpIds'' [addr]])"
        using True by (subst detect_loop.simps) (simp add: Let_def)
      with found True show ?thesis
        by (intro exI[of _ 1]) (simp add: reads_separated_by_sleeps_def)
    next
      case nf: False
      then have z: "getDlpId (ids (n + nat i)) = 0" by simp
      have step: "detect_loop addr ids n bound i d0 =
          (fst (detect_loop addr ids n bound (i + 1) 0),
           RpcRead ''dlpIds'' [addr] # Sleep 3000 # snd (detect_loop addr ids n bound (i + 1) 0))"
        using True z by (subst detect_loop.simps) (simp add: Let_def split: prod.splits)
      from "1.IH"[OF True refl nf, unfolded z]
      obtain k where k: "int k \<le> max 0 (bound - (i + 1))"
        and alt: "(0 < fst (detect_loop addr ids n bound (i + 1) 0) \<and> i + 1 < bound
          \<and> snd (detect_loop addr ids n bound (i + 1) 0) = reads_separated_by_sleeps (RpcRead ''dlpIds'' [addr]) 3000 k)
        \<or> (snd (detect_loop addr ids n bound (i + 1) 0) = concat (replicate k [RpcRead ''dlpIds'' [addr], Sleep 3000])
            \<and> int k = max 0 (bound - (i + 1))
            \<and> fst (detect_loop addr ids n bound (i + 1) 0) = (if i + 1 < bound then 0 else 0))"
        by auto
      have kb: "int (Suc k) \<le> max 0 (bound - i)" using k True by simp
      from alt show ?thesis
      proof
        assume a: "0 < fst (detect_loop addr ids n bound (i + 1) 0) \<and> i + 1 < bound
          \<and> snd (detect_loop addr ids n bound (i + 1) 0) = reads_separated_by_sleeps (RpcRead ''dlpIds'' [addr]) 3000 k"
        then have "k > 0"
          by (cases k) (auto simp: reads_separated_by_sleeps_def detect_loop.simps[of addr ids n bound "i + 1" 0] Let_def split: if_splits prod.splits)
        with a kb True show ?thesis
          by (intro exI[of _ "Suc k"]) (simp add: step rsbs_Suc)
      next
        assume b: "snd (detect_loop addr ids n bound (i + 1) 0) = concat (replicate k [RpcRead ''dlpIds'' [addr], Sleep 3000])
            \<and> int k = max 0 (bound - (i + 1))
            \<and> fst (detect_loop addr ids n bound (i + 1) 0) = (if i + 1 < bound then 0 else 0)"
        then have "int (Suc k) = max 0 (bound - i)" using True by simp
        with b kb True show ?thesis
          by (intro exI[of _ "Suc k"]) (simp add: step)
      qed
    qed
  qed
qed

lemma count_rsbs:
  "length (filter (\<lambda>e. e = RpcRead f as) (reads_separated_by_sleeps (RpcRead f as) ms k)) = k"
  by (cases k) (simp_all add: reads_separated_by_sleeps_def filter_concat o_def sum_list_replicate)

lemma count_full:
  "length (filter (\<lambda>e. e = RpcRead f as) (concat (replicate k [RpcRead f as, Sleep ms]))) = k"
  by (induction k) simp_all

lemma poll_from_zero:
  "case fst (poll_loop dlpId reads mx 0) of
     Some key \<Rightarrow>
       (\<exists>j. int j < mx \<and> reads j = Inr key \<and> key \<noteq> []
          \<and> (\<forall>j'<j. \<not> good_key (reads j'))
          \<and> snd (poll_loop dlpId reads mx 0) = reads_separated_by_sleeps (RpcRead ''dlpPubKeys'' [JNum dlpId]) 30000 (Suc j))
   | None \<Rightarrow>
       (\<forall>j. int j < mx \<longrightarrow> \<not> good_key (reads j))
       \<and> snd (poll_loop dlpId reads mx 0) = reads_separated_by_sleeps (RpcRead ''dlpPubKeys'' [JNum dlpId]) 30000 (nat mx)"
proof (cases "0 < mx")
  case False
  then show ?thesis
    by (simp add: poll_loop_none reads_separated_by_sleeps_def)
next
  case True
  note run = poll_loop_run[where i = 0 and mx = mx and reads = reads and dlpId = dlpId, OF _ True, simplified]
  show ?thesis
  proof (cases "fst (poll_loop dlpId reads mx 0)")
    case None
    with run have a: "\<forall>j. 0 \<le> j \<and> j < mx \<longrightarrow> \<not> good_key (reads (nat j))"
      and b: "snd (poll_loop dlpId reads mx 0) = reads_separated_by_sleeps (RpcRead ''dlpPubKeys'' [JNum dlpId]) 30000 (nat mx)"
      by auto
    have "\<forall>j. int j < mx \<longrightarrow> \<not> good_key (reads j)"
    proof (intro allI impI)
      fix j assume "int j < mx"
      with a[rule_format, of "int j"] show "\<not> good_key (reads j)" by simp
    qed
    with None b show ?thesis by simp
  next
    case (Some key)
    with run obtain j where j: "0 \<le> j" "j < mx" "reads (nat j) = Inr key" "key \<noteq> []"
      "\<forall>j'. 0 \<le> j' \<and> j' < j \<longrightarrow> \<not> good_key (reads (nat j'))"
      "snd (poll_loop dlpId reads mx 0) = reads_separated_by_sleeps (RpcRead ''dlpPubKeys'' [JNum dlpId]) 30000 (nat (j + 1))"
      by auto
    have m: "\<forall>j'<nat j. \<not> good_key (reads j')"
    proof (intro allI impI)
      fix j' assume "j' < nat j"
      with j(5)[rule_format, of "int j'"] show "\<not> good_key (reads j')" by simp
    qed
    have "nat (j + 1) = Suc (nat j)" using j(1) by simp
    with j m have "int (nat j) < mx \<and> reads (nat j) = Inr key \<and> key \<noteq> []
          \<and> (\<forall>j'<nat j. \<not> good_key (reads j'))
          \<and> snd (poll_loop dlpId reads mx 0) = reads_separated_by_sleeps (RpcRead ''dlpPubKeys'' [JNum dlpId]) 30000 (Suc (nat j))"
      by simp
    then have "\<exists>j. int j < mx \<and> reads j = Inr key \<and> key \<noteq> []
          \<and> (\<forall>j'<j. \<not> good_key (reads j'))
          \<and> snd (poll_loop dlpId reads mx 0) = reads_separated_by_sleeps (RpcRead ''dlpPubKeys'' [JNum dlpId]) 30000 (Suc j)"
      by (rule exI)
    then show ?thesis using Some by (simp only: option.case)
  qed
qed

lemma poll_fst_snd:
  "fst (pollEncryptionKey dlpId reads ma) = Inr (fst (poll_loop dlpId reads (attempt_limit ma) 0))"
  "snd (pollEncryptionKey dlpId reads ma) = snd (poll_loop dlpId reads (attempt_limit ma) 0)"
  by (simp_all add: pollEncryptionKey_def split: prod.splits)

lemma first_good_unique:
  assumes "good_key (reads j)" "\<forall>j'<j. \<not> good_key (reads j')"
    and "good_key (reads k)" "\<forall>j'<k. \<not> good_key (reads j')"
  shows "j = (k::nat)"
  using assms by (meson nat_neq_iff)

text \<open>
  Claim C5. The retry loops are bounded polling with a fixed sleep, and they
  terminate (both are total functions here: the loop index rises to the bound).
  \<open>pollEncryptionKey\<close> makes at most \<open>maxAttempts\<close> (60 unless given) contract reads
  with one 30-second sleep between consecutive reads; it returns the key of the first
  read that yields a non-empty value, right after that read; it returns null when no
  read within the bound yields one, after exactly \<open>maxAttempts\<close> reads; and no
  exception leaves it. The loop that detects the dlpId after a manual registration
  makes at most 10 reads, each failed read followed by a 3-second sleep.
\<close>

theorem polling_is_bounded:
  "(\<exists>k. int k \<le> max 0 (attempt_limit maxAttempts)
       \<and> snd (pollEncryptionKey dlpId reads maxAttempts) = reads_separated_by_sleeps (RpcRead ''dlpPubKeys'' [JNum dlpId]) 30000 k)
   \<and> (\<forall>j key. int j < attempt_limit maxAttempts \<and> reads j = Inr key \<and> key \<noteq> []
          \<and> (\<forall>j'<j. \<not> good_key (reads j'))
        \<longrightarrow> fst (pollEncryptionKey dlpId reads maxAttempts) = Inr (Some key)
          \<and> snd (pollEncryptionKey dlpId reads maxAttempts) = reads_separated_by_sleeps (RpcRead ''dlpPubKeys'' [JNum dlpId]) 30000 (Suc j))
   \<and> (\<forall>key. fst (pollEncryptionKey dlpId reads maxAttempts) = Inr (Some key)
        \<longrightarrow> (\<exists>j. int j < attempt_limit maxAttempts \<and> reads j = Inr key \<and> key \<noteq> []))
   \<and> ((\<forall>j. int j < attempt_limit maxAttempts \<longrightarrow> \<not> good_key (reads j))
        \<longrightarrow> fst (pollEncryptionKey dlpId reads maxAttempts) = Inr None
          \<and> snd (pollEncryptionKey dlpId reads maxAttempts)
              = reads_separated_by_sleeps (RpcRead ''dlpPubKeys'' [JNum dlpId]) 30000 (nat (attempt_limit maxAttempts)))
   \<and> (fst (pollEncryptionKey dlpId reads maxAttempts) = Inr None
        \<longrightarrow> (\<forall>j. int j < attempt_limit maxAttempts \<longrightarrow> \<not> good_key (reads j)))
   \<and> (\<forall>e. fst (pollEncryptionKey dlpId reads maxAttempts) \<noteq> Inl e)
   \<and> attempt_limit None = 60
   \<and> length (filter (\<lambda>e. e = RpcRead ''dlpIds'' [addr]) (snd (detect_loop addr ids n 10 0 0))) \<le> 10
   \<and> (\<exists>k\<le>10. snd (detect_loop addr ids n 10 0 0) = reads_separated_by_sleeps (RpcRead ''dlpIds'' [addr]) 3000 k
              \<or> snd (detect_loop addr ids n 10 0 0) = concat (replicate k [RpcRead ''dlpIds'' [addr], Sleep 3000]))"
proof -
  let ?mx = "attempt_limit maxAttempts"
  note z = poll_from_zero[where reads = reads and mx = ?mx and dlpId = dlpId]
  have c1: "\<exists>k. int k \<le> max 0 ?mx
       \<and> snd (pollEncryptionKey dlpId reads maxAttempts) = reads_separated_by_sleeps (RpcRead ''dlpPubKeys'' [JNum dlpId]) 30000 k"
  proof (cases "fst (poll_loop dlpId reads ?mx 0)")
    case None
    with z have "snd (poll_loop dlpId reads ?mx 0) = reads_separated_by_sleeps (RpcRead ''dlpPubKeys'' [JNum dlpId]) 30000 (nat ?mx)"
      by simp
    then show ?thesis by (intro exI[of _ "nat ?mx"]) (simp add: poll_fst_snd)
  next
    case (Some key)
    with z obtain j where "int j < ?mx"
      "snd (poll_loop dlpId reads ?mx 0) = reads_separated_by_sleeps (RpcRead ''dlpPubKeys'' [JNum dlpId]) 30000 (Suc j)"
      by auto
    then show ?thesis by (intro exI[of _ "Suc j"]) (simp add: poll_fst_snd)
  qed
  have c2: "fst (pollEncryptionKey dlpId reads maxAttempts) = Inr (Some key)
          \<and> snd (pollEncryptionKey dlpId reads maxAttempts) = reads_separated_by_sleeps (RpcRead ''dlpPubKeys'' [JNum dlpId]) 30000 (Suc j)"
    if h: "int j < ?mx \<and> reads j = Inr key \<and> key \<noteq> [] \<and> (\<forall>j'<j. \<not> good_key (reads j'))"
    for j key
  proof (cases "fst (poll_loop dlpId reads ?mx 0)")
    case None
    with z have "\<forall>j. int j < ?mx \<longrightarrow> \<not> good_key (reads j)" by simp
    with h have "\<not> good_key (reads j)" by blast
    with h show ?thesis by (simp add: good_key_def)
  next
    case (Some key')
    with z obtain k where k: "int k < ?mx" "reads k = Inr key'" "key' \<noteq> []"
      "\<forall>j'<k. \<not> good_key (reads j')"
      "snd (poll_loop dlpId reads ?mx 0) = reads_separated_by_sleeps (RpcRead ''dlpPubKeys'' [JNum dlpId]) 30000 (Suc k)"
      by auto
    have "j = k"
      by (rule first_good_unique[of reads]) (use h k in \<open>simp_all add: good_key_def\<close>)
    with h k Some show ?thesis by (simp add: poll_fst_snd)
  qed
  have c3: "\<exists>j. int j < ?mx \<and> reads j = Inr key \<and> key \<noteq> []"
    if "fst (pollEncryptionKey dlpId reads maxAttempts) = Inr (Some key)" for key
  proof -
    from that have "fst (poll_loop dlpId reads ?mx 0) = Some key" by (simp add: poll_fst_snd)
    with z show ?thesis by auto
  qed
  have c4: "fst (pollEncryptionKey dlpId reads maxAttempts) = Inr None
          \<and> snd (pollEncryptionKey dlpId reads maxAttempts)
              = reads_separated_by_sleeps (RpcRead ''dlpPubKeys'' [JNum dlpId]) 30000 (nat ?mx)"
    if h: "\<forall>j. int j < ?mx \<longrightarrow> \<not> good_key (reads j)"
  proof (cases "fst (poll_loop dlpId reads ?mx 0)")
    case None
    with z show ?thesis by (simp add: poll_fst_snd)
  next
    case (Some key)
    with z obtain j where "int j < ?mx" "reads j = Inr key" "key \<noteq> []" by auto
    with h show ?thesis by (auto simp: good_key_def)
  qed
  have c5: "\<forall>j. int j < ?mx \<longrightarrow> \<not> good_key (reads j)"
    if "fst (pollEncryptionKey dlpId reads maxAttempts) = Inr None"
  proof -
    from that have "fst (poll_loop dlpId reads ?mx 0) = None" by (simp add: poll_fst_snd)
    with z show ?thesis by simp
  qed
  have c6: "\<forall>e. fst (pollEncryptionKey dlpId reads maxAttempts) \<noteq> Inl e"
    by (simp add: poll_fst_snd)
  have c7: "attempt_limit None = 60" by (simp add: attempt_limit_def)
  from detect_loop_run[where bound = 10 and i = 0 and ids = ids and n = n and ?d0.0 = 0 and addr = addr]
  obtain k where k: "k \<le> 10"
    and alt: "snd (detect_loop addr ids n 10 0 0) = reads_separated_by_sleeps (RpcRead ''dlpIds'' [addr]) 3000 k
              \<or> snd (detect_loop addr ids n 10 0 0) = concat (replicate k [RpcRead ''dlpIds'' [addr], Sleep 3000])"
    by auto
  have c8: "length (filter (\<lambda>e. e = RpcRead ''dlpIds'' [addr]) (snd (detect_loop addr ids n 10 0 0))) \<le> 10"
    using alt k by (auto simp: count_rsbs count_full)
  have c9: "\<exists>k\<le>10. snd (detect_loop addr ids n 10 0 0) = reads_separated_by_sleeps (RpcRead ''dlpIds'' [addr]) 3000 k
              \<or> snd (detect_loop addr ids n 10 0 0) = concat (replicate k [RpcRead ''dlpIds'' [addr], Sleep 3000])"
    using alt k by blast
  from c1 c2 c3 c4 c5 c6 c7 c8 c9 show ?thesis by blast
qed

theorem polling_is_bounded_witness:
  "fst (pollEncryptionKey 42 example_reads None) = Inr (Some ''04ab'')
   \<and> snd (pollEncryptionKey 42 example_reads None)
       = [RpcRead ''dlpPubKeys'' [JNum 42], Sleep 30000, RpcRead ''dlpPubKeys'' [JNum 42], Sleep 30000, RpcRead ''dlpPubKeys'' [JNum 42]]
   \<and> fst (pollEncryptionKey 42 failing_reads (Some 3)) = Inr None
   \<and> snd (pollEncryptionKey 42 failing_reads (Some 3))
       = [RpcRead ''dlpPubKeys'' [JNum 42], Sleep 30000, RpcRead ''dlpPubKeys'' [JNum 42], Sleep 30000, RpcRead ''dlpPubKeys'' [JNum 42]]"
proof -
  have h1: "int 2 < attempt_limit None \<and> example_reads 2 = Inr ''04ab'' \<and> ''04ab'' \<noteq> []
        \<and> (\<forall>j'<2. \<not> good_key (example_reads j'))"
    by (simp add: attempt_limit_def example_reads_def good_key_def)
  have h2: "\<forall>j. int j < attempt_limit (Some 3) \<longrightarrow> \<not> good_key (failing_reads j)"
    by (simp add: failing_reads_def good_key_def)
  note a = polling_is_bounded[where reads = example_reads and maxAttempts = None and dlpId = 42,
      THEN conjunct2, THEN conjunct1, THEN spec, THEN spec, THEN mp, OF h1]
  note b = polling_is_bounded[where reads = failing_reads and maxAttempts = "Some 3" and dlpId = 42,
      THEN conjunct2, THEN conjunct2, THEN conjunct2, THEN conjunct1, THEN mp, OF h2]
  have r3: "reads_separated_by_sleeps (RpcRead ''dlpPubKeys'' [JNum 42]) 30000 (Suc 2)
      = [RpcRead ''dlpPubKeys'' [JNum 42], Sleep 30000, RpcRead ''dlpPubKeys'' [JNum 42], Sleep 30000, RpcRead ''dlpPubKeys'' [JNum 42]]"
    by (simp add: reads_separated_by_sleeps_def numeral_2_eq_2)
  have r3': "reads_separated_by_sleeps (RpcRead ''dlpPubKeys'' [JNum 42]) 30000 (nat (attempt_limit (Some 3)))
      = [RpcRead ''dlpPubKeys'' [JNum 42], Sleep 30000, RpcRead ''dlpPubKeys'' [JNum 42], Sleep 30000, RpcRead ''dlpPubKeys'' [JNum 42]]"
    by (simp add: reads_separated_by_sleeps_def attempt_limit_def numeral_3_eq_3)
  from a b show ?thesis by (simp only: r3 r3')
qed


section \<open>Properties of the registration error handler\<close>

lemma branch_outside_name_conflict:
  assumes "c \<noteq> NameConflict"
  shows "\<exists>a. branch address c = (hint a, Inr a)
           \<and> (canRetry a \<longleftrightarrow> c \<in> {UserCancelled, NonceConflict, NetworkIssue})"
  using assms by (cases c) (simp_all add: branch_def)

lemma handler_rethrows_outside_name_conflict:
  assumes "classify (err_message error) \<noteq> NameConflict"
  shows "snd (handleRegistrationError address error) = Rethrown error"
proof -
  from branch_outside_name_conflict[OF assms, of address]
  obtain a where "branch address (classify (err_message error)) = (hint a, Inr a)" by blast
  then show ?thesis by (simp add: handleRegistrationError_def)
qed

lemma handler_raises_in_name_conflict:
  assumes "classify (err_message error) = NameConflict"
  shows "handleRegistrationError address error
           = ([''DataDAO name conflict detected''], ReferenceError ''dlpProxyAddress'')"
  using assms
  by (simp add: handleRegistrationError_def branch_def read_identifier_def catch_scope_def)

text \<open>
  Claim C6 says that every registration failure is classified by the substring tests
  in their fixed order, that the recovery steps of the first matching category are
  printed, and that the original error is thrown again unchanged. The code does so in
  every category but the name conflict. There the first recovery step reads
  \<open>dlpProxyAddress\<close>, a constant declared inside the \<open>try\<close> block and not visible in the
  \<open>catch\<close> block: for the error message 'DLP already registered' the handler prints the
  hint only, no recovery step, and a ReferenceError leaves the function in place of
  the original error.
\<close>

theorem name_conflict_handler_raises_ReferenceError:
  "classify ''DLP already registered'' = NameConflict
   \<and> handleRegistrationError ''0x1111111111111111111111111111111111111111''
        \<lparr>err_message = ''DLP already registered'', err_stack = None\<rparr>
      = ([''DataDAO name conflict detected''], ReferenceError ''dlpProxyAddress'')"
  by code_simp


section \<open>Properties of the contract deployment\<close>

subsection \<open>The character classes\<close>

lemma length_units [simp]: "length (units s) = length s"
  by (simp add: units_def)

lemma units_append: "units (a @ b) = units a @ units b"
  by (simp add: units_def)

lemma hex_digits_eq:
  "hex_digits = {48, 49, 50, 51, 52, 53, 54, 55, 56, 57, 97, 98, 99, 100, 101, 102, 65, 66, 67, 68, 69, 70}"
  by (simp add: hex_digits_def units_def)

lemma is_hex_iff: "is_hex n \<longleftrightarrow> n \<in> hex_digits"
proof
  assume "is_hex n"
  then have "n = 48 \<or> n = 49 \<or> n = 50 \<or> n = 51 \<or> n = 52 \<or> n = 53 \<or> n = 54 \<or> n = 55 \<or> n = 56 \<or> n = 57
      \<or> n = 97 \<or> n = 98 \<or> n = 99 \<or> n = 100 \<or> n = 101 \<or> n = 102
      \<or> n = 65 \<or> n = 66 \<or> n = 67 \<or> n = 68 \<or> n = 69 \<or> n = 70"
    unfolding is_hex_def by presburger
  then show "n \<in> hex_digits" unfolding hex_digits_eq by blast
next
  assume "n \<in> hex_digits"
  then show "is_hex n" unfolding hex_digits_eq is_hex_def by auto
qed

lemma is_space_iff: "is_space n \<longleftrightarrow> n \<in> white_space"
proof
  assume "is_space n"
  then have "n = 9 \<or> n = 10 \<or> n = 11 \<or> n = 12 \<or> n = 13 \<or> n = 32 \<or> n = 160 \<or> n = 5760
      \<or> (8192 \<le> n \<and> n \<le> 8202) \<or> n = 8232 \<or> n = 8233 \<or> n = 8239 \<or> n = 8287 \<or> n = 12288
      \<or> n = 65279"
    unfolding is_space_def by presburger
  then show "n \<in> white_space" unfolding white_space_def by auto
next
  assume "n \<in> white_space"
  then show "is_space n" unfolding white_space_def is_space_def by auto
qed

lemma all_hex_iff: "list_all is_hex h \<longleftrightarrow> set h \<subseteq> hex_digits"
  by (auto simp: list_all_iff is_hex_iff)

lemma all_space_iff: "list_all is_space ws \<longleftrightarrow> set ws \<subseteq> white_space"
  by (auto simp: list_all_iff is_space_iff)

text \<open>An address is made of ASCII code units, so the text stored for it is the address.\<close>

lemma units_text_of: "\<forall>n \<in> set us. n < 256 \<Longrightarrow> units (text_of us) = us"
  by (induction us) (simp_all add: units_def text_of_def)

lemma address_ascii: "is_address a \<Longrightarrow> \<forall>n \<in> set a. n < 128"
proof
  fix n assume a: "is_address a" and n: "n \<in> set a"
  have "a = take 2 a @ drop 2 a" by simp
  with n have "n \<in> set (take 2 a) \<or> n \<in> set (drop 2 a)" by (metis Un_iff set_append)
  then show "n < 128"
  proof
    assume "n \<in> set (take 2 a)"
    with a have "n \<in> set (units ''0x'')" by (simp add: is_address_def)
    then show ?thesis by (auto simp: units_def)
  next
    assume "n \<in> set (drop 2 a)"
    with a have "n \<in> hex_digits" by (auto simp: is_address_def)
    then show ?thesis unfolding hex_digits_eq by auto
  qed
qed

lemma address_text: "is_address a \<Longrightarrow> units (text_of a) = a"
  using address_ascii[of a] by (intro units_text_of) auto

subsection \<open>The matchers\<close>

lemma match_address_sound:
  "match_address s = Some a \<Longrightarrow> is_address a \<and> (\<exists>rest. s = a @ rest)"
proof -
  assume m: "match_address s = Some a"
  let ?h = "take 40 (drop 2 s)"
  from m have sw: "take 2 s = units ''0x''" and len: "length ?h = 40" and hex: "list_all is_hex ?h"
    and a: "a = units ''0x'' @ ?h"
    by (auto simp: match_address_def Let_def split: if_splits)
  have "s = take 2 s @ drop 2 s" by simp
  with sw have "s = units ''0x'' @ drop 2 s" by simp
  also have "drop 2 s = ?h @ drop 40 (drop 2 s)" by (simp only: append_take_drop_id)
  finally have s: "s = a @ drop 40 (drop 2 s)" using a by simp
  have "is_address a"
    using a len hex by (simp add: is_address_def all_hex_iff)
  with s show ?thesis by blast
qed

lemma match_address_complete:
  "is_address a \<Longrightarrow> match_address (a @ rest) = Some a"
proof -
  assume a: "is_address a"
  then have l: "length a = 42" and t: "take 2 a = units ''0x''" and h: "list_all is_hex (drop 2 a)"
    by (simp_all add: is_address_def all_hex_iff)
  have a2: "units ''0x'' @ drop 2 a = a" using t[symmetric] by simp
  from l t h show ?thesis
    by (simp add: match_address_def Let_def a2)
qed

lemma not_space_0: "\<not> is_space 48"
  by (simp add: is_space_def)

lemma address_no_space: "is_address a \<Longrightarrow> a \<noteq> [] \<and> \<not> is_space (hd a)"
proof -
  assume a: "is_address a"
  then have ne: "a \<noteq> []" by (auto simp: is_address_def)
  from a have "take 2 a = units ''0x''" by (simp add: is_address_def)
  then have "hd (take 2 a) = 48" by (simp add: units_def)
  then have "hd a = 48" by simp
  with ne show ?thesis by (simp add: not_space_0)
qed

lemma search_sound: "search p s = Some r \<Longrightarrow> \<exists>pre suf. s = pre @ suf \<and> p suf = Some r"
proof (induction s)
  case Nil
  then show ?case by simp
next
  case (Cons c cs)
  show ?case
  proof (cases "p (c # cs)")
    case (Some r')
    with Cons.prems have "p (c # cs) = Some r" by simp
    then show ?thesis by (intro exI[of _ "[]"] exI[of _ "c # cs"]) simp
  next
    case None
    with Cons.prems have "search p cs = Some r" by simp
    from Cons.IH[OF this] obtain pre suf where "cs = pre @ suf" "p suf = Some r" by blast
    then show ?thesis by (intro exI[of _ "c # pre"] exI[of _ suf]) simp
  qed
qed

lemma search_complete: "p suf \<noteq> None \<Longrightarrow> search p (pre @ suf) \<noteq> None"
proof (induction pre)
  case Nil
  then show ?case by (cases suf) auto
next
  case (Cons c pre)
  then show ?case by (auto split: option.splits)
qed

lemma match_Lit: "match_at (Lit l # ts) (units l @ s) = match_at ts s"
  by simp

lemma dropWhile_spaces:
  "list_all is_space ws \<Longrightarrow> s = [] \<or> \<not> is_space (hd s) \<Longrightarrow> dropWhile is_space (ws @ s) = s"
  by (induction ws) (auto simp: dropWhile_eq_self_iff)

lemma match_Space0:
  "list_all is_space ws \<Longrightarrow> s = [] \<or> \<not> is_space (hd s)
     \<Longrightarrow> match_at (Space0 # ts) (ws @ s) = match_at ts s"
  by (simp add: dropWhile_spaces)

lemma match_Space1:
  "ws \<noteq> [] \<Longrightarrow> list_all is_space ws \<Longrightarrow> s = [] \<or> \<not> is_space (hd s)
     \<Longrightarrow> match_at (Space1 # ts) (ws @ s) = match_at ts s"
  by (cases ws) (auto simp: dropWhile_spaces)

lemma match_Lit_sound:
  "match_at (Lit l # ts) s = Some a \<Longrightarrow> \<exists>s'. s = units l @ s' \<and> match_at ts s' = Some a"
proof -
  assume m: "match_at (Lit l # ts) s = Some a"
  then have sw: "take (length l) s = units l" and r: "match_at ts (drop (length l) s) = Some a"
    by (auto split: if_splits)
  have "s = units l @ drop (length l) s" using sw by (metis append_take_drop_id)
  with r show ?thesis by blast
qed

lemma match_Space0_sound:
  "match_at (Space0 # ts) s = Some a \<Longrightarrow> \<exists>ws s'. s = ws @ s' \<and> list_all is_space ws \<and> match_at ts s' = Some a"
proof -
  assume m: "match_at (Space0 # ts) s = Some a"
  have "s = takeWhile is_space s @ dropWhile is_space s" by simp
  moreover have "list_all is_space (takeWhile is_space s)"
    by (simp add: list_all_iff) (meson set_takeWhileD)
  ultimately show ?thesis using m by (metis match_at.simps(3))
qed

lemma match_Space1_sound:
  "match_at (Space1 # ts) s = Some a
     \<Longrightarrow> \<exists>ws s'. s = ws @ s' \<and> ws \<noteq> [] \<and> list_all is_space ws \<and> match_at ts s' = Some a"
proof -
  assume m: "match_at (Space1 # ts) s = Some a"
  then obtain c cs where s: "s = c # cs" and c: "is_space c"
    and r: "match_at ts (dropWhile is_space cs) = Some a"
    by (auto split: list.splits if_splits)
  have "s = (c # takeWhile is_space cs) @ dropWhile is_space cs" using s by simp
  moreover have "list_all is_space (c # takeWhile is_space cs)"
    using c by (simp add: list_all_iff) (meson set_takeWhileD)
  ultimately show ?thesis using r by blast
qed

subsection \<open>The three patterns\<close>

lemma token_sound:
  assumes "js_match token_pattern output = Some a"
  shows "is_address a \<and> (\<exists>pre ws rest. output = pre @ units ''Token Address:'' @ ws @ a @ rest
           \<and> set ws \<subseteq> white_space)"
proof -
  from assms obtain pre suf where o: "output = pre @ suf"
    and m: "match_at [Lit ''Token Address:'', Space0] suf = Some a"
    unfolding js_match_def token_pattern_def by (blast dest: search_sound)
  from match_Lit_sound[OF m] obtain s1 where s1: "suf = units ''Token Address:'' @ s1"
    and m1: "match_at [Space0] s1 = Some a" by blast
  from match_Space0_sound[OF m1] obtain ws s2 where s2: "s1 = ws @ s2" "list_all is_space ws"
    and m2: "match_at [] s2 = Some a" by blast
  from m2 match_address_sound[of s2 a] obtain rest where r: "is_address a" "s2 = a @ rest" by auto
  have "output = pre @ units ''Token Address:'' @ ws @ a @ rest"
    by (simp only: o s1 s2(1) r(2))
  moreover have "set ws \<subseteq> white_space" using s2(2) by (simp only: all_space_iff)
  ultimately show ?thesis using r(1) by blast
qed

lemma token_complete:
  assumes "is_address a" "set ws \<subseteq> white_space"
  shows "js_match token_pattern (pre @ units ''Token Address:'' @ ws @ a @ rest) \<noteq> None"
proof -
  have sp: "list_all is_space ws" using assms(2) by (simp only: all_space_iff)
  have ns: "a @ rest = [] \<or> \<not> is_space (hd (a @ rest))"
    using address_no_space[OF assms(1)] by simp
  have "match_at token_pattern (units ''Token Address:'' @ ws @ a @ rest) = Some a"
    unfolding token_pattern_def
    by (simp only: match_Lit match_Space0[OF sp ns] match_at.simps(1)
        match_address_complete[OF assms(1)])
  then have "match_at token_pattern (units ''Token Address:'' @ ws @ a @ rest) \<noteq> None" by simp
  then show ?thesis unfolding js_match_def by (rule search_complete)
qed

lemma alt_proxy_sound:
  assumes "js_match alt_proxy_pattern output = Some a"
  shows "is_address a \<and> (\<exists>pre ws rest. output = pre @ units ''Proxy deployed to:'' @ ws @ a @ rest
           \<and> set ws \<subseteq> white_space)"
proof -
  from assms obtain pre suf where o: "output = pre @ suf"
    and m: "match_at [Lit ''Proxy deployed to:'', Space0] suf = Some a"
    unfolding js_match_def alt_proxy_pattern_def by (blast dest: search_sound)
  from match_Lit_sound[OF m] obtain s1 where s1: "suf = units ''Proxy deployed to:'' @ s1"
    and m1: "match_at [Space0] s1 = Some a" by blast
  from match_Space0_sound[OF m1] obtain ws s2 where s2: "s1 = ws @ s2" "list_all is_space ws"
    and m2: "match_at [] s2 = Some a" by blast
  from m2 match_address_sound[of s2 a] obtain rest where r: "is_address a" "s2 = a @ rest" by auto
  have "output = pre @ units ''Proxy deployed to:'' @ ws @ a @ rest"
    by (simp only: o s1 s2(1) r(2))
  moreover have "set ws \<subseteq> white_space" using s2(2) by (simp only: all_space_iff)
  ultimately show ?thesis using r(1) by blast
qed

lemma alt_proxy_complete:
  assumes "is_address a" "set ws \<subseteq> white_space"
  shows "js_match alt_proxy_pattern (pre @ units ''Proxy deployed to:'' @ ws @ a @ rest) \<noteq> None"
proof -
  have sp: "list_all is_space ws" using assms(2) by (simp only: all_space_iff)
  have ns: "a @ rest = [] \<or> \<not> is_space (hd (a @ rest))"
    using address_no_space[OF assms(1)] by simp
  have "match_at alt_proxy_pattern (units ''Proxy deployed to:'' @ ws @ a @ rest) = Some a"
    unfolding alt_proxy_pattern_def
    by (simp only: match_Lit match_Space0[OF sp ns] match_at.simps(1)
        match_address_complete[OF assms(1)])
  then have "match_at alt_proxy_pattern (units ''Proxy deployed to:'' @ ws @ a @ rest) \<noteq> None" by simp
  then show ?thesis unfolding js_match_def by (rule search_complete)
qed

lemma proxy_sound:
  assumes "js_match proxy_pattern output = Some a"
  shows "is_address a \<and> (\<exists>pre ws1 ws2 ws3 rest.
           output = pre @ units ''DataLiquidityPoolProxy'' @ ws1 @ units ''deployed'' @ ws2
                      @ units ''to:'' @ ws3 @ a @ rest
           \<and> ws1 \<noteq> [] \<and> set ws1 \<subseteq> white_space \<and> ws2 \<noteq> [] \<and> set ws2 \<subseteq> white_space
           \<and> set ws3 \<subseteq> white_space)"
proof -
  from assms obtain pre suf where o: "output = pre @ suf"
    and m: "match_at [Lit ''DataLiquidityPoolProxy'', Space1, Lit ''deployed'', Space1, Lit ''to:'', Space0] suf = Some a"
    unfolding js_match_def proxy_pattern_def by (blast dest: search_sound)
  from match_Lit_sound[OF m] obtain s1 where s1: "suf = units ''DataLiquidityPoolProxy'' @ s1"
    and m1: "match_at [Space1, Lit ''deployed'', Space1, Lit ''to:'', Space0] s1 = Some a" by blast
  from match_Space1_sound[OF m1] obtain ws1 s2 where s2: "s1 = ws1 @ s2" "ws1 \<noteq> []" "list_all is_space ws1"
    and m2: "match_at [Lit ''deployed'', Space1, Lit ''to:'', Space0] s2 = Some a" by blast
  from match_Lit_sound[OF m2] obtain s3 where s3: "s2 = units ''deployed'' @ s3"
    and m3: "match_at [Space1, Lit ''to:'', Space0] s3 = Some a" by blast
  from match_Space1_sound[OF m3] obtain ws2 s4 where s4: "s3 = ws2 @ s4" "ws2 \<noteq> []" "list_all is_space ws2"
    and m4: "match_at [Lit ''to:'', Space0] s4 = Some a" by blast
  from match_Lit_sound[OF m4] obtain s5 where s5: "s4 = units ''to:'' @ s5"
    and m5: "match_at [Space0] s5 = Some a" by blast
  from match_Space0_sound[OF m5] obtain ws3 s6 where s6: "s5 = ws3 @ s6" "list_all is_space ws3"
    and m6: "match_at [] s6 = Some a" by blast
  from m6 match_address_sound[of s6 a] obtain rest where r: "is_address a" "s6 = a @ rest" by auto
  have "output = pre @ units ''DataLiquidityPoolProxy'' @ ws1 @ units ''deployed'' @ ws2
                      @ units ''to:'' @ ws3 @ a @ rest"
    by (simp only: o s1 s2(1) s3 s4(1) s5 s6(1) r(2))
  moreover have "set ws1 \<subseteq> white_space" "set ws2 \<subseteq> white_space" "set ws3 \<subseteq> white_space"
    using s2(3) s4(3) s6(2) by (simp_all only: all_space_iff)
  ultimately show ?thesis using r(1) s2(2) s4(2) by blast
qed

lemma proxy_complete:
  assumes "is_address a" "ws1 \<noteq> []" "set ws1 \<subseteq> white_space" "ws2 \<noteq> []" "set ws2 \<subseteq> white_space"
    "set ws3 \<subseteq> white_space"
  shows "js_match proxy_pattern
           (pre @ units ''DataLiquidityPoolProxy'' @ ws1 @ units ''deployed'' @ ws2
              @ units ''to:'' @ ws3 @ a @ rest) \<noteq> None"
proof -
  have sp1: "list_all is_space ws1" using assms(3) by (simp only: all_space_iff)
  have sp2: "list_all is_space ws2" using assms(5) by (simp only: all_space_iff)
  have sp3: "list_all is_space ws3" using assms(6) by (simp only: all_space_iff)
  have ns: "a @ rest = [] \<or> \<not> is_space (hd (a @ rest))"
    using address_no_space[OF assms(1)] by simp
  have n1: "units ''deployed'' @ x = [] \<or> \<not> is_space (hd (units ''deployed'' @ x))" for x
    by (simp add: is_space_def units_def)
  have n2: "units ''to:'' @ x = [] \<or> \<not> is_space (hd (units ''to:'' @ x))" for x
    by (simp add: is_space_def units_def)
  have "match_at proxy_pattern
          (units ''DataLiquidityPoolProxy'' @ ws1 @ units ''deployed'' @ ws2 @ units ''to:'' @ ws3 @ a @ rest)
        = Some a"
    unfolding proxy_pattern_def
    by (simp only: match_Lit match_Space1[OF assms(2) sp1 n1] match_Space1[OF assms(4) sp2 n2]
        match_Space0[OF sp3 ns] match_at.simps(1) match_address_complete[OF assms(1)])
  then have "match_at proxy_pattern
          (units ''DataLiquidityPoolProxy'' @ ws1 @ units ''deployed'' @ ws2 @ units ''to:'' @ ws3 @ a @ rest)
        \<noteq> None"
    by simp
  then show ?thesis unfolding js_match_def by (rule search_complete)
qed

lemma record_addresses_fields:
  "map_of (f_fields (record_addresses t p v d)) ''tokenAddress'' = Some (JStr t)"
  "map_of (f_fields (record_addresses t p v d)) ''proxyAddress'' = Some (JStr p)"
  "getp (map_of (f_fields (record_addresses t p v d)) ''contracts'') ''tokenAddress'' = Some (JStr t)"
  "getp (map_of (f_fields (record_addresses t p v d)) ''contracts'') ''proxyAddress'' = Some (JStr p)"
  "\<exists>st. f_state (record_addresses t p v d) = Some st \<and> map_of st ''contractsDeployed'' = Some True"
  "f_errors (record_addresses t p v d) = f_errors d"
  by (simp_all add: record_addresses_def Let_def AList.update_conv' split: option.splits)

lemma record_addresses_other:
  "k \<notin> {''contracts'', ''tokenAddress'', ''proxyAddress'', ''vestingAddress''}
     \<Longrightarrow> map_of (f_fields (record_addresses t p v d)) k = map_of (f_fields d) k"
  by (simp add: record_addresses_def Let_def AList.update_conv' split: option.splits)

lemma text_of_units: "text_of (units s) = s"
  by (induction s) (simp_all add: text_of_def units_def)

text \<open>
  Claim C3. \<open>deployContracts\<close> extracts the contract addresses from the console
  output of the deployment tool by regular expressions. Once \<open>deployment.json\<close> is read,
  the balance is not too low and the tool has returned its output (any sequence of
  code units): a token address is extracted exactly when the output contains
  'Token Address:', optional white space and \<open>0x\<close> with 40 hexadecimal digits
  (\<open>0\<close> to \<open>9\<close>, \<open>a\<close> to \<open>f\<close>, \<open>A\<close> to \<open>F\<close>), and it is the address of such an
  occurrence; the proxy address likewise comes from
  'DataLiquidityPoolProxy deployed to:' (white space between the words) or else from
  'Proxy deployed to:'. If the token address or the proxy address cannot be extracted
  the process exits with status 1 and \<open>deployment.json\<close> is left as it was. If both
  are extracted the run completes and the file then holds them under \<open>contracts\<close> and
  as the top-level fields \<open>tokenAddress\<close> and \<open>proxyAddress\<close>, with
  \<open>state.contractsDeployed\<close> true and all other fields and the errors unchanged.
\<close>

theorem deployContracts_extracts_and_records:
  assumes "deployment_json env = Some d" and "\<not> balance_too_low (balance env)"
    and "hardhat env = Inr output"
  shows "(\<forall>a. js_match token_pattern output = Some a \<longrightarrow>
            is_address a
            \<and> (\<exists>pre ws rest. output = pre @ units ''Token Address:'' @ ws @ a @ rest
                  \<and> set ws \<subseteq> white_space))
       \<and> (\<forall>a pre ws rest. is_address a \<and> set ws \<subseteq> white_space
              \<and> output = pre @ units ''Token Address:'' @ ws @ a @ rest
            \<longrightarrow> js_match token_pattern output \<noteq> None)
       \<and> (\<forall>a. js_match proxy_pattern output = Some a \<longrightarrow>
            is_address a
            \<and> (\<exists>pre ws1 ws2 ws3 rest.
                  output = pre @ units ''DataLiquidityPoolProxy'' @ ws1 @ units ''deployed'' @ ws2
                             @ units ''to:'' @ ws3 @ a @ rest
                  \<and> ws1 \<noteq> [] \<and> set ws1 \<subseteq> white_space \<and> ws2 \<noteq> [] \<and> set ws2 \<subseteq> white_space
                  \<and> set ws3 \<subseteq> white_space))
       \<and> (\<forall>a pre ws1 ws2 ws3 rest. is_address a \<and> ws1 \<noteq> [] \<and> set ws1 \<subseteq> white_space
              \<and> ws2 \<noteq> [] \<and> set ws2 \<subseteq> white_space \<and> set ws3 \<subseteq> white_space
              \<and> output = pre @ units ''DataLiquidityPoolProxy'' @ ws1 @ units ''deployed'' @ ws2
                           @ units ''to:'' @ ws3 @ a @ rest
            \<longrightarrow> js_match proxy_pattern output \<noteq> None)
       \<and> (\<forall>a. js_match alt_proxy_pattern output = Some a \<longrightarrow>
            is_address a
            \<and> (\<exists>pre ws rest. output = pre @ units ''Proxy deployed to:'' @ ws @ a @ rest
                  \<and> set ws \<subseteq> white_space))
       \<and> (\<forall>a pre ws rest. is_address a \<and> set ws \<subseteq> white_space
              \<and> output = pre @ units ''Proxy deployed to:'' @ ws @ a @ rest
            \<longrightarrow> js_match alt_proxy_pattern output \<noteq> None)
       \<and> (js_match token_pattern output = None
            \<or> (js_match proxy_pattern output = None \<and> js_match alt_proxy_pattern output = None)
            \<longrightarrow> deployContracts env = (Exited 1, Some d))
       \<and> (\<forall>t p. js_match token_pattern output = Some t
              \<and> (js_match proxy_pattern output = Some p
                  \<or> js_match proxy_pattern output = None \<and> js_match alt_proxy_pattern output = Some p)
            \<longrightarrow> (\<exists>j. deployContracts env = (Completed, Some j)
                  \<and> units (text_of t) = t \<and> units (text_of p) = p
                  \<and> map_of (f_fields j) ''tokenAddress'' = Some (JStr (text_of t))
                  \<and> map_of (f_fields j) ''proxyAddress'' = Some (JStr (text_of p))
                  \<and> getp (map_of (f_fields j) ''contracts'') ''tokenAddress'' = Some (JStr (text_of t))
                  \<and> getp (map_of (f_fields j) ''contracts'') ''proxyAddress'' = Some (JStr (text_of p))
                  \<and> (\<exists>st. f_state j = Some st \<and> map_of st ''contractsDeployed'' = Some True)
                  \<and> (\<forall>k. k \<notin> {''contracts'', ''tokenAddress'', ''proxyAddress'', ''vestingAddress''}
                         \<longrightarrow> map_of (f_fields j) k = map_of (f_fields d) k)
                  \<and> f_errors j = f_errors d))"
proof -
  have c1: "\<forall>a. js_match token_pattern output = Some a \<longrightarrow>
            is_address a
            \<and> (\<exists>pre ws rest. output = pre @ units ''Token Address:'' @ ws @ a @ rest
                  \<and> set ws \<subseteq> white_space)"
    using token_sound by blast
  have c2: "\<forall>a pre ws rest. is_address a \<and> set ws \<subseteq> white_space
              \<and> output = pre @ units ''Token Address:'' @ ws @ a @ rest
            \<longrightarrow> js_match token_pattern output \<noteq> None"
    using token_complete by blast
  have c3: "\<forall>a. js_match proxy_pattern output = Some a \<longrightarrow>
            is_address a
            \<and> (\<exists>pre ws1 ws2 ws3 rest.
                  output = pre @ units ''DataLiquidityPoolProxy'' @ ws1 @ units ''deployed'' @ ws2
                             @ units ''to:'' @ ws3 @ a @ rest
                  \<and> ws1 \<noteq> [] \<and> set ws1 \<subseteq> white_space \<and> ws2 \<noteq> [] \<and> set ws2 \<subseteq> white_space
                  \<and> set ws3 \<subseteq> white_space)"
    using proxy_sound by blast
  have c4: "\<forall>a pre ws1 ws2 ws3 rest. is_address a \<and> ws1 \<noteq> [] \<and> set ws1 \<subseteq> white_space
              \<and> ws2 \<noteq> [] \<and> set ws2 \<subseteq> white_space \<and> set ws3 \<subseteq> white_space
              \<and> output = pre @ units ''DataLiquidityPoolProxy'' @ ws1 @ units ''deployed'' @ ws2
                           @ units ''to:'' @ ws3 @ a @ rest
            \<longrightarrow> js_match proxy_pattern output \<noteq> None"
    using proxy_complete by blast
  have c5: "\<forall>a. js_match alt_proxy_pattern output = Some a \<longrightarrow>
            is_address a
            \<and> (\<exists>pre ws rest. output = pre @ units ''Proxy deployed to:'' @ ws @ a @ rest
                  \<and> set ws \<subseteq> white_space)"
    using alt_proxy_sound by blast
  have c6: "\<forall>a pre ws rest. is_address a \<and> set ws \<subseteq> white_space
              \<and> output = pre @ units ''Proxy deployed to:'' @ ws @ a @ rest
            \<longrightarrow> js_match alt_proxy_pattern output \<noteq> None"
    using alt_proxy_complete by blast
  have c7: "js_match token_pattern output = None
            \<or> (js_match proxy_pattern output = None \<and> js_match alt_proxy_pattern output = None)
            \<longrightarrow> deployContracts env = (Exited 1, Some d)"
    using assms by (auto simp: deployContracts_def Let_def split: option.splits)
  have c8: "\<forall>t p. js_match token_pattern output = Some t
              \<and> (js_match proxy_pattern output = Some p
                  \<or> js_match proxy_pattern output = None \<and> js_match alt_proxy_pattern output = Some p)
            \<longrightarrow> (\<exists>j. deployContracts env = (Completed, Some j)
                  \<and> units (text_of t) = t \<and> units (text_of p) = p
                  \<and> map_of (f_fields j) ''tokenAddress'' = Some (JStr (text_of t))
                  \<and> map_of (f_fields j) ''proxyAddress'' = Some (JStr (text_of p))
                  \<and> getp (map_of (f_fields j) ''contracts'') ''tokenAddress'' = Some (JStr (text_of t))
                  \<and> getp (map_of (f_fields j) ''contracts'') ''proxyAddress'' = Some (JStr (text_of p))
                  \<and> (\<exists>st. f_state j = Some st \<and> map_of st ''contractsDeployed'' = Some True)
                  \<and> (\<forall>k. k \<notin> {''contracts'', ''tokenAddress'', ''proxyAddress'', ''vestingAddress''}
                         \<longrightarrow> map_of (f_fields j) k = map_of (f_fields d) k)
                  \<and> f_errors j = f_errors d)"
  proof (intro allI impI)
    fix t p
    assume h: "js_match token_pattern output = Some t
              \<and> (js_match proxy_pattern output = Some p
                  \<or> js_match proxy_pattern output = None \<and> js_match alt_proxy_pattern output = Some p)"
    let ?v = "map_option text_of (js_match vesting_pattern output)"
    let ?j = "record_addresses (text_of t) (text_of p) ?v d"
    have run: "deployContracts env = (Completed, Some ?j)"
      using assms h by (auto simp: deployContracts_def Let_def split: option.splits)
    from h have "is_address t" using token_sound by blast
    then have ut: "units (text_of t) = t" by (rule address_text)
    from h have "is_address p" using proxy_sound alt_proxy_sound by blast
    then have up: "units (text_of p) = p" by (rule address_text)
    note f = record_addresses_fields[of "text_of t" "text_of p" ?v d]
    have o: "\<forall>k. k \<notin> {''contracts'', ''tokenAddress'', ''proxyAddress'', ''vestingAddress''}
                         \<longrightarrow> map_of (f_fields ?j) k = map_of (f_fields d) k"
      using record_addresses_other[of _ "text_of t" "text_of p" ?v d] by blast
    show "\<exists>j. deployContracts env = (Completed, Some j)
                  \<and> units (text_of t) = t \<and> units (text_of p) = p
                  \<and> map_of (f_fields j) ''tokenAddress'' = Some (JStr (text_of t))
                  \<and> map_of (f_fields j) ''proxyAddress'' = Some (JStr (text_of p))
                  \<and> getp (map_of (f_fields j) ''contracts'') ''tokenAddress'' = Some (JStr (text_of t))
                  \<and> getp (map_of (f_fields j) ''contracts'') ''proxyAddress'' = Some (JStr (text_of p))
                  \<and> (\<exists>st. f_state j = Some st \<and> map_of st ''contractsDeployed'' = Some True)
                  \<and> (\<forall>k. k \<notin> {''contracts'', ''tokenAddress'', ''proxyAddress'', ''vestingAddress''}
                         \<longrightarrow> map_of (f_fields j) k = map_of (f_fields d) k)
                  \<and> f_errors j = f_errors d"
      by (rule exI[of _ ?j], intro conjI) (rule run ut up f o)+
  qed
  from c1 c2 c3 c4 c5 c6 c7 c8 show ?thesis by (intro conjI)
qed

lemma example_matches:
  "js_match token_pattern example_output = Some (units ''0x00112233445566778899aAbBcCdDeEfF00112233'')"
  "js_match proxy_pattern example_output = None"
  "js_match alt_proxy_pattern example_output = Some (units ''0xffffffffffffffffffffffffffffffffffffffff'')"
proof -
  show "js_match token_pattern example_output = Some (units ''0x00112233445566778899aAbBcCdDeEfF00112233'')"
    by (simp add: js_match_def token_pattern_def example_output_def units_def is_space_def is_hex_def
        match_address_def Let_def)
  show "js_match proxy_pattern example_output = None"
    by (simp add: js_match_def proxy_pattern_def example_output_def units_def is_space_def is_hex_def
        match_address_def Let_def)
  show "js_match alt_proxy_pattern example_output = Some (units ''0xffffffffffffffffffffffffffffffffffffffff'')"
    by (simp add: js_match_def alt_proxy_pattern_def example_output_def units_def is_space_def is_hex_def
        match_address_def Let_def)
qed

theorem deployContracts_extracts_and_records_witness:
  "deployment_json example_deploy_env
     = Some \<lparr>f_fields = [(''dlpName'', JStr ''QuickstartDAO'')], f_state = None, f_errors = None\<rparr>
   \<and> \<not> balance_too_low (balance example_deploy_env)
   \<and> hardhat example_deploy_env = Inr example_output
   \<and> js_match token_pattern example_output = Some (units ''0x00112233445566778899aAbBcCdDeEfF00112233'')
   \<and> is_address (units ''0x00112233445566778899aAbBcCdDeEfF00112233'')
   \<and> js_match proxy_pattern example_output = None
   \<and> js_match alt_proxy_pattern example_output = Some (units ''0xffffffffffffffffffffffffffffffffffffffff'')
   \<and> (\<exists>j. deployContracts example_deploy_env = (Completed, Some j)
         \<and> map_of (f_fields j) ''tokenAddress'' = Some (JStr ''0x00112233445566778899aAbBcCdDeEfF00112233'')
         \<and> map_of (f_fields j) ''proxyAddress'' = Some (JStr ''0xffffffffffffffffffffffffffffffffffffffff'')
         \<and> getp (map_of (f_fields j) ''contracts'') ''proxyAddress''
             = Some (JStr ''0xffffffffffffffffffffffffffffffffffffffff'')
         \<and> (\<exists>st. f_state j = Some st \<and> map_of st ''contractsDeployed'' = Some True))"
proof -
  have h1: "deployment_json example_deploy_env
     = Some \<lparr>f_fields = [(''dlpName'', JStr ''QuickstartDAO'')], f_state = None, f_errors = None\<rparr>"
    by (simp add: example_deploy_env_def)
  have h2: "\<not> balance_too_low (balance example_deploy_env)"
    by (simp add: example_deploy_env_def balance_too_low_def)
  have h3: "hardhat example_deploy_env = Inr example_output"
    by (simp add: example_deploy_env_def)
  note t = deployContracts_extracts_and_records[OF h1 h2 h3]
  note m = example_matches
  have h4: "js_match token_pattern example_output = Some (units ''0x00112233445566778899aAbBcCdDeEfF00112233'')
      \<and> (js_match proxy_pattern example_output = Some (units ''0xffffffffffffffffffffffffffffffffffffffff'')
          \<or> js_match proxy_pattern example_output = None
            \<and> js_match alt_proxy_pattern example_output = Some (units ''0xffffffffffffffffffffffffffffffffffffffff''))"
    by (intro conjI disjI2) (rule m)+
  note a = t[THEN conjunct1, THEN spec, THEN mp, OF m(1), THEN conjunct1]
  note r = t[THEN conjunct2, THEN conjunct2, THEN conjunct2, THEN conjunct2, THEN conjunct2,
      THEN conjunct2, THEN conjunct2, THEN spec, THEN spec, THEN mp, OF h4, unfolded text_of_units]
  from r obtain j where jj: "deployContracts example_deploy_env = (Completed, Some j)
         \<and> units ''0x00112233445566778899aAbBcCdDeEfF00112233'' = units ''0x00112233445566778899aAbBcCdDeEfF00112233''
         \<and> units ''0xffffffffffffffffffffffffffffffffffffffff'' = units ''0xffffffffffffffffffffffffffffffffffffffff''
         \<and> map_of (f_fields j) ''tokenAddress'' = Some (JStr ''0x00112233445566778899aAbBcCdDeEfF00112233'')
         \<and> map_of (f_fields j) ''proxyAddress'' = Some (JStr ''0xffffffffffffffffffffffffffffffffffffffff'')
         \<and> getp (map_of (f_fields j) ''contracts'') ''tokenAddress''
             = Some (JStr ''0x00112233445566778899aAbBcCdDeEfF00112233'')
         \<and> getp (map_of (f_fields j) ''contracts'') ''proxyAddress''
             = Some (JStr ''0xffffffffffffffffffffffffffffffffffffffff'')
         \<and> (\<exists>st. f_state j = Some st \<and> map_of st ''contractsDeployed'' = Some True)
         \<and> (\<forall>k. k \<notin> {''contracts'', ''tokenAddress'', ''proxyAddress'', ''vestingAddress''}
                \<longrightarrow> map_of (f_fields j) k
                    = map_of (f_fields \<lparr>f_fields = [(''dlpName'', JStr ''QuickstartDAO'')], f_state = None,
                                           f_errors = None\<rparr>) k)
         \<and> f_errors j = f_errors \<lparr>f_fields = [(''dlpName'', JStr ''QuickstartDAO'')], f_state = None,
                                     f_errors = None\<rparr>"
    by (erule exE)
  note j = jj[THEN conjunct1]
    jj[THEN conjunct2, THEN conjunct2, THEN conjunct2, THEN conjunct1]
    jj[THEN conjunct2, THEN conjunct2, THEN conjunct2, THEN conjunct2, THEN conjunct1]
    jj[THEN conjunct2, THEN conjunct2, THEN conjunct2, THEN conjunct2, THEN conjunct2, THEN conjunct2,
      THEN conjunct1]
    jj[THEN conjunct2, THEN conjunct2, THEN conjunct2, THEN conjunct2, THEN conjunct2, THEN conjunct2,
      THEN conjunct2, THEN conjunct1]
  have e: "\<exists>j. deployContracts example_deploy_env = (Completed, Some j)
         \<and> map_of (f_fields j) ''tokenAddress'' = Some (JStr ''0x00112233445566778899aAbBcCdDeEfF00112233'')
         \<and> map_of (f_fields j) ''proxyAddress'' = Some (JStr ''0xffffffffffffffffffffffffffffffffffffffff'')
         \<and> getp (map_of (f_fields j) ''contracts'') ''proxyAddress''
             = Some (JStr ''0xffffffffffffffffffffffffffffffffffffffff'')
         \<and> (\<exists>st. f_state j = Some st \<and> map_of st ''contractsDeployed'' = Some True)"
    by (rule exI[of _ j], intro conjI) (rule j)+
  show ?thesis
    by (intro conjI) (rule h1 h2 h3 m a e)+
qed

section \<open>Properties of the contribution flow\<close>

lemmas flow_defs = handleContributeData_def executeSignMessageStep_def executeUploadDataStep_def
  executeBlockchainRegistrationStep_def executeProofAndRewardSteps_def executeTeeProofStep_def
  executeProcessProofStep_def executeClaimRewardStep_def setError_def setCurrentStep_def
  markStepComplete_def call_def UPLOAD_DATA_def BLOCKCHAIN_REGISTRATION_def REQUEST_TEE_PROOF_def
  PROCESS_PROOF_def CLAIM_REWARD_def

lemma flow_steps_in_order:
  "completedSteps (handleContributeData env initial_flow) \<in>
          {[], [1], [1, 2], [1, 2, 3], [1, 2, 3, 4], [1, 2, 3, 4, 5]}
   \<and> currentStep (handleContributeData env initial_flow)
        \<le> Suc (length (completedSteps (handleContributeData env initial_flow)))
   \<and> length (completedSteps (handleContributeData env initial_flow))
        \<le> currentStep (handleContributeData env initial_flow)
   \<and> prefix (calls (handleContributeData env initial_flow))
        [''signMessageAsync'', ''uploadData'', ''getDlpPublicKey'', ''encryptWithWalletPublicKey'',
         ''addFile'', ''requestContributionProof'', ''refine'', ''requestReward'']"
  by (simp add: flow_defs initial_flow_def Let_def split: sum.splits option.splits prod.splits)

lemma failure_before_step_5_sets_error:
  "completedSteps (handleContributeData env initial_flow) \<noteq> [1, 2, 3, 4, 5]
   \<Longrightarrow> flow_error (handleContributeData env initial_flow) \<noteq> None
       \<or> signMessage env = Inr [] \<or> extractFileId env = Inr 0"
  by (auto simp: flow_defs initial_flow_def Let_def split: sum.splits option.splits prod.splits if_splits)

lemma completed_steps_1_to_4_succeeded:
  "(1 \<in> set (completedSteps (handleContributeData env initial_flow))
       \<longrightarrow> (\<exists>u. uploadData env = Inr (Some u)))
   \<and> (2 \<in> set (completedSteps (handleContributeData env initial_flow))
       \<longrightarrow> addFile env \<and> (\<exists>f. extractFileId env = Inr f))
   \<and> (3 \<in> set (completedSteps (handleContributeData env initial_flow))
       \<longrightarrow> contributionProof env = Inr ())
   \<and> (4 \<in> set (completedSteps (handleContributeData env initial_flow))
       \<longrightarrow> refine env = Inr ())"
  by (simp add: flow_defs initial_flow_def Let_def split: sum.splits option.splits prod.splits)

text \<open>
  Claim C4 says that the five steps run strictly in order after the signing step,
  that a step starts only when the one before it succeeded and was marked complete,
  that a failure at any step stops the flow by setting an error, and that
  \<open>completedSteps\<close> only ever contains steps that finished successfully. The order and
  steps 1 to 4 are as claimed (the three lemmas above). Step 5 is not: \<open>requestReward\<close>
  resolves to null when the reward claim fails, and \<open>executeClaimRewardStep\<close> marks
  the step complete all the same, where steps 1 and 2 test their null result and
  set the error. In the run \<open>reward_fails\<close> the claim of the reward fails, yet
  \<open>completedSteps\<close> ends as 1 to 5, no error is set and \<open>isSuccess\<close> is true.
\<close>

theorem failed_reward_claim_marked_complete:
  "\<not> requestReward reward_fails
   \<and> completedSteps (handleContributeData reward_fails initial_flow) = [1, 2, 3, 4, 5]
   \<and> flow_error (handleContributeData reward_fails initial_flow) = None
   \<and> isSuccess (handleContributeData reward_fails initial_flow)"
  by (simp add: flow_defs reward_fails_def initial_flow_def Let_def)


section \<open>Properties of the encryption helper\<close>

lemma module_after_cases:
  "module_after n = fresh_module
   \<or> module_after n = \<lparr>generatedIV = Some fixed_iv, generatedEphemeralKey = Some fixed_ephemeral_key\<rparr>"
  by (induction n) (auto simp: getEncryptionParameters_def fresh_module_def Let_def)

lemma params_fixed:
  "fst (getEncryptionParameters (module_after n)) =
     \<lparr>iv = fixed_iv, ephemeralKey = fixed_ephemeral_key,
      ivHex = to_hex fixed_iv, ephemeralKeyHex = to_hex fixed_ephemeral_key\<rparr>"
  using module_after_cases[of n]
  by (auto simp: getEncryptionParameters_def fresh_module_def Let_def)

lemma hex_fixed:
  "to_hex fixed_iv = ''0102030405060708090a0b0c0d0e0f10''"
  "to_hex fixed_ephemeral_key = ''112233445566778899aabbccddeeff00102030405060708090a0b0c0d0e0f000''"
  by (simp_all add: to_hex_def fixed_iv_def fixed_ephemeral_key_def hex_digit_def)

text \<open>
  Claim C10. \<open>getEncryptionParameters\<close> returns the same hard-coded 16-byte IV and
  32-byte ephemeral private key on every call, whatever calls came before: they are
  constants of the source, not fresh random values. Hence \<open>encryptWithWalletPublicKey\<close>
  is deterministic: for every data string and public key, two invocations (at any
  time, in any state of the system's source of randomness) give the same result, the
  same hexadecimal text byte for byte. The library \<open>eccrypto\<close> is outside the
  repository; what is assumed of it is that it draws no randomness when both the IV
  and the ephemeral private key are supplied.
\<close>

theorem encryption_is_deterministic:
  assumes "\<And>r r' k m i e. encrypt r k m (Some i) (Some e) = encrypt r' k m (Some i) (Some e)"
  shows "fst (getEncryptionParameters (module_after n)) =
           \<lparr>iv = fixed_iv, ephemeralKey = fixed_ephemeral_key,
            ivHex = ''0102030405060708090a0b0c0d0e0f10'',
            ephemeralKeyHex = ''112233445566778899aabbccddeeff00102030405060708090a0b0c0d0e0f000''\<rparr>
       \<and> length fixed_iv = 16 \<and> length fixed_ephemeral_key = 32
       \<and> fst (encryptWithWalletPublicKey encrypt r (module_after n) data publicKey)
           = fst (encryptWithWalletPublicKey encrypt r' (module_after n') data publicKey)"
proof -
  have p: "fst (getEncryptionParameters (module_after k)) =
           \<lparr>iv = fixed_iv, ephemeralKey = fixed_ephemeral_key,
            ivHex = ''0102030405060708090a0b0c0d0e0f10'',
            ephemeralKeyHex = ''112233445566778899aabbccddeeff00102030405060708090a0b0c0d0e0f000''\<rparr>" for k
    by (simp only: params_fixed hex_fixed)
  have l: "length fixed_iv = 16 \<and> length fixed_ephemeral_key = 32"
    by (simp add: fixed_iv_def fixed_ephemeral_key_def)
  have e: "fst (encryptWithWalletPublicKey encrypt x (module_after k) data publicKey)
      = (case encrypt x
           (if length (from_hex (if startsWith publicKey ''0x'' then drop 2 publicKey else publicKey)) = 64
            then 4 # from_hex (if startsWith publicKey ''0x'' then drop 2 publicKey else publicKey)
            else from_hex (if startsWith publicKey ''0x'' then drop 2 publicKey else publicKey))
           (utf8 data) (Some fixed_iv) (Some fixed_ephemeral_key) of
           Inl e \<Rightarrow> Inl e
         | Inr b \<Rightarrow> Inr (to_hex (e_iv b @ ephemPublicKey b @ ciphertext b @ mac b)))" for x k
    using p[of k]
    by (cases "getEncryptionParameters (module_after k)")
       (simp add: encryptWithWalletPublicKey_def Let_def split: sum.splits)
  have d: "fst (encryptWithWalletPublicKey encrypt r (module_after n) data publicKey)
           = fst (encryptWithWalletPublicKey encrypt r' (module_after n') data publicKey)"
    unfolding e using assms[of r _ _ fixed_iv fixed_ephemeral_key r'] by simp
  from p l d show ?thesis by blast
qed

theorem encryption_is_deterministic_witness:
  "fst (encryptWithWalletPublicKey toy_encrypt [1, 2, 3] (module_after 0) ''ab'' ''0x04ff'')
     = fst (encryptWithWalletPublicKey toy_encrypt [9, 9] (module_after 2) ''ab'' ''0x04ff'')
   \<and> fst (getEncryptionParameters (module_after 2)) =
           \<lparr>iv = fixed_iv, ephemeralKey = fixed_ephemeral_key,
            ivHex = ''0102030405060708090a0b0c0d0e0f10'',
            ephemeralKeyHex = ''112233445566778899aabbccddeeff00102030405060708090a0b0c0d0e0f000''\<rparr>
   \<and> toy_encrypt [1, 2, 3] [4] [5] None None \<noteq> toy_encrypt [9, 9] [4] [5] None None"
proof -
  have h: "\<And>r r' k m i e. toy_encrypt r k m (Some i) (Some e) = toy_encrypt r' k m (Some i) (Some e)"
    by (simp add: toy_encrypt_def)
  note t = encryption_is_deterministic[of toy_encrypt, OF h,
      where n = 2 and n' = 2 and r = "[1, 2, 3]" and r' = "[9, 9]" and data = "''ab''"
        and publicKey = "''0x04ff''"]
  note t0 = encryption_is_deterministic[of toy_encrypt, OF h,
      where n = 0 and n' = 2 and r = "[1, 2, 3]" and r' = "[9, 9]" and data = "''ab''"
        and publicKey = "''0x04ff''"]
  have n: "toy_encrypt [1, 2, 3] [4] [5] None None \<noteq> toy_encrypt [9, 9] [4] [5] None None"
    by (simp add: toy_encrypt_def)
  from t t0 n show ?thesis by blast
qed


section \<open>Registration of the DataDAO (register:datadao)\<close>

lemma quiet_refl: "quiet run run"
  by (simp add: quiet_def)

lemma quiet_trans: "quiet r1 r2 \<Longrightarrow> quiet r2 r3 \<Longrightarrow> quiet r1 r3"
  unfolding quiet_def by (elim exE conjE) (rule_tac x = "ex @ exa" in exI, simp)

lemma quiet_imp_proper: "quiet r1 r2 \<Longrightarrow> registers_properly d a r1 r2"
  unfolding quiet_def registers_properly_def by blast

lemma quiet_then_proper:
  assumes "quiet r1 r2" and "registers_properly d a r2 r3"
  shows "registers_properly d a r1 r3"
proof -
  from assms(1) obtain e1 where e1: "events r2 = events r1 @ e1" "filter is_tx e1 = []"
    "filter is_write e1 = []" "disk r2 = disk r1"
    unfolding quiet_def by blast
  from assms(2) obtain e2 where e2: "events r3 = events r2 @ e2"
    "filter is_tx e2 = [] \<or> filter is_tx e2 = [SendTx ''registerDlp'' [registrationParams d a] one_VANA]"
    "(filter is_write e2 = [] \<and> disk r3 = disk r2)
       \<or> (\<exists>pre hash n. 0 < n
             \<and> e2 = pre @ [SendTx ''registerDlp'' [registrationParams d a] one_VANA,
                           WaitReceipt hash, RpcRead ''dlpIds'' [a], WriteFile (with_dlpId n d)]
             \<and> filter is_write pre = []
             \<and> disk r3 = Some (with_dlpId n d))"
    unfolding registers_properly_def by blast
  have a: "events r3 = events r1 @ (e1 @ e2)" using e1 e2 by simp
  have b: "filter is_tx (e1 @ e2) = []
      \<or> filter is_tx (e1 @ e2) = [SendTx ''registerDlp'' [registrationParams d a] one_VANA]"
    using e1(2) e2(2) by simp
  from e2(3) have c: "(filter is_write (e1 @ e2) = [] \<and> disk r3 = disk r1)
       \<or> (\<exists>pre hash n. 0 < n
             \<and> e1 @ e2 = pre @ [SendTx ''registerDlp'' [registrationParams d a] one_VANA,
                           WaitReceipt hash, RpcRead ''dlpIds'' [a], WriteFile (with_dlpId n d)]
             \<and> filter is_write pre = []
             \<and> disk r3 = Some (with_dlpId n d))"
  proof
    assume "filter is_write e2 = [] \<and> disk r3 = disk r2"
    then show ?thesis using e1 by simp
  next
    assume "\<exists>pre hash n. 0 < n
             \<and> e2 = pre @ [SendTx ''registerDlp'' [registrationParams d a] one_VANA,
                           WaitReceipt hash, RpcRead ''dlpIds'' [a], WriteFile (with_dlpId n d)]
             \<and> filter is_write pre = []
             \<and> disk r3 = Some (with_dlpId n d)"
    then obtain pre hash n where p: "0 < n"
      "e2 = pre @ [SendTx ''registerDlp'' [registrationParams d a] one_VANA,
                           WaitReceipt hash, RpcRead ''dlpIds'' [a], WriteFile (with_dlpId n d)]"
      "filter is_write pre = []" "disk r3 = Some (with_dlpId n d)" by blast
    have "e1 @ e2 = (e1 @ pre) @ [SendTx ''registerDlp'' [registrationParams d a] one_VANA,
                           WaitReceipt hash, RpcRead ''dlpIds'' [a], WriteFile (with_dlpId n d)]"
      using p(2) by simp
    moreover have "filter is_write (e1 @ pre) = []" using e1(3) p(3) by simp
    ultimately show ?thesis using p(1,4) by blast
  qed
  from a b c show ?thesis unfolding registers_properly_def by blast
qed

lemma quiet_emit_read: "quiet run (emit [RpcRead f as] run)"
  by (simp add: quiet_def emit_def is_tx_def is_write_def)

lemma quiet_read_dlpId: "quiet run (snd (read_dlpId env a run))"
  by (simp add: quiet_def read_dlpId_def is_tx_def is_write_def)

lemma filter_rsbs:
  "filter is_tx (reads_separated_by_sleeps (RpcRead f as) ms k) = []"
  "filter is_write (reads_separated_by_sleeps (RpcRead f as) ms k) = []"
  by (simp_all add: reads_separated_by_sleeps_def is_tx_def is_write_def filter_concat)

lemma filter_full:
  "filter is_tx (concat (replicate k [RpcRead f as, Sleep ms])) = []"
  "filter is_write (concat (replicate k [RpcRead f as, Sleep ms])) = []"
  by (simp_all add: is_tx_def is_write_def filter_concat)


lemma quiet_detect: "quiet run (snd (detect env a bound run))"
proof -
  obtain dlpId tr where dl: "detect_loop a (dlpIds env) (reads_done run) bound 0 0 = (dlpId, tr)"
    by (cases "detect_loop a (dlpIds env) (reads_done run) bound 0 0")
  from detect_loop_run[where addr = a and ids = "dlpIds env" and n = "reads_done run"
      and bound = bound and i = 0 and ?d0.0 = 0]
  obtain k where "tr = reads_separated_by_sleeps (RpcRead ''dlpIds'' [a]) 3000 k
      \<or> tr = concat (replicate k [RpcRead ''dlpIds'' [a], Sleep 3000])"
    using dl by auto
  then have "filter is_tx tr = [] \<and> filter is_write tr = []"
    using filter_rsbs filter_full by metis
  then show ?thesis
    by (simp add: detect_def dl quiet_def)
qed

lemma quiet_retry_menu: "quiet run (snd (snd (retry_menu env a as run)))"
proof (induction env a as run rule: retry_menu.induct)
  case (1 env addr run)
  show ?case by (simp add: quiet_refl)
next
  case (2 env addr a as run)
  show ?case
  proof (cases "ask_list [''retry'', ''check'', ''manual'', ''auto'', ''skip''] [a]")
    case None
    then show ?thesis by (simp add: quiet_refl)
  next
    case (Some p)
    obtain v x where p: "p = (v, x)" by (cases p)
    show ?thesis
    proof (cases "v = ''retry''")
      case True
      obtain dlpId run1 where d: "detect env addr 5 run = (dlpId, run1)"
        by (cases "detect env addr 5 run")
      have q1: "quiet run run1" using quiet_detect[of run env addr 5] d by simp
      show ?thesis
      proof (cases "dlpId > 0")
        case True
        with Some p \<open>v = ''retry''\<close> d q1 show ?thesis by simp
      next
        case False
        from "2.IH"(1)[OF Some p[symmetric] \<open>v = ''retry''\<close> refl d[symmetric] False]
        have "quiet run1 (snd (snd (retry_menu env addr as run1)))" .
        with q1 have "quiet run (snd (snd (retry_menu env addr as run1)))" by (rule quiet_trans)
        with Some p \<open>v = ''retry''\<close> d False show ?thesis by simp
      qed
    next
      case nr: False
      show ?thesis
      proof (cases "v = ''check''")
        case True
        from "2.IH"(2)[OF Some p[symmetric] nr True] Some p nr True show ?thesis by simp
      next
        case False
        with Some p nr show ?thesis
          by (auto simp: quiet_refl split: option.splits)
      qed
    qed
  qed
qed


lemma properI_quiet:
  assumes "events run' = events run @ ex" "filter is_tx ex = []" "filter is_write ex = []"
    "disk run' = disk run"
  shows "registers_properly d a run run'"
  using assms unfolding registers_properly_def by blast

lemma properI_tx:
  assumes "events run' = events run @ ex"
    "filter is_tx ex = [SendTx ''registerDlp'' [registrationParams d a] one_VANA]"
    "filter is_write ex = []" "disk run' = disk run"
  shows "registers_properly d a run run'"
  using assms unfolding registers_properly_def by blast

lemma properI_success:
  assumes "events run' = events run @ pre @ [SendTx ''registerDlp'' [registrationParams d a] one_VANA,
              WaitReceipt hash, RpcRead ''dlpIds'' [a], WriteFile (with_dlpId n d)]"
    "0 < n" "filter is_tx pre = []" "filter is_write pre = []" "disk run' = Some (with_dlpId n d)"
  shows "registers_properly d a run run'"
  unfolding registers_properly_def
proof (intro exI conjI)
  show "events run' = events run @ (pre @ [SendTx ''registerDlp'' [registrationParams d a] one_VANA,
              WaitReceipt hash, RpcRead ''dlpIds'' [a], WriteFile (with_dlpId n d)])"
    using assms(1) by simp
  show "filter is_tx (pre @ [SendTx ''registerDlp'' [registrationParams d a] one_VANA,
              WaitReceipt hash, RpcRead ''dlpIds'' [a], WriteFile (with_dlpId n d)]) = []
      \<or> filter is_tx (pre @ [SendTx ''registerDlp'' [registrationParams d a] one_VANA,
              WaitReceipt hash, RpcRead ''dlpIds'' [a], WriteFile (with_dlpId n d)])
         = [SendTx ''registerDlp'' [registrationParams d a] one_VANA]"
    using assms(3) by (simp add: is_tx_def)
  show "(filter is_write (pre @ [SendTx ''registerDlp'' [registrationParams d a] one_VANA,
              WaitReceipt hash, RpcRead ''dlpIds'' [a], WriteFile (with_dlpId n d)]) = []
         \<and> disk run' = disk run)
      \<or> (\<exists>pre' hash' n'. 0 < n'
            \<and> pre @ [SendTx ''registerDlp'' [registrationParams d a] one_VANA,
                 WaitReceipt hash, RpcRead ''dlpIds'' [a], WriteFile (with_dlpId n d)]
               = pre' @ [SendTx ''registerDlp'' [registrationParams d a] one_VANA,
                   WaitReceipt hash', RpcRead ''dlpIds'' [a], WriteFile (with_dlpId n' d)]
            \<and> filter is_write pre' = []
            \<and> disk run' = Some (with_dlpId n' d))"
    using assms(2,4,5) by blast
qed

lemma proper_attempt:
  "registers_properly d (jv (proxy_of d)) run (snd (snd (registration_attempt env d q as run)))"
proof (cases "account env")
  case (Inl e)
  then show ?thesis
    by (simp add: registration_attempt_def quiet_imp_proper quiet_refl)
next
  case (Inr address)
  let ?b = "RpcRead ''getBalance'' [JStr address]"
  let ?run1 = "emit [?b] run"
  show ?thesis
  proof (cases "case wallet_balance env of Inl e \<Rightarrow> True | Inr wei \<Rightarrow> \<not> wei < 1100000000000000000")
    case False
    then have "snd (snd (registration_attempt env d q as run)) = ?run1"
      using Inr by (simp add: registration_attempt_def Let_def)
    then show ?thesis by (simp add: quiet_imp_proper quiet_emit_read)
  next
    case bal: True
    show ?thesis
    proof (cases "proxy_of d")
      case None
      then have "snd (snd (registration_attempt env d q as run)) = ?run1"
        using Inr bal by (simp add: registration_attempt_def Let_def)
      then show ?thesis by (simp add: quiet_imp_proper quiet_emit_read)
    next
      case (Some a)
      let ?tx = "SendTx ''registerDlp'' [registrationParams d a] one_VANA"
      show ?thesis
      proof (cases "if q then Some (True, as) else ask_confirm as")
        case None
        then have "snd (snd (registration_attempt env d q as run)) = ?run1"
          using Inr bal Some by (simp add: registration_attempt_def Let_def)
        then show ?thesis by (simp add: quiet_imp_proper quiet_emit_read)
      next
        case conf: (Some p)
        obtain confirm as' where p: "p = (confirm, as')" by (cases p)
        show ?thesis
        proof (cases confirm)
          case False
          then have "snd (snd (registration_attempt env d q as run)) = ?run1"
            using Inr bal Some conf p by (simp add: registration_attempt_def Let_def)
          then show ?thesis by (simp add: quiet_imp_proper quiet_emit_read)
        next
          case True
          note pre = Inr bal Some conf p True
          show ?thesis
          proof (cases "writeContract env")
            case (Inl e)
            then have "snd (snd (registration_attempt env d q as run)) = emit [?tx] ?run1"
              using pre by (simp add: registration_attempt_def Let_def)
            then show ?thesis unfolding Some jv_def option.case
              by (intro properI_tx[where ex = "[?b, ?tx]"])
                 (simp_all add: emit_def is_tx_def is_write_def)
          next
            case wc: (Inr hash)
            show ?thesis
            proof (cases "receipt env")
              case (Inl e)
              then have "snd (snd (registration_attempt env d q as run))
                  = emit [WaitReceipt hash] (emit [?tx] ?run1)"
                using pre wc by (simp add: registration_attempt_def Let_def)
              then show ?thesis unfolding Some jv_def option.case
                by (intro properI_tx[where ex = "[?b, ?tx, WaitReceipt hash]"])
                   (simp_all add: emit_def is_tx_def is_write_def)
            next
              case rc: (Inr success)
              show ?thesis
              proof (cases success)
                case False
                then have "snd (snd (registration_attempt env d q as run))
                    = emit [WaitReceipt hash] (emit [?tx] ?run1)"
                  using pre wc rc by (simp add: registration_attempt_def Let_def)
                then show ?thesis unfolding Some jv_def option.case
                  by (intro properI_tx[where ex = "[?b, ?tx, WaitReceipt hash]"])
                     (simp_all add: emit_def is_tx_def is_write_def)
              next
                case succ: True
                let ?run3 = "emit [WaitReceipt hash] (emit [?tx] ?run1)"
                let ?n = "getDlpId (dlpIds env (reads_done run))"
                let ?run4 = "?run3\<lparr>events := events ?run3 @ [RpcRead ''dlpIds'' [a]],
                                   reads_done := Suc (reads_done ?run3)\<rparr>"
                have rd: "read_dlpId env a ?run3 = (?n, ?run4)"
                  by (simp add: read_dlpId_def emit_def)
                have ev4: "events ?run4 = events run @ [?b, ?tx, WaitReceipt hash, RpcRead ''dlpIds'' [a]]"
                  and dk4: "disk ?run4 = disk run"
                  by (simp_all add: emit_def)
                show ?thesis
                proof (cases "0 < ?n \<and> write_ok env")
                  case False
                  then have "snd (snd (registration_attempt env d q as run)) = ?run4"
                    using pre wc rc succ
                    by (auto simp: registration_attempt_def Let_def save_dlpId_def rd)
                  then show ?thesis unfolding Some jv_def option.case
                    by (intro properI_tx[where ex = "[?b, ?tx, WaitReceipt hash, RpcRead ''dlpIds'' [a]]"])
                       (simp_all add: ev4 dk4 is_tx_def is_write_def)
                next
                  case True
                  then have fin: "snd (snd (registration_attempt env d q as run))
                      = (emit [WriteFile (with_dlpId ?n d)] ?run4)\<lparr>disk := Some (with_dlpId ?n d)\<rparr>"
                    using pre wc rc succ
                    by (auto simp: registration_attempt_def Let_def save_dlpId_def rd)
                  show ?thesis unfolding Some jv_def option.case
                    by (intro properI_success[where pre = "[?b]" and hash = hash and n = ?n])
                       (use True in \<open>simp_all add: fin ev4 emit_def is_tx_def is_write_def\<close>)
                qed
              qed
            qed
          qed
        qed
      qed
    qed
  qed
qed

lemma proper_auto:
  "registers_properly d (jv (proxy_of d)) run (snd (snd (performAutomatedRegistration env d q as run)))"
proof -
  have "snd (snd (performAutomatedRegistration env d q as run)) = run
      \<or> snd (snd (performAutomatedRegistration env d q as run))
          = snd (snd (registration_attempt env d q as run))"
    by (auto simp: performAutomatedRegistration_def split: option.splits prod.splits res.splits thrown.splits)
  then show ?thesis
    using proper_attempt[of d run env q as] quiet_imp_proper[OF quiet_refl, of d "jv (proxy_of d)" run]
    by auto
qed


lemma proper_manual:
  "registers_properly d (jv (proxy_of d)) run (snd (snd (performManualRegistration env d as run)))"
proof (cases "ask_confirm as")
  case None
  then show ?thesis
    by (simp add: performManualRegistration_def quiet_imp_proper quiet_refl)
next
  case (Some p)
  obtain completed as1 where p: "p = (completed, as1)" by (cases p)
  show ?thesis
  proof (cases "if completed then Some (''completed'', as1) else manual_menu as1")
    case None
    with Some p show ?thesis
      by (simp add: performManualRegistration_def quiet_imp_proper quiet_refl)
  next
    case act: (Some q)
    obtain action as2 where q: "q = (action, as2)" by (cases q)
    note pre = Some p act q
    show ?thesis
    proof (cases "action = ''auto''")
      case True
      with pre have "performManualRegistration env d as run
          = performAutomatedRegistration env d False as2 run"
        by (simp add: performManualRegistration_def)
      then show ?thesis by (simp add: proper_auto)
    next
      case na: False
      show ?thesis
      proof (cases "action = ''skip''")
        case True
        with pre na show ?thesis
          by (simp add: performManualRegistration_def quiet_imp_proper quiet_refl)
      next
        case ns: False
        obtain dlpId run1 where dt: "detect env (jv (proxy_of d)) 10 run = (dlpId, run1)"
          by (cases "detect env (jv (proxy_of d)) 10 run")
        have q1: "quiet run run1" using quiet_detect[of run env "jv (proxy_of d)" 10] dt by simp
        show ?thesis
        proof (cases "dlpId = 0")
          case False
          with pre na ns dt have "snd (snd (performManualRegistration env d as run)) = run1"
            by (simp add: performManualRegistration_def)
          with q1 show ?thesis by (simp add: quiet_imp_proper)
        next
          case zero: True
          obtain r as3 run2 where rm: "retry_menu env (jv (proxy_of d)) as2 run1 = (r, as3, run2)"
            by (cases "retry_menu env (jv (proxy_of d)) as2 run1")
          have q2: "quiet run1 run2"
            using quiet_retry_menu[of run1 env "jv (proxy_of d)" as2] rm by simp
          have q12: "quiet run run2" using q1 q2 by (rule quiet_trans)
          show ?thesis
          proof (cases "r = Ok None")
            case True
            with pre na ns dt zero rm have "performManualRegistration env d as run
                = performAutomatedRegistration env d False as3 run2"
              by (simp add: performManualRegistration_def)
            then show ?thesis
              using quiet_then_proper[OF q12 proper_auto[of d run2 env False as3]] by simp
          next
            case False
            with pre na ns dt zero rm have "snd (snd (performManualRegistration env d as run)) = run2"
              by (cases r) (auto simp: performManualRegistration_def split: option.splits)
            with q12 show ?thesis by (simp add: quiet_imp_proper)
          qed
        qed
      qed
    qed
  qed
qed


lemma proper_register:
  assumes "deployment_file env = Some d" and "proxy_of d = Some a"
    and "getDlpId (dlpIds env 0) = 0"
  shows "registers_properly d a (start_run env) (snd (snd (registerDataDAO env as)))"
proof -
  let ?run0 = "start_run env"
  let ?run1 = "?run0\<lparr>events := events ?run0 @ [RpcRead ''dlpIds'' [a]],
          reads_done := Suc (reads_done ?run0)\<rparr>"
  let ?run2 = "emit [RpcRead ''dlpNameToId'' [jv (map_of (f_fields d) ''dlpName'')]] ?run1"
  let ?q = "QUICK_MODE env \<or> map_of (f_fields d) ''quickMode'' = Some (JBool True)"
  have r1: "read_dlpId env a ?run0 = (0, ?run1)"
    using assms(3) by (simp add: read_dlpId_def start_run_def)
  have q01: "quiet ?run0 ?run1"
    by (simp add: quiet_def is_tx_def is_write_def)
  have q02: "quiet ?run0 ?run2"
    by (rule quiet_trans[OF q01 quiet_emit_read])
  have a: "jv (proxy_of d) = a" using assms(2) by (simp add: jv_def)
  note pre = assms(1,2) r1
  show ?thesis
  proof (cases "case dlpNameToId env of Inl e \<Rightarrow> True | Inr dlpId \<Rightarrow> \<not> dlpId > 0")
    case False
    then have "snd (snd (registerDataDAO env as)) = ?run2"
      by (simp add: registerDataDAO_def pre Let_def)
    with q02 show ?thesis by (simp add: quiet_imp_proper)
  next
    case av: True
    obtain m as1 where cm: "choose_method ?q as = (m, as1)"
      by (cases "choose_method ?q as")
    show ?thesis
    proof (cases m)
      case Wait
      then have "snd (snd (registerDataDAO env as)) = ?run2"
        using av by (simp add: registerDataDAO_def pre Let_def cm)
      with q02 show ?thesis by (simp add: quiet_imp_proper)
    next
      case (Throw e)
      then have "snd (snd (registerDataDAO env as)) = ?run2"
        using av by (simp add: registerDataDAO_def pre Let_def cm)
      with q02 show ?thesis by (simp add: quiet_imp_proper)
    next
      case (Ok chosen)
      show ?thesis
      proof (cases "chosen = ''auto''")
        case True
        obtain r as2 run3 where pa: "performAutomatedRegistration env d ?q as1 ?run2 = (r, as2, run3)"
          by (cases "performAutomatedRegistration env d ?q as1 ?run2")
        have "snd (snd (registerDataDAO env as)) = run3"
          using av Ok True
          by (cases r) (simp_all add: registerDataDAO_def pre Let_def cm pa)
        moreover have "registers_properly d a ?run0 run3"
          using quiet_then_proper[OF q02 proper_auto[of d ?run2 env ?q as1]] a pa by simp
        ultimately show ?thesis by simp
      next
        case False
        obtain r as2 run3 where pm: "performManualRegistration env d as1 ?run2 = (r, as2, run3)"
          by (cases "performManualRegistration env d as1 ?run2")
        have "snd (snd (registerDataDAO env as)) = run3"
          using av Ok False
          by (cases r) (simp_all add: registerDataDAO_def pre Let_def cm pm)
        moreover have "registers_properly d a ?run0 run3"
          using quiet_then_proper[OF q02 proper_manual[of d ?run2 env as1]] a pm by simp
        ultimately show ?thesis by simp
      qed
    qed
  qed
qed


lemma register_first_event:
  assumes "deployment_file env = Some d" and "proxy_of d = Some a"
  shows "\<exists>rest. events (snd (snd (registerDataDAO env as))) = RpcRead ''dlpIds'' [a] # rest"
proof (cases "0 < getDlpId (dlpIds env 0)")
  case True
  then show ?thesis using assms
    by (simp add: registerDataDAO_def read_dlpId_def start_run_def save_dlpId_def emit_def Let_def)
next
  case False
  then have z: "getDlpId (dlpIds env 0) = 0" by simp
  from proper_register[OF assms z, of as]
  obtain ex where "events (snd (snd (registerDataDAO env as))) = events (start_run env) @ ex"
    unfolding registers_properly_def by blast
  then have e: "events (snd (snd (registerDataDAO env as))) = ex" by (simp add: start_run_def)
  have "\<exists>rest. events (snd (snd (registerDataDAO env as))) = RpcRead ''dlpIds'' [a] # rest"
  proof -
    let ?run0 = "start_run env"
    let ?run1 = "?run0\<lparr>events := events ?run0 @ [RpcRead ''dlpIds'' [a]],
          reads_done := Suc (reads_done ?run0)\<rparr>"
    let ?run2 = "emit [RpcRead ''dlpNameToId'' [jv (map_of (f_fields d) ''dlpName'')]] ?run1"
    let ?q = "QUICK_MODE env \<or> map_of (f_fields d) ''quickMode'' = Some (JBool True)"
    have r1: "read_dlpId env a ?run0 = (0, ?run1)"
      using z by (simp add: read_dlpId_def start_run_def)
    have ev2: "events ?run2 = [RpcRead ''dlpIds'' [a],
        RpcRead ''dlpNameToId'' [jv (map_of (f_fields d) ''dlpName'')]]"
      by (simp add: emit_def start_run_def)
    have ext: "\<exists>ex. events run' = events ?run2 @ ex
        \<Longrightarrow> \<exists>rest. events run' = RpcRead ''dlpIds'' [a] # rest" for run'
      unfolding ev2 by auto
    have pj: "jv (proxy_of d) = a" using assms(2) by (simp add: jv_def)
    note pre = assms(1,2) r1
    show ?thesis
    proof (cases "case dlpNameToId env of Inl e \<Rightarrow> True | Inr dlpId \<Rightarrow> \<not> dlpId > 0")
      case False
      then have "snd (snd (registerDataDAO env as)) = ?run2"
        by (simp add: registerDataDAO_def pre Let_def)
      then show ?thesis by (simp add: ev2)
    next
      case av: True
      obtain m as1 where cm: "choose_method ?q as = (m, as1)"
        by (cases "choose_method ?q as")
      show ?thesis
      proof (cases m)
        case Wait
        then have "snd (snd (registerDataDAO env as)) = ?run2"
          using av by (simp add: registerDataDAO_def pre Let_def cm)
        then show ?thesis by (simp add: ev2)
      next
        case (Throw e)
        then have "snd (snd (registerDataDAO env as)) = ?run2"
          using av by (simp add: registerDataDAO_def pre Let_def cm)
        then show ?thesis by (simp add: ev2)
      next
        case (Ok chosen)
        show ?thesis
        proof (cases "chosen = ''auto''")
          case True
          obtain r as2 run3 where pa: "performAutomatedRegistration env d ?q as1 ?run2 = (r, as2, run3)"
            by (cases "performAutomatedRegistration env d ?q as1 ?run2")
          have "snd (snd (registerDataDAO env as)) = run3"
            using av Ok True
            by (cases r) (simp_all add: registerDataDAO_def pre Let_def cm pa)
          moreover have "\<exists>ex. events run3 = events ?run2 @ ex"
            using proper_auto[of d ?run2 env ?q as1] pa
            unfolding registers_properly_def by auto
          ultimately show ?thesis using ext by simp
        next
          case False
          obtain r as2 run3 where pm: "performManualRegistration env d as1 ?run2 = (r, as2, run3)"
            by (cases "performManualRegistration env d as1 ?run2")
          have "snd (snd (registerDataDAO env as)) = run3"
            using av Ok False
            by (cases r) (simp_all add: registerDataDAO_def pre Let_def cm pm)
          moreover have "\<exists>ex. events run3 = events ?run2 @ ex"
            using proper_manual[of d ?run2 env as1] pm
            unfolding registers_properly_def by auto
          ultimately show ?thesis using ext by simp
        qed
      qed
    qed
  qed
  then show ?thesis .
qed

lemma register_existing:
  assumes "deployment_file env = Some d" and "proxy_of d = Some a"
    and "0 < getDlpId (dlpIds env 0)"
  shows "fst (registerDataDAO env as) = Ok ()"
    and "fst (snd (registerDataDAO env as)) = as"
    and "filter is_tx (events (snd (snd (registerDataDAO env as)))) = []"
    and "write_ok env \<Longrightarrow> disk (snd (snd (registerDataDAO env as)))
           = Some (with_dlpId (getDlpId (dlpIds env 0)) d)"
    and "\<not> write_ok env \<Longrightarrow> disk (snd (snd (registerDataDAO env as))) = Some d"
  using assms
  by (simp_all add: registerDataDAO_def read_dlpId_def start_run_def save_dlpId_def emit_def Let_def
      is_tx_def)

lemma register_automated:
  assumes "deployment_file env = Some d" and "proxy_of d = Some a"
    and "getDlpId (dlpIds env 0) = 0"
    and "case dlpNameToId env of Inl e \<Rightarrow> True | Inr i \<Rightarrow> i = 0"
    and "choose_method (QUICK_MODE env \<or> map_of (f_fields d) ''quickMode'' = Some (JBool True)) as
           = (Ok ''auto'', as1)"
    and "(if QUICK_MODE env \<or> map_of (f_fields d) ''quickMode'' = Some (JBool True)
          then Some (True, as1) else ask_confirm as1) = Some (True, as2)"
    and "contracts_env env = Some (Some key)" and "account env = Inr address"
    and "case wallet_balance env of Inl e \<Rightarrow> True | Inr wei \<Rightarrow> 1100000000000000000 \<le> wei"
    and "writeContract env = Inr hash" and "receipt env = Inr True"
    and "getDlpId (dlpIds env 1) = n" and "0 < n" and "write_ok env"
  shows "registerDataDAO env as =
           (Ok (), as2,
            \<lparr>events = [RpcRead ''dlpIds'' [a],
                       RpcRead ''dlpNameToId'' [jv (map_of (f_fields d) ''dlpName'')],
                       RpcRead ''getBalance'' [JStr address],
                       SendTx ''registerDlp'' [registrationParams d a] one_VANA,
                       WaitReceipt hash,
                       RpcRead ''dlpIds'' [a],
                       WriteFile (with_dlpId n d)],
             reads_done = 2,
             disk = Some (with_dlpId n d)\<rparr>)"
proof -
  let ?run0 = "start_run env"
  let ?run1 = "?run0\<lparr>events := events ?run0 @ [RpcRead ''dlpIds'' [a]],
          reads_done := Suc (reads_done ?run0)\<rparr>"
  let ?run2 = "emit [RpcRead ''dlpNameToId'' [jv (map_of (f_fields d) ''dlpName'')]] ?run1"
  let ?q = "QUICK_MODE env \<or> map_of (f_fields d) ''quickMode'' = Some (JBool True)"
  have r1: "read_dlpId env a ?run0 = (0, ?run1)"
    using assms(3) by (simp add: read_dlpId_def start_run_def)
  have av: "(case dlpNameToId env of Inl e \<Rightarrow> True | Inr dlpId \<Rightarrow> \<not> dlpId > 0)"
    using assms(4) by (simp split: sum.splits)
  have bal: "(case wallet_balance env of Inl e \<Rightarrow> True | Inr wei \<Rightarrow> \<not> wei < 1100000000000000000)"
    using assms(9) by (simp split: sum.splits)
  have att: "registration_attempt env d ?q as1 ?run2 =
      (Ok True, as2,
            \<lparr>events = [RpcRead ''dlpIds'' [a],
                       RpcRead ''dlpNameToId'' [jv (map_of (f_fields d) ''dlpName'')],
                       RpcRead ''getBalance'' [JStr address],
                       SendTx ''registerDlp'' [registrationParams d a] one_VANA,
                       WaitReceipt hash,
                       RpcRead ''dlpIds'' [a],
                       WriteFile (with_dlpId n d)],
             reads_done = 2,
             disk = Some (with_dlpId n d)\<rparr>)"
    using assms(2,6,8,10,11,12,13,14) bal
    by (simp add: registration_attempt_def Let_def emit_def read_dlpId_def save_dlpId_def
        start_run_def)
  have "performAutomatedRegistration env d ?q as1 ?run2 = registration_attempt env d ?q as1 ?run2"
    using assms(7) by (simp add: performAutomatedRegistration_def att)
  then show ?thesis
    using assms(1,2,5) av
    by (simp add: registerDataDAO_def r1 Let_def att)
qed

lemma with_dlpId_records:
  "map_of (f_fields (with_dlpId n d)) ''dlpId'' = Some (JNum (int n))"
  "\<exists>st. f_state (with_dlpId n d) = Some st \<and> map_of st ''dataDAORegistered'' = Some True"
  by (simp_all add: with_dlpId_def AList.update_conv')


text \<open>
  Claim C1, as stated, fails: with no existing registration the script does not always
  submit a \<open>registerDlp\<close> transaction. When the registry already maps the chosen name
  to another DataDAO, the script throws before any method is chosen: no transaction is
  sent and \<open>deployment.json\<close> is left as it was.
\<close>

theorem name_taken_no_transaction_counterexample:
  "deployment_file name_taken_env = Some unregistered
   \<and> proxy_of unregistered = Some (JStr ''0xbbbb'')
   \<and> getDlpId (dlpIds name_taken_env 0) = 0
   \<and> fst (registerDataDAO name_taken_env []) = Throw (Error (''DLP name '' @ [CHR 0x22] @ ''QuickstartDAO'' @ [CHR 0x22] @ '' is already taken (dlpId: 5)''))
   \<and> filter is_tx (events (snd (snd (registerDataDAO name_taken_env [])))) = []
   \<and> disk (snd (snd (registerDataDAO name_taken_env []))) = Some unregistered"
  by (simp add: registerDataDAO_def name_taken_env_def unregistered_def proxy_of_def getDlpId_def
      read_dlpId_def start_run_def emit_def js_text_def jv_def is_tx_def Let_def decimal.simps)

text \<open>
  Claim C1, amended. When \<open>deployment.json\<close> is readable and holds a proxy address,
  the first effect of the script is the read \<open>dlpIds(proxyAddress)\<close>. If that read gives
  a positive dlpId, the script completes without sending any transaction and, when the
  file can be written, records the dlpId and sets \<open>state.dataDAORegistered\<close>. If it
  gives zero, the script sends at most one transaction, \<open>registerDlp\<close> with a value of
  1 VANA, and writes \<open>deployment.json\<close> only after that transaction, the wait for its
  receipt and a new \<open>dlpIds\<close> read that returned a positive dlpId. When moreover the name
  is available, the automated method is chosen and confirmed, the private key and the
  account are available, the balance suffices, the transaction succeeds and the new read
  returns \<open>n > 0\<close>, the run is exactly: read, name check, balance check, transaction with
  1 VANA, receipt, read, write of the file with \<open>dlpId = n\<close> and
  \<open>state.dataDAORegistered = true\<close>.
\<close>

theorem registration_checks_registry_first:
  assumes "deployment_file env = Some d" and "proxy_of d = Some a"
  shows "(\<exists>rest. events (snd (snd (registerDataDAO env as))) = RpcRead ''dlpIds'' [a] # rest)
       \<and> (0 < getDlpId (dlpIds env 0) \<longrightarrow>
            fst (registerDataDAO env as) = Ok ()
            \<and> filter is_tx (events (snd (snd (registerDataDAO env as)))) = []
            \<and> (write_ok env \<longrightarrow>
                 disk (snd (snd (registerDataDAO env as))) = Some (with_dlpId (getDlpId (dlpIds env 0)) d)))
       \<and> (getDlpId (dlpIds env 0) = 0 \<longrightarrow>
            registers_properly d a (start_run env) (snd (snd (registerDataDAO env as))))
       \<and> (getDlpId (dlpIds env 0) = 0
            \<and> (case dlpNameToId env of Inl e \<Rightarrow> True | Inr i \<Rightarrow> i = 0)
            \<and> choose_method (QUICK_MODE env \<or> map_of (f_fields d) ''quickMode'' = Some (JBool True)) as
                 = (Ok ''auto'', as1)
            \<and> (if QUICK_MODE env \<or> map_of (f_fields d) ''quickMode'' = Some (JBool True)
                then Some (True, as1) else ask_confirm as1) = Some (True, as2)
            \<and> contracts_env env = Some (Some key) \<and> account env = Inr address
            \<and> (case wallet_balance env of Inl e \<Rightarrow> True | Inr wei \<Rightarrow> 1100000000000000000 \<le> wei)
            \<and> writeContract env = Inr hash \<and> receipt env = Inr True
            \<and> getDlpId (dlpIds env 1) = n \<and> 0 < n \<and> write_ok env
          \<longrightarrow> registerDataDAO env as =
                (Ok (), as2,
                 \<lparr>events = [RpcRead ''dlpIds'' [a],
                            RpcRead ''dlpNameToId'' [jv (map_of (f_fields d) ''dlpName'')],
                            RpcRead ''getBalance'' [JStr address],
                            SendTx ''registerDlp'' [registrationParams d a] one_VANA,
                            WaitReceipt hash,
                            RpcRead ''dlpIds'' [a],
                            WriteFile (with_dlpId n d)],
                  reads_done = 2,
                  disk = Some (with_dlpId n d)\<rparr>))
       \<and> map_of (f_fields (with_dlpId n d)) ''dlpId'' = Some (JNum (int n))
       \<and> (\<exists>st. f_state (with_dlpId n d) = Some st \<and> map_of st ''dataDAORegistered'' = Some True)
       \<and> one_VANA = 10 ^ 18"
proof -
  note c1 = register_first_event[OF assms, of as]
  have c2: "0 < getDlpId (dlpIds env 0) \<longrightarrow>
            fst (registerDataDAO env as) = Ok ()
            \<and> filter is_tx (events (snd (snd (registerDataDAO env as)))) = []
            \<and> (write_ok env \<longrightarrow>
                 disk (snd (snd (registerDataDAO env as))) = Some (with_dlpId (getDlpId (dlpIds env 0)) d))"
    using register_existing(1,3,4)[OF assms, of as] by blast
  have c3: "getDlpId (dlpIds env 0) = 0 \<longrightarrow>
            registers_properly d a (start_run env) (snd (snd (registerDataDAO env as)))"
    using proper_register[OF assms, of as] by blast
  have c4: "getDlpId (dlpIds env 0) = 0
            \<and> (case dlpNameToId env of Inl e \<Rightarrow> True | Inr i \<Rightarrow> i = 0)
            \<and> choose_method (QUICK_MODE env \<or> map_of (f_fields d) ''quickMode'' = Some (JBool True)) as
                 = (Ok ''auto'', as1)
            \<and> (if QUICK_MODE env \<or> map_of (f_fields d) ''quickMode'' = Some (JBool True)
                then Some (True, as1) else ask_confirm as1) = Some (True, as2)
            \<and> contracts_env env = Some (Some key) \<and> account env = Inr address
            \<and> (case wallet_balance env of Inl e \<Rightarrow> True | Inr wei \<Rightarrow> 1100000000000000000 \<le> wei)
            \<and> writeContract env = Inr hash \<and> receipt env = Inr True
            \<and> getDlpId (dlpIds env 1) = n \<and> 0 < n \<and> write_ok env
          \<longrightarrow> registerDataDAO env as =
                (Ok (), as2,
                 \<lparr>events = [RpcRead ''dlpIds'' [a],
                            RpcRead ''dlpNameToId'' [jv (map_of (f_fields d) ''dlpName'')],
                            RpcRead ''getBalance'' [JStr address],
                            SendTx ''registerDlp'' [registrationParams d a] one_VANA,
                            WaitReceipt hash,
                            RpcRead ''dlpIds'' [a],
                            WriteFile (with_dlpId n d)],
                  reads_done = 2,
                  disk = Some (with_dlpId n d)\<rparr>)"
    using register_automated[OF assms, of as as1 as2 key address hash n] by blast
  note c5 = with_dlpId_records[of n d]
  have c6: "one_VANA = 10 ^ 18" by (simp add: one_VANA_def)
  from c1 c2 c3 c4 c5 c6 show ?thesis by (intro conjI)
qed

theorem registration_checks_registry_first_witness:
  "deployment_file happy_env = Some unregistered
   \<and> proxy_of unregistered = Some (JStr ''0xbbbb'')
   \<and> getDlpId (dlpIds happy_env 0) = 0
   \<and> registers_properly unregistered (JStr ''0xbbbb'') (start_run happy_env)
        (snd (snd (registerDataDAO happy_env [Pick ''auto'', Yes])))
   \<and> registerDataDAO happy_env [Pick ''auto'', Yes] =
        (Ok (), [],
         \<lparr>events = [RpcRead ''dlpIds'' [JStr ''0xbbbb''],
                    RpcRead ''dlpNameToId'' [JStr ''QuickstartDAO''],
                    RpcRead ''getBalance'' [JStr ''0xaaaa''],
                    SendTx ''registerDlp'' [registrationParams unregistered (JStr ''0xbbbb'')] one_VANA,
                    WaitReceipt ''0xhash'',
                    RpcRead ''dlpIds'' [JStr ''0xbbbb''],
                    WriteFile (with_dlpId 7 unregistered)],
          reads_done = 2,
          disk = Some (with_dlpId 7 unregistered)\<rparr>)
   \<and> deployment_file registered_env = Some unregistered
   \<and> 0 < getDlpId (dlpIds registered_env 0)
   \<and> write_ok registered_env
   \<and> fst (registerDataDAO registered_env []) = Ok ()
   \<and> filter is_tx (events (snd (snd (registerDataDAO registered_env [])))) = []
   \<and> disk (snd (snd (registerDataDAO registered_env []))) = Some (with_dlpId 9 unregistered)"
proof -
  have d1: "deployment_file happy_env = Some unregistered" by (simp add: happy_env_def)
  have d2: "deployment_file registered_env = Some unregistered" by (simp add: registered_env_def)
  have p: "proxy_of unregistered = Some (JStr ''0xbbbb'')"
    by (simp add: proxy_of_def unregistered_def)
  have z: "getDlpId (dlpIds happy_env 0) = 0" by (simp add: happy_env_def getDlpId_def)
  have e9: "getDlpId (dlpIds registered_env 0) = 9" by (simp add: registered_env_def getDlpId_def)
  have e: "0 < getDlpId (dlpIds registered_env 0)" by (simp add: e9)
  have w: "write_ok registered_env" by (simp add: registered_env_def)
  have nm: "jv (map_of (f_fields unregistered) ''dlpName'') = JStr ''QuickstartDAO''"
    by (simp add: jv_def unregistered_def)
  have h: "getDlpId (dlpIds happy_env 0) = 0
            \<and> (case dlpNameToId happy_env of Inl e \<Rightarrow> True | Inr i \<Rightarrow> i = 0)
            \<and> choose_method (QUICK_MODE happy_env
                  \<or> map_of (f_fields unregistered) ''quickMode'' = Some (JBool True)) [Pick ''auto'', Yes]
                 = (Ok ''auto'', [Yes])
            \<and> (if QUICK_MODE happy_env \<or> map_of (f_fields unregistered) ''quickMode'' = Some (JBool True)
                then Some (True, [Yes]) else ask_confirm [Yes]) = Some (True, [])
            \<and> contracts_env happy_env = Some (Some ''0x01'') \<and> account happy_env = Inr ''0xaaaa''
            \<and> (case wallet_balance happy_env of Inl e \<Rightarrow> True | Inr wei \<Rightarrow> 1100000000000000000 \<le> wei)
            \<and> writeContract happy_env = Inr ''0xhash'' \<and> receipt happy_env = Inr True
            \<and> getDlpId (dlpIds happy_env 1) = 7 \<and> 0 < (7::nat) \<and> write_ok happy_env"
    by (simp add: happy_env_def unregistered_def getDlpId_def choose_method_def)
  note t = registration_checks_registry_first[OF d1 p, where as = "[Pick ''auto'', Yes]"
      and ?as1.0 = "[Yes]" and ?as2.0 = "[]" and key = "''0x01''" and address = "''0xaaaa''"
      and hash = "''0xhash''" and n = 7]
  note t3 = t[THEN conjunct2, THEN conjunct2, THEN conjunct1, THEN mp, OF z]
  note t4 = t[THEN conjunct2, THEN conjunct2, THEN conjunct2, THEN conjunct1, THEN mp, OF h,
      unfolded nm]
  note u = registration_checks_registry_first[OF d2 p, where as = "[]"]
  note u2 = u[THEN conjunct2, THEN conjunct1, THEN mp, OF e]
  note u2a = u2[THEN conjunct1]
  note u2b = u2[THEN conjunct2, THEN conjunct1]
  note u2c = u2[THEN conjunct2, THEN conjunct2, THEN mp, OF w, unfolded e9]
  show ?thesis
    by (intro conjI) (rule d1 p z t3 t4 d2 e w u2a u2b u2c)+
qed

section \<open>The backup file and completion tracking\<close>

subsection \<open>The backup file\<close>

text \<open>
  Claim C8. Whenever \<open>saveState\<close> runs and \<open>deployment.json\<close> exists, the previous
  contents of the file are copied to \<open>deployment.json.backup\<close> before the new state is
  written. Hence after \<open>updateState\<close>, \<open>updateDeployment\<close>, \<open>recordError\<close>,
  \<open>clearError\<close> of a step that has an error, and \<open>markCompleted\<close> without data, the
  backup holds the snapshot that was on disk before the operation (\<open>clearError\<close> of a
  step without an error writes nothing). \<open>markCompleted\<close> with data saves twice, and
  afterwards the backup holds the snapshot that was on disk immediately before its
  last write: the one written by its first save, with the step's flag set and the data
  not yet merged.
\<close>

theorem backup_holds_snapshot_before_last_write:
  assumes "dfile m = Some old"
  shows "backup (saveState newState m) = Some old
       \<and> dfile (saveState newState m) = Some (case newState of Some n \<Rightarrow> n | None \<Rightarrow> stringify (this_state m))
       \<and> backup (updateState flag_updates m) = Some old
       \<and> backup (updateDeployment data m) = Some old
       \<and> backup (recordError step error now m) = Some old
       \<and> (map_of (errors (this_state m)) step \<noteq> None \<longrightarrow> backup (clearError step m) = Some old)
       \<and> (map_of (errors (this_state m)) step = None \<longrightarrow> clearError step m = m)
       \<and> backup (markCompleted step [] m) = Some old
       \<and> (data \<noteq> [] \<longrightarrow>
            backup (markCompleted step data m) = dfile (updateState [(step, True)] m)
          \<and> dfile (updateState [(step, True)] m) =
              Some (stringify ((this_state m)\<lparr>flags := assign (flags (this_state m)) [(step, True)]\<rparr>)))"
  using assms
  by (auto simp: saveState_def fs_save_def Let_def updateState_def updateDeployment_def recordError_def
      clearError_def markCompleted_def split: option.splits)

theorem backup_holds_snapshot_before_last_write_witness:
  "dfile example_manager = Some (stringify example_deployment)
   \<and> backup (updateState [(''uiConfigured'', True)] example_manager) = Some (stringify example_deployment)
   \<and> map_of (errors (this_state example_manager)) ''contractsDeployed'' \<noteq> None
   \<and> backup (clearError ''contractsDeployed'' example_manager) = Some (stringify example_deployment)
   \<and> [(''uiUrl'', JStr ''http://localhost:3000'')] \<noteq> []
   \<and> backup (markCompleted ''contractsDeployed'' [(''uiUrl'', JStr ''http://localhost:3000'')] example_manager)
       = dfile (updateState [(''contractsDeployed'', True)] example_manager)"
proof -
  have h1: "dfile example_manager = Some (stringify example_deployment)"
    by (simp add: example_manager_def)
  have h2: "map_of (errors (this_state example_manager)) ''contractsDeployed'' \<noteq> None"
    by (simp add: example_manager_def example_deployment_def)
  have h3: "[(''uiUrl'', JStr ''http://localhost:3000'')] \<noteq> []" by simp
  from backup_holds_snapshot_before_last_write[OF h1, where step = "''contractsDeployed''"
      and flag_updates = "[(''uiConfigured'', True)]"
      and data = "[(''uiUrl'', JStr ''http://localhost:3000'')]"] h1 h2 h3
  show ?thesis by blast
qed

subsection \<open>Completion tracking\<close>

text \<open>
  What \<open>isCompleted('contractsDeployed')\<close> returns when the flag is not set: the proxy
  address of the old format when both old fields are truthy, and otherwise whatever
  the chain for the new format gives.
\<close>

lemma isCompleted_contractsDeployed_value:
  assumes "\<not> flag (this_state m) ''contractsDeployed''"
  shows "truthy (fld (this_state m) ''tokenAddress'') \<Longrightarrow> truthy (fld (this_state m) ''proxyAddress'')
           \<Longrightarrow> isCompleted m ''contractsDeployed'' = fld (this_state m) ''proxyAddress''"
    and "\<not> (truthy (fld (this_state m) ''tokenAddress'') \<and> truthy (fld (this_state m) ''proxyAddress''))
           \<Longrightarrow> truthy (getp (fld (this_state m) ''contracts'') ''tokenAddress'')
           \<Longrightarrow> isCompleted m ''contractsDeployed'' = getp (fld (this_state m) ''contracts'') ''proxyAddress''"
proof -
  show "truthy (fld (this_state m) ''tokenAddress'') \<Longrightarrow> truthy (fld (this_state m) ''proxyAddress'')
           \<Longrightarrow> isCompleted m ''contractsDeployed'' = fld (this_state m) ''proxyAddress''"
    using assms by (simp add: isCompleted_def hasOldFormat_def js_and_def js_or_def Let_def)
  show "\<not> (truthy (fld (this_state m) ''tokenAddress'') \<and> truthy (fld (this_state m) ''proxyAddress''))
           \<Longrightarrow> truthy (getp (fld (this_state m) ''contracts'') ''tokenAddress'')
           \<Longrightarrow> isCompleted m ''contractsDeployed'' = getp (fld (this_state m) ''contracts'') ''proxyAddress''"
  proof -
    assume a: "\<not> (truthy (fld (this_state m) ''tokenAddress'') \<and> truthy (fld (this_state m) ''proxyAddress''))"
      and b: "truthy (getp (fld (this_state m) ''contracts'') ''tokenAddress'')"
    from b have c: "truthy (fld (this_state m) ''contracts'')"
      by (cases "fld (this_state m) ''contracts''" rule: truthy.cases) simp_all
    from a have "\<not> truthy (hasOldFormat (this_state m))"
      by (auto simp: hasOldFormat_def js_and_def)
    with assms b c show ?thesis
      by (simp add: isCompleted_def hasNewFormat_def js_and_def js_or_def Let_def)
  qed
qed





section \<open>Recording, displaying and clearing errors\<close>

lemma showDetailedErrors_entry:
  assumes "(s, e) \<in> set errs"
  shows "\<exists>pre post. showDetailedErrors toLocale errs =
           pre @ [cross_mark @ '' '' @ s, ''   Time: '' @ toLocale (timestamp e),
                  ''   Error: '' @ message e, []] @ post"
proof -
  from assms obtain xs ys where errs: "errs = xs @ (s, e) # ys"
    by (meson split_list)
  have "showDetailedErrors toLocale errs =
          (output_step ''Detailed Error Information'' [] @ concat (map (error_lines toLocale) xs))
            @ [cross_mark @ '' '' @ s, ''   Time: '' @ toLocale (timestamp e),
               ''   Error: '' @ message e, []]
            @ concat (map (error_lines toLocale) ys)"
    by (simp add: showDetailedErrors_def errs error_lines_def)
  then show ?thesis by blast
qed

lemma loadState_saved:
  "loadState (Some (stringify d)) b = Inr \<lparr>this_state = d, dfile = Some (stringify d), backup = b\<rparr>"
  by (simp add: loadState_def stringify_def)

lemma errors_after_sync:
  "errors (this_state (snd (syncStateFromData m))) = errors (this_state m)"
  by (simp add: syncStateFromData_def Let_def updateState_simps)

text \<open>
  The array \<open>steps\<close> is built without an exception when the fields on which string
  methods are called hold strings.
\<close>

lemma status_steps_strings:
  assumes "\<forall>k \<in> {''tokenAddress'', ''proxyAddress'', ''proofUrl''}.
             \<forall>v. fld d k = Some v \<and> truthy (Some v) \<longrightarrow> (\<exists>s. v = JStr s)"
  shows "\<exists>c p. status_steps d =
           Inr [(''contractsDeployed'', ''Smart Contracts'', c),
                (''dataDAORegistered'', ''DataDAO Registration'', getRegistrationDetails d),
                (''proofConfigured'', ''Proof of Contribution'', p),
                (''refinerConfigured'', ''Data Refiner'', getRefinerDetails d),
                (''uiConfigured'', ''User Interface'', getUIDetails d)]"
proof -
  have t: "truthy (fld d ''tokenAddress'') \<Longrightarrow> \<exists>s. fld d ''tokenAddress'' = Some (JStr s)"
    using assms by (cases "fld d ''tokenAddress''") auto
  have p: "truthy (fld d ''proxyAddress'') \<Longrightarrow> \<exists>s. fld d ''proxyAddress'' = Some (JStr s)"
    using assms by (cases "fld d ''proxyAddress''") auto
  have u: "truthy (fld d ''proofUrl'') \<Longrightarrow> \<exists>s. fld d ''proofUrl'' = Some (JStr s)"
    using assms by (cases "fld d ''proofUrl''") auto
  have c: "\<exists>c. getContractDetails d = Inr c"
  proof (cases "truthy (fld d ''tokenAddress'') \<and> truthy (fld d ''proxyAddress'')")
    case True
    with t p obtain a b where "fld d ''tokenAddress'' = Some (JStr a)" "fld d ''proxyAddress'' = Some (JStr b)"
      by blast
    then show ?thesis by (simp add: getContractDetails_def slice10_def)
  next
    case False
    then show ?thesis by (auto simp: getContractDetails_def)
  qed
  have q: "\<exists>q. getProofDetails d = Inr q"
  proof (cases "truthy (fld d ''proofUrl'')")
    case True
    with u obtain a where "fld d ''proofUrl'' = Some (JStr a)" by blast
    then show ?thesis by (simp add: getProofDetails_def)
  next
    case False
    then show ?thesis by (simp add: getProofDetails_def)
  qed
  from c q show ?thesis by (auto simp: status_steps_def)
qed

text \<open>The run of the status command when errors are recorded and the user asks for them.\<close>

lemma showStatus_errors:
  assumes l: "loadState f b = Inr m0"
    and st: "status_steps (this_state (snd (syncStateFromData m0))) = Inr steps"
    and ne: "errors (this_state m0) \<noteq> []"
  shows "showStatus toLocale f b (Pick ''errors'' # rest) =
     (Returned,
      sync_lines (fst (syncStateFromData m0)) @ project_lines (this_state (snd (syncStateFromData m0)))
        @ [clipboard_mark @ '' Deployment Progress:'']
        @ concat (map (progress_lines (snd (syncStateFromData m0))) steps) @ [[]]
        @ output_warning ''Issues detected in your setup''
        @ showDetailedErrors toLocale (errors (this_state m0)),
      dfile (snd (syncStateFromData m0)), backup (snd (syncStateFromData m0)))"
proof -
  obtain u m2 where s: "syncStateFromData m0 = (u, m2)" by (cases "syncStateFromData m0")
  have e: "errors (this_state m2) = errors (this_state m0)"
    using errors_after_sync[of m0] by (simp add: s)
  from st have st2: "status_steps (this_state m2) = Inr steps" by (simp add: s)
  show ?thesis
    using ne by (simp add: showStatus_def l s st2 e Let_def)
qed

lemma showStatus_waits:
  assumes l: "loadState f b = Inr m0"
    and st: "status_steps (this_state (snd (syncStateFromData m0))) = Inr steps"
    and ne: "errors (this_state m0) \<noteq> []"
  shows "fst (showStatus toLocale f b []) = Waiting"
proof -
  obtain u m2 where s: "syncStateFromData m0 = (u, m2)" by (cases "syncStateFromData m0")
  have e: "errors (this_state m2) = errors (this_state m0)"
    using errors_after_sync[of m0] by (simp add: s)
  from st have st2: "status_steps (this_state m2) = Inr steps" by (simp add: s)
  show ?thesis
    using ne by (simp add: showStatus_def l s st2 e Let_def)
qed

text \<open>Whatever the user answers, the progress list is among the printed lines.\<close>

lemma showStatus_progress:
  assumes l: "loadState f b = Inr m0"
    and st: "status_steps (this_state (snd (syncStateFromData m0))) = Inr steps"
  shows "set (concat (map (progress_lines (snd (syncStateFromData m0))) steps))
           \<subseteq> set (fst (snd (showStatus toLocale f b answers)))"
proof -
  obtain u m2 where s: "syncStateFromData m0 = (u, m2)" by (cases "syncStateFromData m0")
  from st have st2: "status_steps (this_state m2) = Inr steps" by (simp add: s)
  obtain r where r: "ask_list [''fix'', ''recover'', ''credentials'', ''errors'', ''continue''] answers = r"
    by simp
  show ?thesis
  proof (cases r)
    case None
    with r show ?thesis
      by (simp add: showStatus_def l s st2 Let_def) blast
  next
    case (Some p)
    obtain action as where p: "p = (action, as)" by (cases p)
    with Some r show ?thesis
      by (simp add: showStatus_def l s st2 Let_def) blast
  qed
qed

lemma in_concat_map: "x \<in> set (f a) \<Longrightarrow> a \<in> set xs \<Longrightarrow> x \<in> set (concat (map f xs))"
  by auto

lemma step_listed:
  assumes "(k, n) \<in> set [(k1, n1), (k2, n2), (k3, n3), (k4, n4), (k5, n5)]"
  shows "\<exists>d. (k, n, d) \<in> set [(k1, n1, d1), (k2, n2, d2), (k3, n3, d3), (k4, n4, d4), (k5, n5, d5)]"
  using assms by auto

lemma progress_line_failed:
  assumes "map_of (errors (this_state m)) key \<noteq> None"
  shows "(''  '' @ cross_mark @ '' '' @ name @ '' - Failed'') \<in> set (progress_lines m (key, name, details))"
  using assms by (simp add: progress_lines_def Let_def)

text \<open>
  Claim C7. \<open>recordError(step, error)\<close> stores an entry with the error's message, the
  ISO timestamp of the call and the stack under \<open>errors[step]\<close>, overwriting what was
  there and leaving the entries of all other steps as they were, and writes the new
  state to \<open>deployment.json\<close> at once: a manager constructed from the files afterwards
  has the same state. The status command, run on these files later, marks the step as
  failed in its progress list (when the step is one of the five it lists) and asks
  what to do; when the user chooses to view the detailed errors it prints, for the
  error just recorded and for every other recorded entry, the block of lines made of
  the step name, the time and the message. (The fields \<open>tokenAddress\<close>,
  \<open>proxyAddress\<close> and \<open>proofUrl\<close> are taken to hold strings when they are truthy;
  otherwise the status command fails before it lists anything.) \<open>clearError(step)\<close>
  removes the entry of that step and of no other step, and persists the result.
\<close>

theorem recordError_persists_and_displays:
  "map_of (errors (this_state (recordError step error now m))) step =
      Some \<lparr>message = err_message error, timestamp = now, stack = err_stack error\<rparr>
   \<and> (\<forall>s. s \<noteq> step \<longrightarrow>
         map_of (errors (this_state (recordError step error now m))) s = map_of (errors (this_state m)) s)
   \<and> dfile (recordError step error now m) = Some (stringify (this_state (recordError step error now m)))
   \<and> (\<exists>m2. loadState (dfile (recordError step error now m)) (backup (recordError step error now m)) = Inr m2
         \<and> this_state m2 = this_state (recordError step error now m))
   \<and> ((\<forall>k \<in> {''tokenAddress'', ''proxyAddress'', ''proofUrl''}.
          \<forall>v. fld (this_state m) k = Some v \<and> truthy (Some v) \<longrightarrow> (\<exists>s. v = JStr s))
        \<longrightarrow> (\<exists>out files.
               showStatus toLocale (dfile (recordError step error now m)) (backup (recordError step error now m))
                 (Pick ''errors'' # rest) = (Returned, out, files)
               \<and> (\<exists>pre post. out = pre @ [cross_mark @ '' '' @ step, ''   Time: '' @ toLocale now,
                                             ''   Error: '' @ err_message error, []] @ post)
               \<and> (\<forall>s e. map_of (errors (this_state (recordError step error now m))) s = Some e \<longrightarrow>
                     (\<exists>pre post. out = pre @ [cross_mark @ '' '' @ s, ''   Time: '' @ toLocale (timestamp e),
                                               ''   Error: '' @ message e, []] @ post)))
            \<and> fst (showStatus toLocale (dfile (recordError step error now m))
                      (backup (recordError step error now m)) []) = Waiting
            \<and> (\<forall>name answers.
                  (step, name) \<in> set [(''contractsDeployed'', ''Smart Contracts''),
                                       (''dataDAORegistered'', ''DataDAO Registration''),
                                       (''proofConfigured'', ''Proof of Contribution''),
                                       (''refinerConfigured'', ''Data Refiner''),
                                       (''uiConfigured'', ''User Interface'')]
                  \<longrightarrow> (''  '' @ cross_mark @ '' '' @ name @ '' - Failed'')
                        \<in> set (fst (snd (showStatus toLocale (dfile (recordError step error now m))
                                            (backup (recordError step error now m)) answers)))))
   \<and> map_of (errors (this_state (clearError step n))) step = None
   \<and> (\<forall>s. s \<noteq> step \<longrightarrow>
         map_of (errors (this_state (clearError step n))) s = map_of (errors (this_state n)) s)
   \<and> (map_of (errors (this_state n)) step \<noteq> None \<longrightarrow>
         dfile (clearError step n) = Some (stringify (this_state (clearError step n))))"
proof -
  let ?R = "recordError step error now m"
  let ?m0 = "\<lparr>this_state = this_state ?R, dfile = Some (stringify (this_state ?R)), backup = backup ?R\<rparr>"
  let ?m2 = "snd (syncStateFromData ?m0)"
  have c1: "map_of (errors (this_state ?R)) step =
      Some \<lparr>message = err_message error, timestamp = now, stack = err_stack error\<rparr>"
    by (simp add: recordError_def saveState_None_simps AList.update_conv')
  have c2: "\<forall>s. s \<noteq> step \<longrightarrow> map_of (errors (this_state ?R)) s = map_of (errors (this_state m)) s"
    by (simp add: recordError_def saveState_None_simps AList.update_conv')
  have c3: "dfile ?R = Some (stringify (this_state ?R))"
    by (simp add: recordError_def saveState_None_simps)
  have l: "loadState (dfile ?R) (backup ?R) = Inr ?m0"
    by (simp only: c3 loadState_saved)
  have c4: "\<exists>m2. loadState (dfile ?R) (backup ?R) = Inr m2 \<and> this_state m2 = this_state ?R"
    using l by simp
  have ne: "errors (this_state ?m0) \<noteq> []"
    using c1 by auto
  have c5: "(\<forall>k \<in> {''tokenAddress'', ''proxyAddress'', ''proofUrl''}.
          \<forall>v. fld (this_state m) k = Some v \<and> truthy (Some v) \<longrightarrow> (\<exists>s. v = JStr s))
        \<longrightarrow> (\<exists>out files.
               showStatus toLocale (dfile ?R) (backup ?R) (Pick ''errors'' # rest) = (Returned, out, files)
               \<and> (\<exists>pre post. out = pre @ [cross_mark @ '' '' @ step, ''   Time: '' @ toLocale now,
                                             ''   Error: '' @ err_message error, []] @ post)
               \<and> (\<forall>s e. map_of (errors (this_state ?R)) s = Some e \<longrightarrow>
                     (\<exists>pre post. out = pre @ [cross_mark @ '' '' @ s, ''   Time: '' @ toLocale (timestamp e),
                                               ''   Error: '' @ message e, []] @ post)))
            \<and> fst (showStatus toLocale (dfile ?R) (backup ?R) []) = Waiting
            \<and> (\<forall>name answers.
                  (step, name) \<in> set [(''contractsDeployed'', ''Smart Contracts''),
                                       (''dataDAORegistered'', ''DataDAO Registration''),
                                       (''proofConfigured'', ''Proof of Contribution''),
                                       (''refinerConfigured'', ''Data Refiner''),
                                       (''uiConfigured'', ''User Interface'')]
                  \<longrightarrow> (''  '' @ cross_mark @ '' '' @ name @ '' - Failed'')
                        \<in> set (fst (snd (showStatus toLocale (dfile ?R) (backup ?R) answers))))"
  proof
    assume h: "\<forall>k \<in> {''tokenAddress'', ''proxyAddress'', ''proofUrl''}.
          \<forall>v. fld (this_state m) k = Some v \<and> truthy (Some v) \<longrightarrow> (\<exists>s. v = JStr s)"
    have df: "dfields (this_state ?m2) = dfields (this_state m)"
      by (simp add: dfields_after_sync recordError_simps)
    then have "fld (this_state ?m2) k = fld (this_state m) k" for k
      by (simp add: fld_def)
    with h have h2: "\<forall>k \<in> {''tokenAddress'', ''proxyAddress'', ''proofUrl''}.
          \<forall>v. fld (this_state ?m2) k = Some v \<and> truthy (Some v) \<longrightarrow> (\<exists>s. v = JStr s)"
      by simp
    from status_steps_strings[OF h2] obtain c p where
      st: "status_steps (this_state ?m2) =
           Inr [(''contractsDeployed'', ''Smart Contracts'', c),
                (''dataDAORegistered'', ''DataDAO Registration'', getRegistrationDetails (this_state ?m2)),
                (''proofConfigured'', ''Proof of Contribution'', p),
                (''refinerConfigured'', ''Data Refiner'', getRefinerDetails (this_state ?m2)),
                (''uiConfigured'', ''User Interface'', getUIDetails (this_state ?m2))]"
      by blast
    let ?steps = "[(''contractsDeployed'', ''Smart Contracts'', c),
                (''dataDAORegistered'', ''DataDAO Registration'', getRegistrationDetails (this_state ?m2)),
                (''proofConfigured'', ''Proof of Contribution'', p),
                (''refinerConfigured'', ''Data Refiner'', getRefinerDetails (this_state ?m2)),
                (''uiConfigured'', ''User Interface'', getUIDetails (this_state ?m2))]"
    let ?before = "sync_lines (fst (syncStateFromData ?m0)) @ project_lines (this_state ?m2)
        @ [clipboard_mark @ '' Deployment Progress:'']
        @ concat (map (progress_lines ?m2) ?steps) @ [[]]
        @ output_warning ''Issues detected in your setup''"
    let ?out = "?before @ showDetailedErrors toLocale (errors (this_state ?R))"
    have run: "showStatus toLocale (dfile ?R) (backup ?R) (Pick ''errors'' # rest)
                 = (Returned, ?out, dfile ?m2, backup ?m2)"
      using showStatus_errors[OF l st ne, of toLocale rest] by simp
    have blocks: "\<exists>pre post. ?out = pre @ [cross_mark @ '' '' @ s, ''   Time: '' @ toLocale (timestamp e),
                                               ''   Error: '' @ message e, []] @ post"
      if "map_of (errors (this_state ?R)) s = Some e" for s e
    proof -
      from that have "(s, e) \<in> set (errors (this_state ?R))" by (rule map_of_SomeD)
      from showDetailedErrors_entry[OF this, of toLocale] obtain pre post where
        "showDetailedErrors toLocale (errors (this_state ?R)) =
           pre @ [cross_mark @ '' '' @ s, ''   Time: '' @ toLocale (timestamp e),
                  ''   Error: '' @ message e, []] @ post" by blast
      then have "?out = (?before @ pre) @ [cross_mark @ '' '' @ s, ''   Time: '' @ toLocale (timestamp e),
                  ''   Error: '' @ message e, []] @ post" by simp
      then show ?thesis by blast
    qed
    have own: "\<exists>pre post. ?out = pre @ [cross_mark @ '' '' @ step, ''   Time: '' @ toLocale now,
                                             ''   Error: '' @ err_message error, []] @ post"
      using blocks[OF c1] by simp
    have a: "\<exists>out files.
               showStatus toLocale (dfile ?R) (backup ?R) (Pick ''errors'' # rest) = (Returned, out, files)
               \<and> (\<exists>pre post. out = pre @ [cross_mark @ '' '' @ step, ''   Time: '' @ toLocale now,
                                             ''   Error: '' @ err_message error, []] @ post)
               \<and> (\<forall>s e. map_of (errors (this_state ?R)) s = Some e \<longrightarrow>
                     (\<exists>pre post. out = pre @ [cross_mark @ '' '' @ s, ''   Time: '' @ toLocale (timestamp e),
                                               ''   Error: '' @ message e, []] @ post))"
    proof (rule exI[of _ ?out], rule exI[of _ "(dfile ?m2, backup ?m2)"], intro conjI allI impI)
      show "showStatus toLocale (dfile ?R) (backup ?R) (Pick ''errors'' # rest)
                 = (Returned, ?out, dfile ?m2, backup ?m2)" by (rule run)
      show "\<exists>pre post. ?out = pre @ [cross_mark @ '' '' @ step, ''   Time: '' @ toLocale now,
                                             ''   Error: '' @ err_message error, []] @ post" by (rule own)
      fix s e assume "map_of (errors (this_state ?R)) s = Some e"
      then show "\<exists>pre post. ?out = pre @ [cross_mark @ '' '' @ s, ''   Time: '' @ toLocale (timestamp e),
                                               ''   Error: '' @ message e, []] @ post" by (rule blocks)
    qed
    have w: "fst (showStatus toLocale (dfile ?R) (backup ?R) []) = Waiting"
      by (rule showStatus_waits[OF l st ne])
    have er: "map_of (errors (this_state ?m2)) step \<noteq> None"
      using c1 by (simp add: errors_after_sync)
    have g: "(''  '' @ cross_mark @ '' '' @ name @ '' - Failed'')
                \<in> set (fst (snd (showStatus toLocale (dfile ?R) (backup ?R) answers)))"
      if "(step, name) \<in> set [(''contractsDeployed'', ''Smart Contracts''),
                                       (''dataDAORegistered'', ''DataDAO Registration''),
                                       (''proofConfigured'', ''Proof of Contribution''),
                                       (''refinerConfigured'', ''Data Refiner''),
                                       (''uiConfigured'', ''User Interface'')]" for name answers
    proof -
      from step_listed[OF that] obtain details where d: "(step, name, details) \<in> set ?steps"
        by (rule exE)
      have "(''  '' @ cross_mark @ '' '' @ name @ '' - Failed'') \<in> set (progress_lines ?m2 (step, name, details))"
        using er by (rule progress_line_failed)
      then have "(''  '' @ cross_mark @ '' '' @ name @ '' - Failed'')
                     \<in> set (concat (map (progress_lines ?m2) ?steps))"
        using d by (rule in_concat_map)
      then show ?thesis
        by (rule subsetD[OF showStatus_progress[OF l st, of toLocale answers]])
    qed
    show "(\<exists>out files.
               showStatus toLocale (dfile ?R) (backup ?R) (Pick ''errors'' # rest) = (Returned, out, files)
               \<and> (\<exists>pre post. out = pre @ [cross_mark @ '' '' @ step, ''   Time: '' @ toLocale now,
                                             ''   Error: '' @ err_message error, []] @ post)
               \<and> (\<forall>s e. map_of (errors (this_state ?R)) s = Some e \<longrightarrow>
                     (\<exists>pre post. out = pre @ [cross_mark @ '' '' @ s, ''   Time: '' @ toLocale (timestamp e),
                                               ''   Error: '' @ message e, []] @ post)))
            \<and> fst (showStatus toLocale (dfile ?R) (backup ?R) []) = Waiting
            \<and> (\<forall>name answers.
                  (step, name) \<in> set [(''contractsDeployed'', ''Smart Contracts''),
                                       (''dataDAORegistered'', ''DataDAO Registration''),
                                       (''proofConfigured'', ''Proof of Contribution''),
                                       (''refinerConfigured'', ''Data Refiner''),
                                       (''uiConfigured'', ''User Interface'')]
                  \<longrightarrow> (''  '' @ cross_mark @ '' '' @ name @ '' - Failed'')
                        \<in> set (fst (snd (showStatus toLocale (dfile ?R) (backup ?R) answers))))"
    proof (intro conjI allI impI)
      show "\<exists>out files.
               showStatus toLocale (dfile ?R) (backup ?R) (Pick ''errors'' # rest) = (Returned, out, files)
               \<and> (\<exists>pre post. out = pre @ [cross_mark @ '' '' @ step, ''   Time: '' @ toLocale now,
                                             ''   Error: '' @ err_message error, []] @ post)
               \<and> (\<forall>s e. map_of (errors (this_state ?R)) s = Some e \<longrightarrow>
                     (\<exists>pre post. out = pre @ [cross_mark @ '' '' @ s, ''   Time: '' @ toLocale (timestamp e),
                                               ''   Error: '' @ message e, []] @ post))" by (rule a)
      show "fst (showStatus toLocale (dfile ?R) (backup ?R) []) = Waiting" by (rule w)
      fix name answers
      assume "(step, name) \<in> set [(''contractsDeployed'', ''Smart Contracts''),
                                       (''dataDAORegistered'', ''DataDAO Registration''),
                                       (''proofConfigured'', ''Proof of Contribution''),
                                       (''refinerConfigured'', ''Data Refiner''),
                                       (''uiConfigured'', ''User Interface'')]"
      then show "(''  '' @ cross_mark @ '' '' @ name @ '' - Failed'')
                        \<in> set (fst (snd (showStatus toLocale (dfile ?R) (backup ?R) answers)))" by (rule g)
    qed
  qed
  have c6: "map_of (errors (this_state (clearError step n))) step = None"
    by (simp add: clearError_def saveState_None_simps AList.delete_conv' split: option.splits)
  have c7: "\<forall>s. s \<noteq> step \<longrightarrow>
         map_of (errors (this_state (clearError step n))) s = map_of (errors (this_state n)) s"
    by (simp add: clearError_def saveState_None_simps AList.delete_conv' split: option.splits)
  have c8: "map_of (errors (this_state n)) step \<noteq> None \<longrightarrow>
         dfile (clearError step n) = Some (stringify (this_state (clearError step n)))"
    by (auto simp add: clearError_def saveState_None_simps split: option.splits)
  from c1 c2 c3 c4 c5 c6 c7 c8 show ?thesis by (intro conjI)
qed

theorem recordError_persists_and_displays_witness:
  "fld (this_state example_manager) ''tokenAddress'' = None
   \<and> fld (this_state example_manager) ''proxyAddress'' = None
   \<and> fld (this_state example_manager) ''proofUrl'' = None
   \<and> map_of (errors (this_state example_failed)) ''dataDAORegistered''
       = Some \<lparr>message = ''insufficient funds'', timestamp = ''2025-01-02T00:00:00.000Z'', stack = None\<rparr>
   \<and> map_of (errors (this_state example_failed)) ''contractsDeployed''
       = map_of (errors (this_state example_manager)) ''contractsDeployed''
   \<and> (\<exists>out files.
         showStatus id (dfile example_failed) (backup example_failed) [Pick ''errors''] = (Returned, out, files)
         \<and> (\<exists>pre post. out = pre @ [cross_mark @ '' '' @ ''dataDAORegistered'',
                                       ''   Time: '' @ id ''2025-01-02T00:00:00.000Z'',
                                       ''   Error: '' @ ''insufficient funds'', []] @ post))
   \<and> fst (showStatus id (dfile example_failed) (backup example_failed) []) = Waiting
   \<and> (''  '' @ cross_mark @ '' '' @ ''DataDAO Registration'' @ '' - Failed'')
        \<in> set (fst (snd (showStatus id (dfile example_failed) (backup example_failed) [Pick ''continue''])))
   \<and> showStatus id (dfile example_failed) (backup example_failed) [Pick ''errors''] =
       (Returned,
        [[], cycle_mark @ '' DataDAO Project Status'', ''   Project: QuickstartDAO'', [],
         [], clipboard_mark @ '' Project Information'',
         ''  '' @ bullet @ '' DataDAO Name: QuickstartDAO'',
         ''  '' @ bullet @ '' Token: undefined (undefined)'',
         ''  '' @ bullet @ '' Wallet Address: 0xabc'', [],
         clipboard_mark @ '' Deployment Progress:'',
         ''  '' @ cross_mark @ '' Smart Contracts - Failed'',
         ''  '' @ cross_mark @ '' DataDAO Registration - Failed'',
         ''  '' @ pause_mark @ '' Proof of Contribution - Pending'',
         ''  '' @ pause_mark @ '' Data Refiner - Pending'',
         ''  '' @ pause_mark @ '' User Interface - Pending'', [],
         warning_mark @ ''  Issues detected in your setup'',
         [], cycle_mark @ '' Detailed Error Information'', [],
         cross_mark @ '' contractsDeployed'', ''   Time: 2025-01-01T00:00:00.000Z'',
         ''   Error: Command failed'', [],
         cross_mark @ '' dataDAORegistered'', ''   Time: 2025-01-02T00:00:00.000Z'',
         ''   Error: insufficient funds'', []],
        dfile example_failed, backup example_failed)
   \<and> map_of (errors (this_state example_failed)) ''dataDAORegistered'' \<noteq> None
   \<and> map_of (errors (this_state (clearError ''dataDAORegistered'' example_failed))) ''dataDAORegistered'' = None
   \<and> map_of (errors (this_state (clearError ''dataDAORegistered'' example_failed))) ''contractsDeployed''
       = map_of (errors (this_state example_failed)) ''contractsDeployed''
   \<and> dfile (clearError ''dataDAORegistered'' example_failed)
       = Some (stringify (this_state (clearError ''dataDAORegistered'' example_failed)))"
proof -
  note t = recordError_persists_and_displays[where step = "''dataDAORegistered''"
      and error = "Error ''insufficient funds''" and now = "''2025-01-02T00:00:00.000Z''"
      and m = example_manager and n = example_failed and toLocale = id and rest = "[]",
      folded example_failed_def]
  have f1: "fld (this_state example_manager) ''tokenAddress'' = None"
    by (simp add: example_manager_def example_deployment_def fld_def)
  have f2: "fld (this_state example_manager) ''proxyAddress'' = None"
    by (simp add: example_manager_def example_deployment_def fld_def)
  have f3: "fld (this_state example_manager) ''proofUrl'' = None"
    by (simp add: example_manager_def example_deployment_def fld_def)
  have h: "\<forall>k \<in> {''tokenAddress'', ''proxyAddress'', ''proofUrl''}.
          \<forall>v. fld (this_state example_manager) k = Some v \<and> truthy (Some v) \<longrightarrow> (\<exists>s. v = JStr s)"
    using f1 f2 f3 by simp
  have ne: "''contractsDeployed'' \<noteq> ''dataDAORegistered''" by simp
  have c1: "map_of (errors (this_state example_failed)) ''dataDAORegistered''
       = Some \<lparr>message = ''insufficient funds'', timestamp = ''2025-01-02T00:00:00.000Z'', stack = None\<rparr>"
    using t[THEN conjunct1] by (simp add: Error_def)
  note r = t[THEN conjunct2]
  note c2 = r[THEN conjunct1, THEN spec, THEN mp, OF ne]
  note r = r[THEN conjunct2, THEN conjunct2, THEN conjunct2]
  note d = r[THEN conjunct1, THEN mp, OF h]
  have m: "err_message (Error ''insufficient funds'') = ''insufficient funds''"
    by (simp add: Error_def)
  have d1: "\<exists>out files.
         showStatus id (dfile example_failed) (backup example_failed) [Pick ''errors''] = (Returned, out, files)
         \<and> (\<exists>pre post. out = pre @ [cross_mark @ '' '' @ ''dataDAORegistered'',
                                       ''   Time: '' @ id ''2025-01-02T00:00:00.000Z'',
                                       ''   Error: '' @ ''insufficient funds'', []] @ post)"
  proof -
    from d[THEN conjunct1] obtain out files where
      abc: "showStatus id (dfile example_failed) (backup example_failed) [Pick ''errors''] = (Returned, out, files)
         \<and> (\<exists>pre post. out = pre @ [cross_mark @ '' '' @ ''dataDAORegistered'',
                                       ''   Time: '' @ id ''2025-01-02T00:00:00.000Z'',
                                       ''   Error: '' @ err_message (Error ''insufficient funds''), []] @ post)
         \<and> (\<forall>s e. map_of (errors (this_state example_failed)) s = Some e \<longrightarrow>
               (\<exists>pre post. out = pre @ [cross_mark @ '' '' @ s, ''   Time: '' @ id (timestamp e),
                                         ''   Error: '' @ message e, []] @ post))"
      by (elim exE) (rule that)
    note a = abc[THEN conjunct1]
    note b = abc[THEN conjunct2, THEN conjunct1]
    from b have b': "\<exists>pre post. out = pre @ [cross_mark @ '' '' @ ''dataDAORegistered'',
                                       ''   Time: '' @ id ''2025-01-02T00:00:00.000Z'',
                                       ''   Error: '' @ ''insufficient funds'', []] @ post"
      by (simp only: m)
    show ?thesis
      by (rule exI[of _ out], rule exI[of _ files], rule conjI, rule a, rule b')
  qed
  note d2 = d[THEN conjunct2, THEN conjunct1]
  have mem: "(''dataDAORegistered'', ''DataDAO Registration'')
               \<in> set [(''contractsDeployed'', ''Smart Contracts''),
                       (''dataDAORegistered'', ''DataDAO Registration''),
                       (''proofConfigured'', ''Proof of Contribution''),
                       (''refinerConfigured'', ''Data Refiner''),
                       (''uiConfigured'', ''User Interface'')]" by simp
  note d3 = d[THEN conjunct2, THEN conjunct2, THEN spec,
      THEN spec[where x = "[Pick ''continue'']"], THEN mp, OF mem]
  have full: "showStatus id (dfile example_failed) (backup example_failed) [Pick ''errors''] =
       (Returned,
        [[], cycle_mark @ '' DataDAO Project Status'', ''   Project: QuickstartDAO'', [],
         [], clipboard_mark @ '' Project Information'',
         ''  '' @ bullet @ '' DataDAO Name: QuickstartDAO'',
         ''  '' @ bullet @ '' Token: undefined (undefined)'',
         ''  '' @ bullet @ '' Wallet Address: 0xabc'', [],
         clipboard_mark @ '' Deployment Progress:'',
         ''  '' @ cross_mark @ '' Smart Contracts - Failed'',
         ''  '' @ cross_mark @ '' DataDAO Registration - Failed'',
         ''  '' @ pause_mark @ '' Proof of Contribution - Pending'',
         ''  '' @ pause_mark @ '' Data Refiner - Pending'',
         ''  '' @ pause_mark @ '' User Interface - Pending'', [],
         warning_mark @ ''  Issues detected in your setup'',
         [], cycle_mark @ '' Detailed Error Information'', [],
         cross_mark @ '' contractsDeployed'', ''   Time: 2025-01-01T00:00:00.000Z'',
         ''   Error: Command failed'', [],
         cross_mark @ '' dataDAORegistered'', ''   Time: 2025-01-02T00:00:00.000Z'',
         ''   Error: insufficient funds'', []],
        dfile example_failed, backup example_failed)"
    by code_simp
  have e: "map_of (errors (this_state example_failed)) ''dataDAORegistered'' \<noteq> None"
    using c1 by simp
  note r = r[THEN conjunct2]
  note c6 = r[THEN conjunct1]
  note c7 = r[THEN conjunct2, THEN conjunct1, THEN spec, THEN mp, OF ne]
  note c8 = r[THEN conjunct2, THEN conjunct2, THEN mp, OF e]
  show ?thesis
    by (intro conjI) (rule f1 f2 f3 c1 c2 d1 d2 d3 full e c6 c7 c8)+
qed

end
